(* ===== verification/Prelude.thy ===== *)
theory Prelude
  imports Main "HOL-Library.Word" "HOL-Library.AList" "HOL-Library.Char_ord"
    "HOL-Library.List_Lexorder"
begin

text \<open>
  Shared vocabulary of the development: the pieces of the Rust standard library that the
  modelled sources use, and the generic lemmas that carry the component proofs.

  A Rust \<^verbatim>\<open>String\<close> is its UTF-8 bytes, so it is HOL's \<^typ>\<open>string\<close> (a list of
  8-bit characters); \<^verbatim>\<open>Ord for str\<close> is the lexicographic order of the bytes, which is the
  order of \<open>List_Lexorder\<close> over \<open>Char_ord\<close>. \<^verbatim>\<open>Result<T, E>\<close> is the sum \<open>'e + 't\<close> with
  the error on the left. A \<^verbatim>\<open>HashMap\<close> is an association list with distinct keys (the
  iteration order of the program's hash maps is unspecified; no theorem depends on it), and a
  \<^verbatim>\<open>BTreeMap\<close> is an association list whose keys are strictly increasing, so that its
  iteration order is the program's.
\<close>

named_theorems hmap_simps \<open>lookup and key laws of the finite map operations\<close>
named_theorems level_simps \<open>arithmetic of access levels and execution flags\<close>

section \<open>Strings\<close>

subsection \<open>Trimming white space\<close>

text \<open>
  \<^verbatim>\<open>str::trim\<close> removes leading and trailing characters with the Unicode property
  \<^verbatim>\<open>White_Space\<close>. On UTF-8 bytes these are the ASCII bytes 9--13 and 32, the two-byte
  sequences of U+0085 and U+00A0, and the three-byte sequences of U+1680, U+2000--U+200A,
  U+2028, U+2029, U+202F, U+205F and U+3000.
\<close>

abbreviation byte :: "char \<Rightarrow> nat" where
  "byte c \<equiv> of_char c"

definition ws1 :: "char \<Rightarrow> bool" where
  "ws1 a \<longleftrightarrow> (9 \<le> byte a \<and> byte a \<le> 13) \<or> byte a = 32"

definition ws2 :: "char \<Rightarrow> char \<Rightarrow> bool" where
  "ws2 a b \<longleftrightarrow> byte a = 194 \<and> (byte b = 133 \<or> byte b = 160)"

definition ws3 :: "char \<Rightarrow> char \<Rightarrow> char \<Rightarrow> bool" where
  "ws3 a b c \<longleftrightarrow>
     (byte a = 225 \<and> byte b = 154 \<and> byte c = 128) \<or>
     (byte a = 226 \<and> byte b = 128 \<and>
        ((128 \<le> byte c \<and> byte c \<le> 138) \<or> byte c = 168 \<or> byte c = 169 \<or> byte c = 175)) \<or>
     (byte a = 226 \<and> byte b = 129 \<and> byte c = 159) \<or>
     (byte a = 227 \<and> byte b = 128 \<and> byte c = 128)"

text \<open>
  \<open>drop_ws\<close> removes the encoded white space characters at the front of a byte string, where
  the three predicates recognise their one-, two- and three-byte encodings.
\<close>

fun drop_ws :: "(char \<Rightarrow> bool) \<Rightarrow> (char \<Rightarrow> char \<Rightarrow> bool) \<Rightarrow> (char \<Rightarrow> char \<Rightarrow> char \<Rightarrow> bool) \<Rightarrow>
    string \<Rightarrow> string" where
  "drop_ws w1 w2 w3 [] = []"
| "drop_ws w1 w2 w3 [a] = (if w1 a then [] else [a])"
| "drop_ws w1 w2 w3 [a, b] =
     (if w1 a then drop_ws w1 w2 w3 [b] else if w2 a b then [] else [a, b])"
| "drop_ws w1 w2 w3 (a # b # c # s) =
     (if w1 a then drop_ws w1 w2 w3 (b # c # s)
      else if w2 a b then drop_ws w1 w2 w3 (c # s)
      else if w3 a b c then drop_ws w1 w2 w3 s
      else a # b # c # s)"

definition trim_start :: "string \<Rightarrow> string" where
  "trim_start s = drop_ws ws1 ws2 ws3 s"

definition trim_end :: "string \<Rightarrow> string" where
  "trim_end s = rev (drop_ws ws1 (\<lambda>a b. ws2 b a) (\<lambda>a b c. ws3 c b a) (rev s))"

definition trim :: "string \<Rightarrow> string" where
  "trim s = trim_end (trim_start s)"

text \<open>A string that starts with no white space is left alone, and so are its prefixes.\<close>

fun starts_ws :: "(char \<Rightarrow> bool) \<Rightarrow> (char \<Rightarrow> char \<Rightarrow> bool) \<Rightarrow> (char \<Rightarrow> char \<Rightarrow> char \<Rightarrow> bool) \<Rightarrow>
    string \<Rightarrow> bool" where
  "starts_ws w1 w2 w3 [] = False"
| "starts_ws w1 w2 w3 [a] = w1 a"
| "starts_ws w1 w2 w3 [a, b] = (w1 a \<or> w2 a b)"
| "starts_ws w1 w2 w3 (a # b # c # s) = (w1 a \<or> w2 a b \<or> w3 a b c)"

lemma drop_ws_id: "\<not> starts_ws w1 w2 w3 s \<Longrightarrow> drop_ws w1 w2 w3 s = s"
  by (induction w1 w2 w3 s rule: starts_ws.induct) auto

lemma drop_ws_not_starts: "\<not> starts_ws w1 w2 w3 (drop_ws w1 w2 w3 s)"
  by (induction w1 w2 w3 s rule: drop_ws.induct) auto

lemma starts_ws_append: "starts_ws w1 w2 w3 s \<Longrightarrow> starts_ws w1 w2 w3 (s @ t)"
proof (induction w1 w2 w3 s rule: starts_ws.induct)
  case (2 w1 w2 w3 a)
  then show ?case by (cases t; cases "tl t") auto
next
  case (3 w1 w2 w3 a b)
  then show ?case by (cases t) auto
qed auto

lemma drop_ws_suffix: "\<exists>p. s = p @ drop_ws w1 w2 w3 s"
proof (induction w1 w2 w3 s rule: drop_ws.induct)
  case (3 w1 w2 w3 a b)
  then show ?case by (auto intro: exI [of _ "[a]"] exI [of _ "[a, b]"])
next
  case (4 w1 w2 w3 a b c s)
  then show ?case by (metis append.simps(1) append.simps(2) drop_ws.simps(4))
qed auto

lemma trim_end_prefix: "\<exists>q. s = trim_end s @ q"
proof -
  obtain p where "rev s = p @ drop_ws ws1 (\<lambda>a b. ws2 b a) (\<lambda>a b c. ws3 c b a) (rev s)"
    using drop_ws_suffix by blast
  then have "s = trim_end s @ rev p"
    unfolding trim_end_def by (metis rev_append rev_rev_ident)
  then show ?thesis ..
qed

lemma trim_end_idem: "trim_end (trim_end s) = trim_end s"
  unfolding trim_end_def by (simp add: drop_ws_id drop_ws_not_starts)

lemma trim_idem [simp]: "trim (trim s) = trim s"
proof -
  obtain q where q: "trim_start s = trim_end (trim_start s) @ q"
    using trim_end_prefix by blast
  have "\<not> starts_ws ws1 ws2 ws3 (trim_start s)"
    unfolding trim_start_def by (rule drop_ws_not_starts)
  then have "\<not> starts_ws ws1 ws2 ws3 (trim_end (trim_start s))"
    using q starts_ws_append by metis
  then have "trim_start (trim_end (trim_start s)) = trim_end (trim_start s)"
    unfolding trim_start_def by (simp add: drop_ws_id)
  then show ?thesis
    unfolding trim_def by (simp add: trim_end_idem)
qed

lemma trim_Nil [simp]: "trim [] = []"
  by (simp add: trim_def trim_start_def trim_end_def)


subsection \<open>ASCII case and affixes\<close>

definition ascii_lower :: "char \<Rightarrow> char" where
  "ascii_lower c = (if 65 \<le> byte c \<and> byte c \<le> 90 then char_of (byte c + 32) else c)"

definition to_ascii_lowercase :: "string \<Rightarrow> string" where
  "to_ascii_lowercase s = map ascii_lower s"

definition ends_with :: "string \<Rightarrow> string \<Rightarrow> bool" where
  "ends_with s t \<longleftrightarrow> length t \<le> length s \<and> drop (length s - length t) s = t"

definition strip_prefix :: "string \<Rightarrow> string \<Rightarrow> string option" where
  "strip_prefix p s = (if take (length p) s = p then Some (drop (length p) s) else None)"

text \<open>\<^verbatim>\<open>str::split(':').next()\<close>: the part before the first separator, the whole string without one.\<close>

definition split_first :: "char \<Rightarrow> string \<Rightarrow> string" where
  "split_first c s = takeWhile (\<lambda>x. x \<noteq> c) s"

text \<open>\<^verbatim>\<open>str::split_once\<close>: the parts before and after the first occurrence of a separator.\<close>

fun split_once :: "string \<Rightarrow> string \<Rightarrow> (string \<times> string) option" where
  "split_once sep [] = (if sep = [] then Some ([], []) else None)"
| "split_once sep (c # s) =
     (case strip_prefix sep (c # s) of
        Some rest \<Rightarrow> Some ([], rest)
      | None \<Rightarrow> map_option (\<lambda>(a, b). (c # a, b)) (split_once sep s))"

subsection \<open>Decimal numbers\<close>

definition digit_value :: "char \<Rightarrow> nat option" where
  "digit_value c = (if 48 \<le> byte c \<and> byte c \<le> 57 then Some (byte c - 48) else None)"

fun digits_value :: "nat \<Rightarrow> string \<Rightarrow> nat option" where
  "digits_value acc [] = Some acc"
| "digits_value acc (c # s) =
     (case digit_value c of None \<Rightarrow> None | Some d \<Rightarrow> digits_value (acc * 10 + d) s)"

text \<open>\<^verbatim>\<open>str::parse::<u64>\<close>: decimal digits with an optional plus sign, within 64 bits.\<close>

definition parse_u64 :: "string \<Rightarrow> 64 word option" where
  "parse_u64 s =
     (let t = (case s of [] \<Rightarrow> [] | c # r \<Rightarrow> if c = CHR 0x2B then r else s)
      in if t = [] then None
         else Option.bind (digits_value 0 t) (\<lambda>n. if n < 2 ^ 64 then Some (of_nat n) else None))"

text \<open>The \<^verbatim>\<open>Display\<close> form of a number.\<close>

fun show_nat :: "nat \<Rightarrow> string" where
  "show_nat n = (if n < 10 then [char_of (48 + n)] else show_nat (n div 10) @ [char_of (48 + n mod 10)])"

declare show_nat.simps [simp del]

section \<open>Options\<close>

definition is_none_or :: "('a \<Rightarrow> bool) \<Rightarrow> 'a option \<Rightarrow> bool" where
  "is_none_or p x = (case x of None \<Rightarrow> True | Some v \<Rightarrow> p v)"

definition is_some_and :: "('a \<Rightarrow> bool) \<Rightarrow> 'a option \<Rightarrow> bool" where
  "is_some_and p x = (case x of None \<Rightarrow> False | Some v \<Rightarrow> p v)"

definition option_or :: "'a option \<Rightarrow> 'a option \<Rightarrow> 'a option" where
  "option_or x y = (case x of None \<Rightarrow> y | Some v \<Rightarrow> Some v)"

definition unwrap_or :: "'a \<Rightarrow> 'a option \<Rightarrow> 'a" where
  "unwrap_or d x = (case x of None \<Rightarrow> d | Some v \<Rightarrow> v)"

definition option_filter :: "('a \<Rightarrow> bool) \<Rightarrow> 'a option \<Rightarrow> 'a option" where
  "option_filter p x = (case x of None \<Rightarrow> None | Some v \<Rightarrow> if p v then Some v else None)"

lemma option_helpers [simp]:
  "is_none_or p None" "is_none_or p (Some v) = p v"
  "\<not> is_some_and p None" "is_some_and p (Some v) = p v"
  "option_or None y = y" "option_or (Some v) y = Some v"
  "unwrap_or d None = d" "unwrap_or d (Some v) = v"
  "option_filter p None = None" "option_filter p (Some v) = (if p v then Some v else None)"
  by (simp_all add: is_none_or_def is_some_and_def option_or_def unwrap_or_def option_filter_def)

section \<open>Sorting and removing duplicates\<close>

text \<open>\<^verbatim>\<open>v.sort(); v.dedup()\<close>\<close>

definition sort_dedup :: "'a::linorder list \<Rightarrow> 'a list" where
  "sort_dedup xs = remdups_adj (sort xs)"

lemma set_sort_dedup [simp]: "set (sort_dedup xs) = set xs"
  by (simp add: sort_dedup_def)

lemma sorted_remdups_adj_strict: "sorted xs \<Longrightarrow> sorted_wrt (<) (remdups_adj xs)"
proof (induction xs rule: remdups_adj.induct)
  case (3 x y xs)
  then show ?case by (auto simp: less_le_trans order_neq_le_trans)
qed simp_all

lemma strict_sort_dedup: "sorted_wrt (<) (sort_dedup xs)"
  by (simp add: sort_dedup_def sorted_remdups_adj_strict)

lemma sort_dedup_id: "sorted_wrt (<) xs \<Longrightarrow> sort_dedup xs = xs"
  by (simp add: sort_dedup_def strict_sorted_iff sorted_sort_id remdups_adj_distinct)

lemma sort_dedup_idem [simp]: "sort_dedup (sort_dedup xs) = sort_dedup xs"
  by (simp add: sort_dedup_id strict_sort_dedup)

lemma distinct_map_sort_key: "distinct (map f (sort_key g xs)) = distinct (map f xs)"
  by (simp add: distinct_map)

text \<open>
  The normal form of a list of identifiers: trimmed, without empty names, sorted, without
  duplicates.
\<close>

definition normalize_names :: "string list \<Rightarrow> string list" where
  "normalize_names ids = sort_dedup (filter (\<lambda>s. s \<noteq> []) (map trim ids))"

lemma set_normalize_names: "set (normalize_names ids) = trim ` set ids - {[]}"
  by (auto simp: normalize_names_def)

lemma strict_normalize_names: "sorted_wrt (<) (normalize_names ids)"
  by (simp add: normalize_names_def strict_sort_dedup)

definition names_wf :: "string list \<Rightarrow> bool" where
  "names_wf ids \<longleftrightarrow> sorted_wrt (<) ids \<and> (\<forall>s \<in> set ids. trim s = s \<and> s \<noteq> [])"

lemma names_wf_normalize [simp]: "names_wf (normalize_names ids)"
  by (auto simp: names_wf_def set_normalize_names strict_normalize_names)

lemma normalize_names_id: "names_wf ids \<Longrightarrow> normalize_names ids = ids"
  by (auto simp: normalize_names_def names_wf_def map_idI sort_dedup_id intro!: trans [OF _ sort_dedup_id]
      arg_cong [where f = sort_dedup] filter_True)

lemma names_wf_filter: "names_wf ids \<Longrightarrow> names_wf (filter P ids)"
  by (auto simp: names_wf_def sorted_wrt_filter)

lemma names_wf_Nil [simp]: "names_wf []"
  by (simp add: names_wf_def)

section \<open>Finite maps\<close>

text \<open>
  What the components rely on of a map: lookups after an update, the size as the number of
  keys. The lemmas of the locale are what the clients use; both map representations below
  interpret it.
\<close>

locale finite_map =
  fixes lookup :: "'m \<Rightarrow> 'k \<Rightarrow> 'v option"
    and insert_at :: "'k \<Rightarrow> 'v \<Rightarrow> 'm \<Rightarrow> 'm"
    and remove_at :: "'k \<Rightarrow> 'm \<Rightarrow> 'm"
    and len :: "'m \<Rightarrow> nat"
    and invar :: "'m \<Rightarrow> bool"
  assumes lookup_insert: "invar m \<Longrightarrow> lookup (insert_at k v m) = (lookup m)(k \<mapsto> v)"
    and lookup_remove: "invar m \<Longrightarrow> lookup (remove_at k m) = (lookup m)(k := None)"
    and invar_insert: "invar m \<Longrightarrow> invar (insert_at k v m)"
    and invar_remove: "invar m \<Longrightarrow> invar (remove_at k m)"
    and finite_keys: "finite (dom (lookup m))"
    and len_card: "invar m \<Longrightarrow> len m = card (dom (lookup m))"
begin

lemma len_insert_new: "invar m \<Longrightarrow> lookup m k = None \<Longrightarrow> len (insert_at k v m) = Suc (len m)"
  by (simp add: len_card invar_insert lookup_insert finite_keys domIff)

lemma len_insert_old: "invar m \<Longrightarrow> lookup m k \<noteq> None \<Longrightarrow> len (insert_at k v m) = len m"
  by (simp add: len_card invar_insert lookup_insert insert_absorb domIff)

lemma len_insert_le: "invar m \<Longrightarrow> len (insert_at k v m) \<le> Suc (len m)"
  by (cases "lookup m k = None") (simp_all add: len_insert_new len_insert_old)

lemma len_remove_present: "invar m \<Longrightarrow> lookup m k \<noteq> None \<Longrightarrow> Suc (len (remove_at k m)) = len m"
  using card_Suc_Diff1 [OF finite_keys, of k m]
  by (simp add: len_card invar_remove lookup_remove domIff)

lemma len_remove_le: "invar m \<Longrightarrow> len (remove_at k m) \<le> len m"
  by (simp add: len_card invar_remove lookup_remove finite_keys card_Diff1_le)

text \<open>Moving an entry from one map to another never makes the two maps hold more entries.\<close>

lemma len_move_le:
  assumes "invar a" and "invar b" and "lookup a k \<noteq> None"
  shows "len (remove_at k a) + len (insert_at k' v b) \<le> len a + len b"
  using len_remove_present [OF assms(1,3)] len_insert_le [OF assms(2), of k' v] by linarith

lemma len_move:
  assumes "invar a" and "invar b" and "lookup a k \<noteq> None" and "lookup b k' = None"
  shows "len (remove_at k a) + len (insert_at k' v b) = len a + len b"
  using len_remove_present [OF assms(1,3)] len_insert_new [OF assms(2,4), of v] by linarith

end

subsection \<open>Hash maps\<close>

type_synonym ('k, 'v) hmap = "('k \<times> 'v) list"

definition hm_insert :: "'k \<Rightarrow> 'v \<Rightarrow> ('k, 'v) hmap \<Rightarrow> ('k, 'v) hmap" where
  "hm_insert k v m = AList.update k v m"

definition hm_remove :: "'k \<Rightarrow> ('k, 'v) hmap \<Rightarrow> ('k, 'v) hmap" where
  "hm_remove k m = AList.delete k m"

definition hm_wf :: "('k, 'v) hmap \<Rightarrow> bool" where
  "hm_wf m \<longleftrightarrow> distinct (map fst m)"

text \<open>\<^verbatim>\<open>retain\<close> keeps the entries that satisfy a predicate.\<close>

definition hm_retain :: "('k \<Rightarrow> 'v \<Rightarrow> bool) \<Rightarrow> ('k, 'v) hmap \<Rightarrow> ('k, 'v) hmap" where
  "hm_retain p m = filter (\<lambda>(k, v). p k v) m"

interpretation hmap: finite_map map_of hm_insert hm_remove length hm_wf
proof unfold_locales
  fix m :: "('a, 'b) hmap" and k v
  assume m: "hm_wf m"
  show "map_of (hm_insert k v m) = (map_of m)(k \<mapsto> v)"
    by (simp add: hm_insert_def update_conv')
  show "map_of (hm_remove k m) = (map_of m)(k := None)"
    by (simp add: hm_remove_def delete_conv')
  show "hm_wf (hm_insert k v m)"
    using m by (simp add: hm_insert_def hm_wf_def distinct_update)
  show "hm_wf (hm_remove k m)"
    using m by (simp add: hm_remove_def hm_wf_def distinct_delete)
  show "length m = card (dom (map_of m))"
    using distinct_card [of "map fst m"] m by (simp add: hm_wf_def dom_map_of_conv_image_fst)
qed (simp add: finite_dom_map_of)

lemma map_of_hm_insert [hmap_simps]: "map_of (hm_insert k v m) = (map_of m)(k \<mapsto> v)"
  by (simp add: hm_insert_def update_conv')

lemma map_of_hm_remove [hmap_simps]: "map_of (hm_remove k m) = (map_of m)(k := None)"
  by (simp add: hm_remove_def delete_conv')

lemma hm_wf_Nil [simp]: "hm_wf []"
  by (simp add: hm_wf_def)

lemma hm_wf_retain: "hm_wf m \<Longrightarrow> hm_wf (hm_retain p m)"
  by (simp add: hm_wf_def hm_retain_def distinct_map_filter)

lemma map_of_hm_retain:
  "hm_wf m \<Longrightarrow> map_of (hm_retain p m) k = (case map_of m k of None \<Rightarrow> None | Some v \<Rightarrow> if p k v then Some v else None)"
  by (induction m) (auto simp: hm_wf_def hm_retain_def map_of_eq_None_iff image_iff split: option.splits)

subsection \<open>Ordered maps\<close>

type_synonym ('k, 'v) bmap = "('k \<times> 'v) list"

definition bt_insert :: "'k::linorder \<Rightarrow> 'v \<Rightarrow> ('k, 'v) bmap \<Rightarrow> ('k, 'v) bmap" where
  "bt_insert k v m = insort_key fst (k, v) (AList.delete k m)"

definition bt_remove :: "'k::linorder \<Rightarrow> ('k, 'v) bmap \<Rightarrow> ('k, 'v) bmap" where
  "bt_remove k m = AList.delete k m"

text \<open>\<^verbatim>\<open>f(map.entry(k).or_insert(d))\<close>: change the value at a key, from a default if it is absent.\<close>

definition bt_entry :: "'k::linorder \<Rightarrow> 'v \<Rightarrow> ('v \<Rightarrow> 'v) \<Rightarrow> ('k, 'v) bmap \<Rightarrow> ('k, 'v) bmap" where
  "bt_entry k d f m = bt_insert k (f (unwrap_or d (map_of m k))) m"

definition bt_wf :: "('k::linorder, 'v) bmap \<Rightarrow> bool" where
  "bt_wf m \<longleftrightarrow> sorted_wrt (<) (map fst m)"

lemma bt_wf_Nil [simp]: "bt_wf []"
  by (simp add: bt_wf_def)

lemma map_of_insort_new: "k \<notin> fst ` set m \<Longrightarrow> map_of (insort_key fst (k, v) m) = (map_of m)(k \<mapsto> v)"
  by (induction m) (auto simp: fun_eq_iff)

lemma delete_not_key: "k \<notin> fst ` set (AList.delete k m)"
  by (simp add: dom_map_of_conv_image_fst [symmetric] delete_conv' domIff)

lemma map_of_bt_insert [hmap_simps]: "map_of (bt_insert k v m) = (map_of m)(k \<mapsto> v)"
  by (simp add: bt_insert_def map_of_insort_new delete_not_key delete_conv')

lemma map_of_bt_remove [hmap_simps]: "map_of (bt_remove k m) = (map_of m)(k := None)"
  by (simp add: bt_remove_def delete_conv')

lemma map_of_bt_entry [hmap_simps]:
  "map_of (bt_entry k d f m) = (map_of m)(k \<mapsto> f (unwrap_or d (map_of m k)))"
  by (simp add: bt_entry_def hmap_simps)

lemma bt_wf_iff: "bt_wf m \<longleftrightarrow> sorted (map fst m) \<and> distinct (map fst m)"
  by (simp add: bt_wf_def strict_sorted_iff)

lemma bt_wf_delete: "bt_wf m \<Longrightarrow> bt_wf (AList.delete k m)"
  by (simp add: bt_wf_def AList.delete_eq sorted_wrt_map sorted_wrt_filter)

lemma distinct_insort_key:
  "k \<notin> fst ` set m \<Longrightarrow> distinct (map fst m) \<Longrightarrow> distinct (map fst (insort_key fst (k, v) m))"
  by (induction m) (auto simp: set_insort_key)

lemma bt_wf_insert [intro]: "bt_wf m \<Longrightarrow> bt_wf (bt_insert k v m)"
  using bt_wf_delete [of m k]
  by (simp add: bt_wf_iff bt_insert_def sorted_insort_key distinct_insort_key delete_not_key)

lemma bt_wf_entry [intro]: "bt_wf m \<Longrightarrow> bt_wf (bt_entry k d f m)"
  by (simp add: bt_entry_def bt_wf_insert)

lemma bt_wf_hm: "bt_wf m \<Longrightarrow> hm_wf m"
  by (simp add: bt_wf_iff hm_wf_def)

interpretation bmap: finite_map map_of bt_insert bt_remove length bt_wf
proof unfold_locales
  fix m :: "('a::linorder, 'b) bmap" and k v
  assume m: "bt_wf m"
  show "map_of (bt_insert k v m) = (map_of m)(k \<mapsto> v)"
    and "map_of (bt_remove k m) = (map_of m)(k := None)"
    by (simp_all add: hmap_simps)
  show "bt_wf (bt_insert k v m)"
    and "bt_wf (bt_remove k m)"
    using m by (auto simp: bt_remove_def bt_wf_delete)
  show "length m = card (dom (map_of m))"
    using m by (simp add: bt_wf_hm hmap.len_card)
qed (simp add: finite_dom_map_of)

text \<open>A map read in key order holds exactly its lookups.\<close>

lemma bt_mem_iff: "bt_wf m \<Longrightarrow> (k, v) \<in> set m \<longleftrightarrow> map_of m k = Some v"
  by (simp add: bt_wf_iff)

subsection \<open>Lists searched by a key\<close>

lemma find_key_map_of: "List.find (\<lambda>r. f r = k) xs = map_of (map (\<lambda>r. (f r, r)) xs) k"
  by (induction xs) auto

lemma find_key_Some: "List.find (\<lambda>r. f r = k) xs = Some r \<Longrightarrow> r \<in> set xs \<and> f r = k"
  by (induction xs) (auto split: if_splits)

lemma find_key_None: "List.find (\<lambda>r. f r = k) xs = None \<longleftrightarrow> k \<notin> f ` set xs"
  by (induction xs) (auto split: if_splits)

lemma find_map: "List.find P (map f xs) = map_option f (List.find (\<lambda>x. P (f x)) xs)"
  by (induction xs) auto

lemma filter_key_unique:
  "distinct (map f xs) \<Longrightarrow>
   filter (\<lambda>x. f x = k) xs = (case List.find (\<lambda>x. f x = k) xs of None \<Rightarrow> [] | Some x \<Rightarrow> [x])"
proof (induction xs)
  case (Cons x xs)
  then show ?case
    using find_key_None [of f k xs] by (cases "f x = k") (auto simp: filter_empty_conv)
qed simp

lemma find_key_unique:
  "distinct (map f xs) \<Longrightarrow> r \<in> set xs \<Longrightarrow> List.find (\<lambda>s. f s = f r) xs = Some r"
  by (induction xs) auto

end
