(* ===== verification/Mcp_Policy.thy ===== *)
theory Mcp_Policy
  imports Prelude
begin

text \<open>
  The persisted MCP policy (``v1''): the records of
  \<^verbatim>\<open>crates/dbx-core/src/persistence/storage.rs\<close>, its normal form
  (\<^verbatim>\<open>McpGlobalPolicy::normalized\<close>), the evaluation functions of
  \<^verbatim>\<open>crates/dbx-core/src/ai/mcp_policy.rs\<close>, and the scope checks of the MCP server
  (\<^verbatim>\<open>crates/dbx-mcp/src/server.rs\<close>) that read it. Deserialisation (serde) is not modelled:
  the functions take the deserialised values.
\<close>

section \<open>Data\<close>

datatype McpConfirmPolicy = ConfirmOff | ConfirmFull | ConfirmHighRisk

datatype McpPluginToolsMode = ToolsAuto | ToolsFlat | ToolsLazy

datatype McpDatabaseScope = DbAll | DbSelected | DbNone

record McpDatabasePolicy =
  dp_database_name :: string
  dp_read_only :: bool
  dp_allow_dangerous_sql :: bool

record McpGroupPolicy =
  grp_group_id :: string
  grp_read_only :: bool
  grp_allow_dangerous_sql :: bool

record McpConnectionPolicy =
  cp_connection_id :: string
  cp_read_only :: bool
  cp_allow_dangerous_sql :: bool
  cp_execution_mode_configured :: bool
  cp_execution_mode_policy_version :: "8 word option"
  cp_database_scope :: McpDatabaseScope
  cp_allowed_databases :: "string list"
  cp_database_policies :: "McpDatabasePolicy list"
  cp_allow_salesforce_dml :: bool

record McpGlobalPolicy =
  gp_read_only :: bool
  gp_allow_dangerous_sql :: bool
  gp_prompt_high_risk_sql :: bool
  gp_call_confirmation :: "McpConfirmPolicy option"
  gp_allowed_connection_ids :: "string list option"
  gp_allowed_group_ids :: "string list"
  gp_allowed_tool_names :: "string list option"
  gp_connection_policies :: "McpConnectionPolicy list"
  gp_group_policies :: "McpGroupPolicy list"
  gp_query_timeout_secs :: "64 word option"
  gp_plugin_tools_mode :: McpPluginToolsMode

definition MCP_EXECUTION_POLICY_VERSION :: "8 word" where
  "MCP_EXECUTION_POLICY_VERSION = 1"

section \<open>Merging rules with the same key\<close>

text \<open>
  Three loops of \<^verbatim>\<open>normalized\<close> share one shape: trim the rule's key, skip an empty key,
  \<^verbatim>\<open>entry(key).and_modify(..).or_insert_with(..)\<close> into a hash map, then take the values
  and sort them by key.
\<close>

definition merge_step :: "('a \<Rightarrow> string) \<Rightarrow> (string \<Rightarrow> 'a \<Rightarrow> 'a) \<Rightarrow> ('a \<Rightarrow> 'a \<Rightarrow> 'a) \<Rightarrow>
    (string, 'a) hmap \<Rightarrow> 'a \<Rightarrow> (string, 'a) hmap" where
  "merge_step key ini upd m rule =
     (let k = trim (key rule)
      in if k = [] then m
         else hm_insert k (case map_of m k of Some current \<Rightarrow> upd current rule | None \<Rightarrow> ini k rule) m)"

definition merge_rules :: "('a \<Rightarrow> string) \<Rightarrow> (string \<Rightarrow> 'a \<Rightarrow> 'a) \<Rightarrow> ('a \<Rightarrow> 'a \<Rightarrow> 'a) \<Rightarrow> 'a list \<Rightarrow> 'a list" where
  "merge_rules key ini upd rules =
     sort_key key (map snd (foldl (merge_step key ini upd) [] rules))"

section \<open>Normal form\<close>

subsection \<open>Database rules\<close>

definition database_policy_modify :: "McpDatabasePolicy \<Rightarrow> McpDatabasePolicy \<Rightarrow> McpDatabasePolicy" where
  "database_policy_modify current policy =
     current\<lparr>dp_read_only := dp_read_only current \<or> dp_read_only policy,
             dp_allow_dangerous_sql := dp_allow_dangerous_sql current \<and> dp_allow_dangerous_sql policy\<rparr>"

definition database_policy_new :: "string \<Rightarrow> McpDatabasePolicy \<Rightarrow> McpDatabasePolicy" where
  "database_policy_new name policy =
     \<lparr>dp_database_name = name, dp_read_only = dp_read_only policy,
      dp_allow_dangerous_sql = \<not> dp_read_only policy \<and> dp_allow_dangerous_sql policy\<rparr>"

definition database_policy_clamp :: "McpDatabasePolicy \<Rightarrow> McpDatabasePolicy" where
  "database_policy_clamp policy =
     (if dp_read_only policy then policy\<lparr>dp_allow_dangerous_sql := False\<rparr> else policy)"

definition normalize_mcp_database_policies :: "McpDatabasePolicy list \<Rightarrow> McpDatabasePolicy list" where
  "normalize_mcp_database_policies policies =
     map database_policy_clamp
       (merge_rules dp_database_name database_policy_new database_policy_modify policies)"

definition merge_mcp_database_policies ::
    "McpDatabasePolicy list \<Rightarrow> McpDatabasePolicy list \<Rightarrow> McpDatabasePolicy list" where
  "merge_mcp_database_policies left right = normalize_mcp_database_policies (left @ right)"

subsection \<open>Database scopes\<close>

definition normalize_mcp_ids :: "string list \<Rightarrow> string list" where
  "normalize_mcp_ids ids = sort_dedup (filter (\<lambda>s. s \<noteq> []) (map trim ids))"

definition normalize_mcp_database_names :: "string list \<Rightarrow> string list" where
  "normalize_mcp_database_names databases = sort_dedup (filter (\<lambda>s. s \<noteq> []) (map trim databases))"

text \<open>
  \<^verbatim>\<open>binary_search(x).is_ok()\<close> on a sorted vector is membership; the vector searched is the
  result of \<^verbatim>\<open>normalize_mcp_database_names\<close>, which is sorted.
\<close>

fun intersect_mcp_database_scopes ::
    "McpDatabaseScope \<Rightarrow> string list \<Rightarrow> McpDatabaseScope \<Rightarrow> string list \<Rightarrow> McpDatabaseScope \<times> string list" where
  "intersect_mcp_database_scopes DbNone _ _ _ = (DbNone, [])"
| "intersect_mcp_database_scopes _ _ DbNone _ = (DbNone, [])"
| "intersect_mcp_database_scopes DbAll _ DbAll _ = (DbAll, [])"
| "intersect_mcp_database_scopes DbAll _ DbSelected right = (DbSelected, normalize_mcp_database_names right)"
| "intersect_mcp_database_scopes DbSelected left DbAll _ = (DbSelected, normalize_mcp_database_names left)"
| "intersect_mcp_database_scopes DbSelected left DbSelected right =
     (let r = normalize_mcp_database_names right
      in (DbSelected, filter (\<lambda>database. database \<in> set r) (normalize_mcp_database_names left)))"

subsection \<open>Connection rules\<close>

definition merge_policy_version :: "8 word option \<Rightarrow> 8 word option \<Rightarrow> 8 word option" where
  "merge_policy_version current rule =
     (case (current, rule) of
        (Some left, Some right) \<Rightarrow>
          if left = MCP_EXECUTION_POLICY_VERSION \<and> right = left then Some left else None
      | _ \<Rightarrow> None)"

definition connection_policy_modify :: "McpConnectionPolicy \<Rightarrow> McpConnectionPolicy \<Rightarrow> McpConnectionPolicy" where
  "connection_policy_modify current rule =
     (let current1 =
            (if cp_execution_mode_configured rule then
               (if cp_execution_mode_configured current
                then current\<lparr>cp_read_only := cp_read_only current \<or> cp_read_only rule,
                             cp_allow_dangerous_sql :=
                               cp_allow_dangerous_sql current \<and> cp_allow_dangerous_sql rule\<rparr>
                else current\<lparr>cp_read_only := cp_read_only rule,
                             cp_allow_dangerous_sql := cp_allow_dangerous_sql rule\<rparr>)
                 \<lparr>cp_execution_mode_configured := True\<rparr>
             else current);
          (scope, databases) =
            intersect_mcp_database_scopes (cp_database_scope current) (cp_allowed_databases current)
              (cp_database_scope rule) (cp_allowed_databases rule)
      in current1\<lparr>cp_execution_mode_policy_version :=
                    merge_policy_version (cp_execution_mode_policy_version current)
                      (cp_execution_mode_policy_version rule),
                  cp_database_scope := scope,
                  cp_allowed_databases := databases,
                  cp_database_policies :=
                    merge_mcp_database_policies (cp_database_policies current) (cp_database_policies rule),
                  cp_allow_salesforce_dml :=
                    cp_allow_salesforce_dml current \<and> cp_allow_salesforce_dml rule\<rparr>)"

definition connection_policy_new :: "string \<Rightarrow> McpConnectionPolicy \<Rightarrow> McpConnectionPolicy" where
  "connection_policy_new cid rule =
     rule\<lparr>cp_connection_id := cid,
          cp_allowed_databases := normalize_mcp_database_names (cp_allowed_databases rule),
          cp_database_policies := normalize_mcp_database_policies (cp_database_policies rule)\<rparr>"

definition connection_policy_clamp :: "McpConnectionPolicy \<Rightarrow> McpConnectionPolicy" where
  "connection_policy_clamp rule =
     (let rule1 = (if cp_read_only rule
                   then rule\<lparr>cp_allow_dangerous_sql := False, cp_allow_salesforce_dml := False\<rparr>
                   else rule);
          databases = normalize_mcp_database_names (cp_allowed_databases rule1)
      in if cp_database_scope rule1 \<noteq> DbSelected
         then rule1\<lparr>cp_allowed_databases := [], cp_database_policies := []\<rparr>
         else rule1\<lparr>cp_allowed_databases := databases,
                    cp_database_policies :=
                      filter (\<lambda>policy. dp_database_name policy \<in> set databases)
                        (cp_database_policies rule1)\<rparr>)"

subsection \<open>Group rules\<close>

definition group_policy_modify :: "McpGroupPolicy \<Rightarrow> McpGroupPolicy \<Rightarrow> McpGroupPolicy" where
  "group_policy_modify current rule =
     current\<lparr>grp_read_only := grp_read_only current \<or> grp_read_only rule,
             grp_allow_dangerous_sql := grp_allow_dangerous_sql current \<and> grp_allow_dangerous_sql rule\<rparr>"

definition group_policy_new :: "string \<Rightarrow> McpGroupPolicy \<Rightarrow> McpGroupPolicy" where
  "group_policy_new gid rule =
     \<lparr>grp_group_id = gid, grp_read_only = grp_read_only rule,
      grp_allow_dangerous_sql = \<not> grp_read_only rule \<and> grp_allow_dangerous_sql rule\<rparr>"

definition group_policy_clamp :: "McpGroupPolicy \<Rightarrow> McpGroupPolicy" where
  "group_policy_clamp rule =
     (if grp_read_only rule then rule\<lparr>grp_allow_dangerous_sql := False\<rparr> else rule)"

subsection \<open>The global policy\<close>

definition confirmation_policy :: "McpGlobalPolicy \<Rightarrow> McpConfirmPolicy" where
  "confirmation_policy p =
     unwrap_or (if gp_prompt_high_risk_sql p then ConfirmFull else ConfirmOff) (gp_call_confirmation p)"

definition normalized :: "McpGlobalPolicy \<Rightarrow> McpGlobalPolicy" where
  "normalized p =
     (let allowed_connection_ids =
            map_option (\<lambda>ids. sort_dedup (filter (\<lambda>s. s \<noteq> []) (map trim ids))) (gp_allowed_connection_ids p)
      in \<lparr>gp_read_only = gp_read_only p,
          gp_allow_dangerous_sql = (\<not> gp_read_only p \<and> gp_allow_dangerous_sql p),
          gp_prompt_high_risk_sql = (confirmation_policy p = ConfirmFull),
          gp_call_confirmation =
            (if confirmation_policy p = ConfirmHighRisk then Some ConfirmHighRisk else None),
          gp_allowed_connection_ids = allowed_connection_ids,
          gp_allowed_group_ids =
            (if allowed_connection_ids \<noteq> None then normalize_mcp_ids (gp_allowed_group_ids p) else []),
          gp_allowed_tool_names =
            map_option (\<lambda>tools. sort_dedup (filter (\<lambda>s. s \<noteq> []) (map trim tools))) (gp_allowed_tool_names p),
          gp_connection_policies =
            map connection_policy_clamp
              (merge_rules cp_connection_id connection_policy_new connection_policy_modify
                 (gp_connection_policies p)),
          gp_group_policies =
            map group_policy_clamp
              (merge_rules grp_group_id group_policy_new group_policy_modify (gp_group_policies p)),
          gp_query_timeout_secs = gp_query_timeout_secs p,
          gp_plugin_tools_mode = gp_plugin_tools_mode p\<rparr>)"

section \<open>Evaluation\<close>

record McpConnectionGroupPath =
  path_ids :: "string list"
  path_names :: "string list"

text \<open>The sidebar layout as deserialised: group metadata and the tree of entries.\<close>

datatype SidebarOrderEntry =
    SideGroup string "SidebarOrderEntry list option" "string list option"
  | SideConnection string

type_synonym paths = "(string, McpConnectionGroupPath) hmap"

definition missing_group_error :: "string \<Rightarrow> string" where
  "missing_group_error gid = ''INVALID_SIDEBAR_LAYOUT: group '' @ [CHR 0x27] @ gid @ [CHR 0x27] @ '' has no metadata''"

fun collect_connection_group_paths ::
    "SidebarOrderEntry list \<Rightarrow> (string, string) hmap \<Rightarrow> McpConnectionGroupPath \<Rightarrow> paths \<Rightarrow> string + paths" where
  "collect_connection_group_paths [] groups path paths = Inr paths"
| "collect_connection_group_paths (SideConnection cid # entries) groups path paths =
     collect_connection_group_paths entries groups path (hm_insert cid path paths)"
| "collect_connection_group_paths (SideGroup gid children connection_ids # entries) groups path paths =
     (case map_of groups gid of
        None \<Rightarrow> Inl (missing_group_error gid)
      | Some name \<Rightarrow>
          let inner = \<lparr>path_ids = path_ids path @ [gid], path_names = path_names path @ [name]\<rparr>
          in (case (case children of
                      Some cs \<Rightarrow> collect_connection_group_paths cs groups inner paths
                    | None \<Rightarrow>
                        (case connection_ids of
                           Some cids \<Rightarrow> Inr (foldl (\<lambda>ps cid. hm_insert cid inner ps) paths cids)
                         | None \<Rightarrow> Inr paths)) of
                Inl e \<Rightarrow> Inl e
              | Inr paths' \<Rightarrow> collect_connection_group_paths entries groups path paths'))"

definition connection_group_paths :: "(string \<times> string) list \<Rightarrow> SidebarOrderEntry list \<Rightarrow> string + paths" where
  "connection_group_paths groups order =
     collect_connection_group_paths order (foldl (\<lambda>m (i, n). hm_insert i n m) [] groups)
       \<lparr>path_ids = [], path_names = []\<rparr> []"

definition policy_uses_connection_groups :: "McpGlobalPolicy \<Rightarrow> bool" where
  "policy_uses_connection_groups p \<longleftrightarrow> gp_allowed_group_ids p \<noteq> [] \<or> gp_group_policies p \<noteq> []"

definition policy_allows_connection :: "McpGlobalPolicy \<Rightarrow> McpConnectionGroupPath option \<Rightarrow> string \<Rightarrow> bool" where
  "policy_allows_connection p group_path connection_id \<longleftrightarrow>
     is_none_or (\<lambda>allowed.
       list_ex (\<lambda>i. i = connection_id) allowed \<or>
       is_some_and (\<lambda>path. list_ex (\<lambda>i. list_ex (\<lambda>a. a = i) (gp_allowed_group_ids p)) (path_ids path))
         group_path)
       (gp_allowed_connection_ids p)"

definition resolve_database :: "string \<Rightarrow> string option \<Rightarrow> string" where
  "resolve_database requested configured =
     (let r = trim requested in if r = [] then trim (unwrap_or [] configured) else r)"

definition apply_ceiling :: "bool \<times> bool \<Rightarrow> bool \<times> bool \<Rightarrow> bool \<times> bool" where
  "apply_ceiling current ceiling =
     (let ro = fst current \<or> fst ceiling in (ro, \<not> ro \<and> snd current \<and> snd ceiling))"

definition group_execution_policy :: "McpGlobalPolicy \<Rightarrow> string list \<Rightarrow> bool \<times> bool" where
  "group_execution_policy p group_ids =
     foldl (\<lambda>effective group_id.
              case List.find (\<lambda>rule. grp_group_id rule = group_id) (gp_group_policies p) of
                Some rule \<Rightarrow> (grp_read_only rule, \<not> grp_read_only rule \<and> grp_allow_dangerous_sql rule)
              | None \<Rightarrow> effective)
       (gp_read_only p, gp_allow_dangerous_sql p) group_ids"

definition effective_database_execution_policy_with_groups ::
    "McpGlobalPolicy \<Rightarrow> string list \<Rightarrow> string \<Rightarrow> string \<Rightarrow> bool \<times> bool" where
  "effective_database_execution_policy_with_groups p group_ids connection_id database =
     (let effective = group_execution_policy p group_ids
      in case List.find (\<lambda>rule. cp_connection_id rule = connection_id) (gp_connection_policies p) of
           None \<Rightarrow> effective
         | Some rule \<Rightarrow>
             (let database_policy =
                    List.find (\<lambda>d. dp_database_name d = database) (cp_database_policies rule)
              in if cp_execution_mode_policy_version rule = Some MCP_EXECUTION_POLICY_VERSION then
                   (let effective1 =
                          (if cp_execution_mode_configured rule
                           then (cp_read_only rule, \<not> cp_read_only rule \<and> cp_allow_dangerous_sql rule)
                           else effective)
                    in case database_policy of
                         Some d \<Rightarrow> (dp_read_only d, \<not> dp_read_only d \<and> dp_allow_dangerous_sql d)
                       | None \<Rightarrow> effective1)
                 else
                   (let effective1 =
                          (if cp_execution_mode_configured rule
                           then apply_ceiling effective (cp_read_only rule, cp_allow_dangerous_sql rule)
                           else effective)
                    in case database_policy of
                         Some d \<Rightarrow> apply_ceiling effective1 (dp_read_only d, dp_allow_dangerous_sql d)
                       | None \<Rightarrow> effective1)))"

definition effective_database_execution_policy :: "McpGlobalPolicy \<Rightarrow> string \<Rightarrow> string \<Rightarrow> bool \<times> bool" where
  "effective_database_execution_policy p connection_id database =
     effective_database_execution_policy_with_groups p [] connection_id database"

definition connection_allows_salesforce_dml :: "McpGlobalPolicy \<Rightarrow> string \<Rightarrow> bool" where
  "connection_allows_salesforce_dml p connection_id \<longleftrightarrow>
     is_some_and (\<lambda>rule. cp_allow_salesforce_dml rule \<and> \<not> cp_read_only rule)
       (List.find (\<lambda>rule. cp_connection_id rule = connection_id) (gp_connection_policies p))"

subsection \<open>Scope checks of the MCP server\<close>

datatype DatabaseScope = ScopeAll | ScopeSelected "string list" | ScopeNone

definition database_scope_for_connection :: "McpGlobalPolicy \<Rightarrow> string \<Rightarrow> DatabaseScope" where
  "database_scope_for_connection p connection_id =
     (case List.find (\<lambda>rule. cp_connection_id rule = connection_id) (gp_connection_policies p) of
        None \<Rightarrow> ScopeAll
      | Some rule \<Rightarrow>
          (case cp_database_scope rule of
             DbAll \<Rightarrow> ScopeAll
           | DbSelected \<Rightarrow> ScopeSelected (cp_allowed_databases rule)
           | DbNone \<Rightarrow> ScopeNone))"

text \<open>\<^verbatim>\<open>ensure_database_in_scope\<close> returns \<^verbatim>\<open>Ok(())\<close> or the \<^verbatim>\<open>DATABASE_OUT_OF_SCOPE\<close> tool error.\<close>

definition ensure_database_in_scope :: "DatabaseScope \<Rightarrow> string \<Rightarrow> string + unit" where
  "ensure_database_in_scope scope database =
     (case scope of
        ScopeAll \<Rightarrow> Inr ()
      | ScopeSelected allowed \<Rightarrow>
          if list_ex (\<lambda>a. a = database) allowed then Inr () else Inl ''DATABASE_OUT_OF_SCOPE''
      | ScopeNone \<Rightarrow> Inl ''DATABASE_OUT_OF_SCOPE'')"

definition policy_allows_tool :: "McpGlobalPolicy \<Rightarrow> string \<Rightarrow> bool" where
  "policy_allows_tool p tool_name =
     (case gp_allowed_tool_names p of
        None \<Rightarrow> True
      | Some allowed \<Rightarrow>
          if list_ex (\<lambda>name. name = tool_name) allowed then True
          else (case Option.bind (strip_prefix ''dbx_'' tool_name) (split_once ''__'') of
                  None \<Rightarrow> False
                | Some (prefix, _) \<Rightarrow>
                    list_ex (\<lambda>name. name = ''dbx_*__*'' \<or> name = ''dbx_'' @ prefix @ ''__*'') allowed))"


section \<open>Laws of the rule merge\<close>

text \<open>
  The contract the three loops of \<^verbatim>\<open>normalized\<close> meet: a new entry carries the trimmed key it
  was filed under, and merging a duplicate into an entry keeps the entry's key.
\<close>

locale keyed_merge =
  fixes key :: "'a \<Rightarrow> string"
    and ini :: "string \<Rightarrow> 'a \<Rightarrow> 'a"
    and upd :: "'a \<Rightarrow> 'a \<Rightarrow> 'a"
  assumes key_ini: "key (ini k r) = k"
    and key_upd: "key (upd c r) = key c"
begin

definition keyed :: "(string, 'a) hmap \<Rightarrow> bool" where
  "keyed m \<longleftrightarrow> hm_wf m \<and> (\<forall>k v. map_of m k = Some v \<longrightarrow> key v = k \<and> trim k = k \<and> k \<noteq> [])"

lemma keyed_step: "keyed m \<Longrightarrow> keyed (merge_step key ini upd m r)"
  by (auto simp: keyed_def merge_step_def Let_def hmap_simps hmap.invar_insert key_ini key_upd
      split: option.splits)

lemma keyed_fold: "keyed m \<Longrightarrow> keyed (foldl (merge_step key ini upd) m rules)"
  by (induction rules arbitrary: m) (auto simp: keyed_step)

lemma keyed_rules: "keyed (foldl (merge_step key ini upd) [] rules)"
  by (rule keyed_fold) (simp add: keyed_def)

lemma keyed_keys: "keyed m \<Longrightarrow> map key (map snd m) = map fst m"
  by (auto simp: keyed_def hm_wf_def)

lemma merge_keys_distinct: "distinct (map key (merge_rules key ini upd rules))"
proof -
  let ?m = "foldl (merge_step key ini upd) [] rules"
  have "distinct (map key (map snd ?m))"
    using keyed_rules [of rules] unfolding keyed_keys [OF keyed_rules] by (simp add: keyed_def hm_wf_def)
  then have "distinct (map key (sort_key key (map snd ?m)))"
    by (simp only: distinct_map_sort_key)
  then show ?thesis by (simp add: merge_rules_def)
qed

lemma merge_keys_sorted: "sorted_wrt (<) (map key (merge_rules key ini upd rules))"
  using merge_keys_distinct by (simp add: strict_sorted_iff merge_rules_def)

lemma merge_key_wf:
  assumes "r \<in> set (merge_rules key ini upd rules)"
  shows "trim (key r) = key r \<and> key r \<noteq> []"
proof -
  let ?m = "foldl (merge_step key ini upd) [] rules"
  obtain k where "(k, r) \<in> set ?m" using assms by (auto simp: merge_rules_def)
  then have "map_of ?m k = Some r"
    using keyed_rules [of rules] by (simp add: keyed_def hm_wf_def)
  then show ?thesis using keyed_rules [of rules] unfolding keyed_def by metis
qed

lemma names_wf_merge: "names_wf (map key (merge_rules key ini upd rules))"
  using merge_keys_sorted merge_key_wf by (auto simp: names_wf_def)

lemma step_lookup:
  "map_of (merge_step key ini upd m r) k =
     (if trim (key r) = k \<and> k \<noteq> []
      then Some (case map_of m k of Some c \<Rightarrow> upd c r | None \<Rightarrow> ini k r)
      else map_of m k)"
  by (auto simp: merge_step_def Let_def hmap_simps split: option.splits)

text \<open>What a key is merged to: the first rule filed under it, updated by each later one in order.\<close>

lemma fold_lookup:
  assumes "trim k = k" and "k \<noteq> []"
  shows "map_of (foldl (merge_step key ini upd) m rules) k =
    (case map_of m k of
       Some v \<Rightarrow> Some (foldl upd v (filter (\<lambda>r. trim (key r) = k) rules))
     | None \<Rightarrow> (case filter (\<lambda>r. trim (key r) = k) rules of
                  [] \<Rightarrow> None
                | r # rs \<Rightarrow> Some (foldl upd (ini k r) rs)))"
proof (induction rules arbitrary: m)
  case Nil
  then show ?case by (simp split: option.splits)
next
  case (Cons r rules)
  show ?case
    using assms by (simp add: Cons.IH step_lookup split: option.splits)
qed

lemma merge_lookup:
  assumes "trim k = k" and "k \<noteq> []"
  shows "List.find (\<lambda>r. key r = k) (merge_rules key ini upd rules) =
    (case filter (\<lambda>r. trim (key r) = k) rules of
       [] \<Rightarrow> None
     | r # rs \<Rightarrow> Some (foldl upd (ini k r) rs))" (is "?l = ?r")
proof -
  let ?m = "foldl (merge_step key ini upd) [] rules"
  have wf: "keyed ?m" by (rule keyed_rules)
  have eq: "map_of ?m k = ?r" using fold_lookup [OF assms, of "[]" rules] by simp
  show ?thesis
  proof (cases "map_of ?m k")
    case None
    have "k \<notin> key ` set (merge_rules key ini upd rules)"
    proof
      assume "k \<in> key ` set (merge_rules key ini upd rules)"
      then obtain k' v where "(k', v) \<in> set ?m" and "key v = k" by (auto simp: merge_rules_def)
      then have "map_of ?m k = Some v" using wf by (auto simp: keyed_def hm_wf_def)
      then show False using None by simp
    qed
    then show ?thesis using None eq by (simp add: find_key_None)
  next
    case (Some v)
    then have "v \<in> set (merge_rules key ini upd rules)" and "key v = k"
      using wf by (auto simp: merge_rules_def keyed_def dest: map_of_SomeD intro: rev_image_eqI)
    then show ?thesis
      using find_key_unique [OF merge_keys_distinct, of v rules] Some eq by simp
  qed
qed

text \<open>Rules whose keys are already normal and distinct are filed as they are.\<close>

lemma merge_lookup_unique:
  assumes "distinct (map key rules)" and "\<forall>r \<in> set rules. trim (key r) = key r \<and> key r \<noteq> []"
  shows "List.find (\<lambda>r. key r = k) (merge_rules key ini upd rules) =
    map_option (ini k) (List.find (\<lambda>r. key r = k) rules)"
proof (cases "trim k = k \<and> k \<noteq> []")
  case True
  have "filter (\<lambda>r. trim (key r) = k) rules = filter (\<lambda>r. key r = k) rules"
    using assms(2) by (auto intro!: filter_cong)
  also have "\<dots> = (case List.find (\<lambda>r. key r = k) rules of None \<Rightarrow> [] | Some r \<Rightarrow> [r])"
    by (rule filter_key_unique [OF assms(1)])
  finally show ?thesis
    using True merge_lookup [of k rules] by (simp split: option.splits)
next
  case False
  then have "k \<notin> key ` set (merge_rules key ini upd rules)" and "k \<notin> key ` set rules"
    using merge_key_wf assms(2) by blast+
  then show ?thesis by (simp add: find_key_None [THEN iffD2])
qed

text \<open>A property that new entries have and merging keeps holds of every merged rule.\<close>

lemma merge_all:
  assumes ini: "\<And>k r. P (ini k r)" and upd: "\<And>c r. P c \<Longrightarrow> P (upd c r)"
    and r: "r \<in> set (merge_rules key ini upd rules)"
  shows "P r"
proof -
  have fold: "P c \<Longrightarrow> P (foldl upd c rs)" for c rs
    by (induction rs arbitrary: c) (auto intro: upd)
  have "List.find (\<lambda>s. key s = key r) (merge_rules key ini upd rules) = Some r"
    by (rule find_key_unique [OF merge_keys_distinct r])
  then obtain r0 rs where "foldl upd (ini (key r) r0) rs = r"
    using merge_lookup [of "key r" rules] merge_key_wf [OF r] by (auto split: list.splits)
  then show ?thesis using fold [OF ini, of "key r" r0 rs] by simp
qed

lemma fold_new:
  assumes "names_wf (map key rules)" and "\<forall>r \<in> set rules. ini (key r) r = r"
    and "\<forall>r \<in> set rules. key r \<notin> fst ` set m"
  shows "foldl (merge_step key ini upd) m rules = m @ map (\<lambda>r. (key r, r)) rules"
  using assms
proof (induction rules arbitrary: m)
  case Nil
  then show ?case by simp
next
  case (Cons r rules)
  have upd_new: "AList.update k v m = m @ [(k, v)]" if "k \<notin> fst ` set m" for k v
    using that by (induction m) auto
  have "merge_step key ini upd m r = m @ [(key r, r)]"
    using Cons.prems
    by (auto simp: merge_step_def names_wf_def hm_insert_def upd_new map_of_eq_None_iff [symmetric])
  moreover have "\<forall>r' \<in> set rules. key r' \<notin> fst ` set (m @ [(key r, r)])"
    using Cons.prems by (auto simp: names_wf_def)
  ultimately show ?case
    using Cons.IH [of "m @ [(key r, r)]"] Cons.prems by (simp add: names_wf_def)
qed

lemma merge_id:
  assumes "names_wf (map key rules)" and "\<forall>r \<in> set rules. ini (key r) r = r"
  shows "merge_rules key ini upd rules = rules"
proof -
  have "foldl (merge_step key ini upd) [] rules = map (\<lambda>r. (key r, r)) rules"
    using fold_new [OF assms, of "[]"] by simp
  then have "merge_rules key ini upd rules = sort_key key rules"
    by (simp add: merge_rules_def comp_def)
  also have "\<dots> = rules"
    using assms(1) by (intro sort_key_id_if_sorted) (simp add: names_wf_def strict_sorted_iff)
  finally show ?thesis .
qed

end

interpretation dp_merge: keyed_merge dp_database_name database_policy_new database_policy_modify
  by unfold_locales (simp_all add: database_policy_new_def database_policy_modify_def)

interpretation cp_merge: keyed_merge cp_connection_id connection_policy_new connection_policy_modify
  by unfold_locales
    (simp_all add: connection_policy_new_def connection_policy_modify_def Let_def split: prod.splits)

interpretation grp_merge: keyed_merge grp_group_id group_policy_new group_policy_modify
  by unfold_locales (simp_all add: group_policy_new_def group_policy_modify_def)

section \<open>The normal form\<close>

definition dps_wf :: "McpDatabasePolicy list \<Rightarrow> bool" where
  "dps_wf ps \<longleftrightarrow> names_wf (map dp_database_name ps) \<and>
     list_all (\<lambda>d. \<not> (dp_read_only d \<and> dp_allow_dangerous_sql d)) ps"

definition grps_wf :: "McpGroupPolicy list \<Rightarrow> bool" where
  "grps_wf gs \<longleftrightarrow> names_wf (map grp_group_id gs) \<and>
     list_all (\<lambda>g. \<not> (grp_read_only g \<and> grp_allow_dangerous_sql g)) gs"

definition cp_wf :: "McpConnectionPolicy \<Rightarrow> bool" where
  "cp_wf r \<longleftrightarrow>
     \<not> (cp_read_only r \<and> (cp_allow_dangerous_sql r \<or> cp_allow_salesforce_dml r)) \<and>
     names_wf (cp_allowed_databases r) \<and> dps_wf (cp_database_policies r) \<and>
     list_all (\<lambda>d. dp_database_name d \<in> set (cp_allowed_databases r)) (cp_database_policies r) \<and>
     (cp_database_scope r = DbSelected \<or> cp_allowed_databases r = [] \<and> cp_database_policies r = [])"

definition gp_wf :: "McpGlobalPolicy \<Rightarrow> bool" where
  "gp_wf p \<longleftrightarrow>
     \<not> (gp_read_only p \<and> gp_allow_dangerous_sql p) \<and>
     (gp_call_confirmation p = None \<or>
        gp_call_confirmation p = Some ConfirmHighRisk \<and> \<not> gp_prompt_high_risk_sql p) \<and>
     is_none_or names_wf (gp_allowed_connection_ids p) \<and>
     names_wf (gp_allowed_group_ids p) \<and>
     (gp_allowed_connection_ids p = None \<longrightarrow> gp_allowed_group_ids p = []) \<and>
     is_none_or names_wf (gp_allowed_tool_names p) \<and>
     names_wf (map cp_connection_id (gp_connection_policies p)) \<and>
     list_all cp_wf (gp_connection_policies p) \<and>
     grps_wf (gp_group_policies p)"

lemma normalize_alt:
  "normalize_mcp_ids = normalize_names" "normalize_mcp_database_names = normalize_names"
  by (simp_all add: fun_eq_iff normalize_mcp_ids_def normalize_mcp_database_names_def normalize_names_def)

lemma name_clamp [simp]:
  "dp_database_name (database_policy_clamp d) = dp_database_name d"
  "cp_connection_id (connection_policy_clamp r) = cp_connection_id r"
  "grp_group_id (group_policy_clamp g) = grp_group_id g"
  by (simp_all add: database_policy_clamp_def connection_policy_clamp_def group_policy_clamp_def Let_def)

lemma map_name_clamp [simp]:
  "map dp_database_name (map database_policy_clamp ds) = map dp_database_name ds"
  "map cp_connection_id (map connection_policy_clamp rs) = map cp_connection_id rs"
  "map grp_group_id (map group_policy_clamp gs) = map grp_group_id gs"
  by simp_all

lemma dps_wf_normalize [simp]: "dps_wf (normalize_mcp_database_policies ps)"
  unfolding dps_wf_def normalize_mcp_database_policies_def map_name_clamp
  by (auto simp: dp_merge.names_wf_merge list_all_iff database_policy_clamp_def)

lemma dps_wf_filter: "dps_wf ps \<Longrightarrow> dps_wf (filter P ps)"
  by (auto simp: dps_wf_def names_wf_def list_all_iff sorted_wrt_map sorted_wrt_filter)

lemma dps_wf_merged:
  "r \<in> set (merge_rules cp_connection_id connection_policy_new connection_policy_modify rules) \<Longrightarrow>
   dps_wf (cp_database_policies r)"
  by (erule cp_merge.merge_all [rotated 2])
    (simp_all add: connection_policy_new_def connection_policy_modify_def merge_mcp_database_policies_def
      Let_def split: prod.splits)

lemma cp_wf_clamp: "dps_wf (cp_database_policies r) \<Longrightarrow> cp_wf (connection_policy_clamp r)"
  by (auto simp: cp_wf_def connection_policy_clamp_def Let_def normalize_alt dps_wf_filter list_all_iff)
     (auto simp: dps_wf_def)

lemma grps_wf_normalize:
  "grps_wf (map group_policy_clamp (merge_rules grp_group_id group_policy_new group_policy_modify gs))"
  unfolding grps_wf_def map_name_clamp
  by (auto simp: grp_merge.names_wf_merge list_all_iff group_policy_clamp_def)

lemma gp_wf_normalized: "gp_wf (normalized p)"
proof -
  have "list_all cp_wf (gp_connection_policies (normalized p))"
    by (auto simp: normalized_def Let_def list_all_iff intro: cp_wf_clamp dps_wf_merged)
  moreover have "names_wf (map cp_connection_id (gp_connection_policies (normalized p)))"
    by (simp add: normalized_def Let_def cp_merge.names_wf_merge del: map_map)
  moreover have "grps_wf (gp_group_policies (normalized p))"
    by (simp add: normalized_def Let_def grps_wf_normalize)
  ultimately show ?thesis
    by (auto simp: gp_wf_def normalized_def Let_def normalize_alt is_none_or_def
        simp flip: normalize_names_def split: option.splits)
qed

lemma normalize_dps_id: "dps_wf ps \<Longrightarrow> normalize_mcp_database_policies ps = ps"
  unfolding normalize_mcp_database_policies_def dps_wf_def
  by (subst dp_merge.merge_id)
    (auto simp: database_policy_new_def database_policy_clamp_def list_all_iff intro!: map_idI)

lemma clamp_new_id:
  "cp_wf r \<Longrightarrow> connection_policy_new (cp_connection_id r) r = r"
  "cp_wf r \<Longrightarrow> connection_policy_clamp r = r"
  by (auto simp: cp_wf_def connection_policy_new_def connection_policy_clamp_def Let_def normalize_alt
      normalize_names_id normalize_dps_id list_all_iff intro!: McpConnectionPolicy.equality filter_True)

lemma normalized_id: "gp_wf p \<Longrightarrow> normalized p = p"
proof -
  assume p: "gp_wf p"
  have "merge_rules cp_connection_id connection_policy_new connection_policy_modify (gp_connection_policies p)
      = gp_connection_policies p"
    using p by (intro cp_merge.merge_id) (auto simp: gp_wf_def list_all_iff clamp_new_id)
  then have cps: "map connection_policy_clamp
      (merge_rules cp_connection_id connection_policy_new connection_policy_modify (gp_connection_policies p))
      = gp_connection_policies p"
    using p by (auto simp: gp_wf_def list_all_iff clamp_new_id intro!: map_idI)
  have "merge_rules grp_group_id group_policy_new group_policy_modify (gp_group_policies p)
      = gp_group_policies p"
    using p by (intro grp_merge.merge_id) (auto simp: gp_wf_def grps_wf_def list_all_iff group_policy_new_def)
  then have grps: "map group_policy_clamp
      (merge_rules grp_group_id group_policy_new group_policy_modify (gp_group_policies p))
      = gp_group_policies p"
    using p by (auto simp: gp_wf_def grps_wf_def list_all_iff group_policy_clamp_def intro!: map_idI)
  have ids: "map_option normalize_names (gp_allowed_connection_ids p) = gp_allowed_connection_ids p"
    "map_option normalize_names (gp_allowed_tool_names p) = gp_allowed_tool_names p"
    "normalize_names (gp_allowed_group_ids p) = gp_allowed_group_ids p"
    "gp_allowed_connection_ids p = None \<Longrightarrow> gp_allowed_group_ids p = []"
    using p by (auto simp: gp_wf_def is_none_or_def normalize_names_id split: option.splits)
  have flags: "(\<not> gp_read_only p \<and> gp_allow_dangerous_sql p) = gp_allow_dangerous_sql p"
    "(confirmation_policy p = ConfirmFull) = gp_prompt_high_risk_sql p"
    "(if confirmation_policy p = ConfirmHighRisk then Some ConfirmHighRisk else None) = gp_call_confirmation p"
    using p by (auto simp: gp_wf_def confirmation_policy_def)
  show ?thesis
    unfolding normalized_def Let_def cps grps normalize_names_def [symmetric] normalize_alt ids(1-3) flags
    by (rule McpGlobalPolicy.equality) (auto dest: ids(4))
qed

end
