(* ===== verification/Mcp_Policy_Laws.thy ===== *)
theory Mcp_Policy_Laws
  imports Mcp_Policy
begin

text \<open>
  What the persisted MCP policy promises: its normal form merges duplicate rules to the
  strictest reading, its execution flags are consistent, legacy rules never widen what a
  connection inherits, and the sidebar tree gives each connection its group path.
\<close>

section \<open>Strictness of merged rules\<close>

text \<open>Which databases a connection rule admits, by the rule's own scope.\<close>

fun scope_admits :: "McpDatabaseScope \<Rightarrow> string list \<Rightarrow> string \<Rightarrow> bool" where
  "scope_admits DbAll _ database = True"
| "scope_admits DbSelected allowed database = (database \<in> trim ` set allowed)"
| "scope_admits DbNone _ database = False"

definition rule_admits :: "McpConnectionPolicy \<Rightarrow> string \<Rightarrow> bool" where
  "rule_admits c database \<longleftrightarrow> scope_admits (cp_database_scope c) (cp_allowed_databases c) database"

definition dp_tighter :: "McpDatabasePolicy \<Rightarrow> McpDatabasePolicy \<Rightarrow> bool" where
  "dp_tighter d e \<longleftrightarrow> (dp_read_only e \<longrightarrow> dp_read_only d) \<and>
     (dp_allow_dangerous_sql d \<longrightarrow> dp_allow_dangerous_sql e)"

text \<open>A list of database rules covers a database rule if it has one at least as strict for its name.\<close>

definition dps_cover :: "McpDatabasePolicy list \<Rightarrow> McpDatabasePolicy \<Rightarrow> bool" where
  "dps_cover ds e \<longleftrightarrow> list_ex (\<lambda>d. dp_database_name d = trim (dp_database_name e) \<and> dp_tighter d e) ds"

definition flags_tighter :: "McpConnectionPolicy \<Rightarrow> McpConnectionPolicy \<Rightarrow> bool" where
  "flags_tighter r c \<longleftrightarrow>
     (cp_execution_mode_configured c \<longrightarrow>
        cp_execution_mode_configured r \<and>
        (cp_read_only c \<longrightarrow> cp_read_only r) \<and>
        (cp_allow_dangerous_sql r \<longrightarrow> cp_allow_dangerous_sql c)) \<and>
     (cp_execution_mode_policy_version r = Some MCP_EXECUTION_POLICY_VERSION \<longrightarrow>
        cp_execution_mode_policy_version c = Some MCP_EXECUTION_POLICY_VERSION) \<and>
     (cp_allow_salesforce_dml r \<longrightarrow> cp_allow_salesforce_dml c)"

definition rules_covered :: "McpConnectionPolicy \<Rightarrow> McpConnectionPolicy \<Rightarrow> bool" where
  "rules_covered r c \<longleftrightarrow>
     list_all (\<lambda>e. trim (dp_database_name e) = [] \<or> dps_cover (cp_database_policies r) e) (cp_database_policies c)"

definition scope_tighter :: "McpConnectionPolicy \<Rightarrow> McpConnectionPolicy \<Rightarrow> bool" where
  "scope_tighter r c \<longleftrightarrow> (\<forall>database. rule_admits r database \<longrightarrow> rule_admits c database)"

text \<open>What survives of the database rules once they are cut down to the admitted databases.\<close>

definition rules_kept :: "McpConnectionPolicy \<Rightarrow> McpConnectionPolicy \<Rightarrow> bool" where
  "rules_kept r c \<longleftrightarrow>
     list_all (\<lambda>e. trim (dp_database_name e) = [] \<or> \<not> rule_admits r (trim (dp_database_name e)) \<or>
                   cp_database_scope r = DbAll \<or> dps_cover (cp_database_policies r) e) (cp_database_policies c)"

definition tighter :: "McpConnectionPolicy \<Rightarrow> McpConnectionPolicy \<Rightarrow> bool" where
  "tighter r c \<longleftrightarrow> flags_tighter r c \<and> scope_tighter r c \<and> rules_covered r c"

lemma dp_tighter_modify:
  "dp_tighter (database_policy_modify d e) e"
  "dp_tighter d b \<Longrightarrow> dp_tighter (database_policy_modify d e) b"
  by (simp_all add: dp_tighter_def database_policy_modify_def)

lemma dp_fold_tighter: "dp_tighter d b \<Longrightarrow> dp_tighter (foldl database_policy_modify d ds) b"
  by (induction ds arbitrary: d) (simp_all add: dp_tighter_modify)

lemma dp_fold_tighter_mem: "e \<in> set ds \<Longrightarrow> dp_tighter (foldl database_policy_modify d ds) e"
  by (induction ds arbitrary: d) (auto simp: dp_tighter_modify intro: dp_fold_tighter)

lemma normalize_dps_cover:
  assumes "e \<in> set ds" and "trim (dp_database_name e) \<noteq> []"
  shows "dps_cover (normalize_mcp_database_policies ds) e"
proof -
  let ?k = "trim (dp_database_name e)"
  let ?m = "merge_rules dp_database_name database_policy_new database_policy_modify ds"
  obtain r0 rs where f: "filter (\<lambda>r. trim (dp_database_name r) = ?k) ds = r0 # rs"
    using assms(1) by (cases "filter (\<lambda>r. trim (dp_database_name r) = ?k) ds") (auto simp: filter_empty_conv)
  let ?d = "foldl database_policy_modify (database_policy_new ?k r0) rs"
  have "List.find (\<lambda>r. dp_database_name r = ?k) ?m = Some ?d"
    using dp_merge.merge_lookup [of ?k ds] assms(2) f by simp
  then have "?d \<in> set ?m" and "dp_database_name ?d = ?k" by (auto dest: find_key_Some)
  moreover have "dp_tighter ?d e"
  proof (cases "e \<in> set rs")
    case False
    have "e \<in> set (filter (\<lambda>r. trim (dp_database_name r) = ?k) ds)" using assms(1) by simp
    then have "e = r0" using f False by simp
    then have "dp_tighter (database_policy_new ?k r0) e" by (auto simp: dp_tighter_def database_policy_new_def)
    then show ?thesis by (rule dp_fold_tighter)
  qed (rule dp_fold_tighter_mem)
  ultimately show ?thesis
    unfolding dps_cover_def normalize_mcp_database_policies_def list_ex_iff
    by (intro bexI [of _ "database_policy_clamp ?d"]) (auto simp: dp_tighter_def database_policy_clamp_def)
qed

lemma dps_cover_trans:
  "dps_cover ds e \<Longrightarrow> trim (dp_database_name e) \<noteq> [] \<Longrightarrow> set ds \<subseteq> set es \<Longrightarrow>
   dps_cover (normalize_mcp_database_policies es) e"
proof -
  assume "dps_cover ds e" and e: "trim (dp_database_name e) \<noteq> []" and "set ds \<subseteq> set es"
  then obtain d where d: "d \<in> set es" "dp_database_name d = trim (dp_database_name e)" "dp_tighter d e"
    by (auto simp: dps_cover_def list_ex_iff)
  then show ?thesis using normalize_dps_cover [of d es] e
    by (fastforce simp: dps_cover_def list_ex_iff dp_tighter_def)
qed

lemma intersect_admits:
  "intersect_mcp_database_scopes s ls t ts = (u, us) \<Longrightarrow> scope_admits u us database \<Longrightarrow>
   scope_admits s ls database \<and> scope_admits t ts database"
  by (cases s; cases t) (auto simp: Let_def normalize_alt set_normalize_names, metis imageI)

lemma modify_scope:
  "intersect_mcp_database_scopes (cp_database_scope r) (cp_allowed_databases r)
     (cp_database_scope c) (cp_allowed_databases c) =
   (cp_database_scope (connection_policy_modify r c), cp_allowed_databases (connection_policy_modify r c))"
  by (simp add: connection_policy_modify_def Let_def split: prod.splits)

lemma modify_admits:
  "rule_admits (connection_policy_modify r c) database \<Longrightarrow> rule_admits r database \<and> rule_admits c database"
  unfolding rule_admits_def by (rule intersect_admits [OF modify_scope])

lemma new_tighter: "tighter (connection_policy_new k c) c"
  by (cases "cp_database_scope c")
    (auto simp: tighter_def flags_tighter_def scope_tighter_def rules_covered_def rule_admits_def
      connection_policy_new_def normalize_alt set_normalize_names list_all_iff
      intro: normalize_dps_cover)

lemma merge_policy_version_Some:
  "merge_policy_version v w = Some MCP_EXECUTION_POLICY_VERSION \<longleftrightarrow>
   v = Some MCP_EXECUTION_POLICY_VERSION \<and> w = Some MCP_EXECUTION_POLICY_VERSION"
  by (auto simp: merge_policy_version_def split: option.splits)

lemma flags_modify:
  "flags_tighter (connection_policy_modify r c) c"
  "flags_tighter r b \<Longrightarrow> flags_tighter (connection_policy_modify r c) b"
  by (auto simp: flags_tighter_def connection_policy_modify_def merge_policy_version_Some Let_def
      split: prod.splits)

lemma scope_modify:
  "scope_tighter (connection_policy_modify r c) c"
  "scope_tighter r b \<Longrightarrow> scope_tighter (connection_policy_modify r c) b"
  unfolding scope_tighter_def by (blast dest: modify_admits)+

lemma modify_rules [simp]:
  "cp_database_policies (connection_policy_modify r c) =
   normalize_mcp_database_policies (cp_database_policies r @ cp_database_policies c)"
  by (simp add: connection_policy_modify_def merge_mcp_database_policies_def Let_def split: prod.splits)

lemma rules_modify:
  "rules_covered (connection_policy_modify r c) c"
  "rules_covered r b \<Longrightarrow> rules_covered (connection_policy_modify r c) b"
  by (auto simp: rules_covered_def list_all_iff intro: normalize_dps_cover)
     (metis dps_cover_trans set_append Un_upper1)

lemma tighter_modify:
  "tighter (connection_policy_modify r c) c"
  "tighter r b \<Longrightarrow> tighter (connection_policy_modify r c) b"
  by (simp_all add: tighter_def flags_modify scope_modify rules_modify)

lemma tighter_fold: "tighter r b \<Longrightarrow> tighter (foldl connection_policy_modify r cs) b"
  by (induction cs arbitrary: r) (simp_all add: tighter_modify)

lemma tighter_fold_mem: "c \<in> set cs \<Longrightarrow> tighter (foldl connection_policy_modify r cs) c"
  by (induction cs arbitrary: r) (auto simp: tighter_modify intro: tighter_fold)

lemma clamp_fields:
  "cp_database_scope (connection_policy_clamp r) = cp_database_scope r"
  "cp_allowed_databases (connection_policy_clamp r) =
     (if cp_database_scope r = DbSelected then normalize_names (cp_allowed_databases r) else [])"
  "cp_database_policies (connection_policy_clamp r) =
     (if cp_database_scope r = DbSelected
      then filter (\<lambda>d. dp_database_name d \<in> set (normalize_names (cp_allowed_databases r)))
             (cp_database_policies r)
      else [])"
  by (auto simp: connection_policy_clamp_def Let_def normalize_alt)

lemma clamp_tighter:
  assumes "tighter r c"
  shows "flags_tighter (connection_policy_clamp r) c" and "scope_tighter (connection_policy_clamp r) c"
    and "rules_kept (connection_policy_clamp r) c"
proof -
  let ?r = "connection_policy_clamp r"
  show "flags_tighter ?r c"
    using assms by (auto simp: tighter_def flags_tighter_def connection_policy_clamp_def Let_def)
  have "rule_admits ?r database \<Longrightarrow> rule_admits r database" for database
    by (cases "cp_database_scope r") (auto simp: rule_admits_def clamp_fields set_normalize_names)
  then show "scope_tighter ?r c"
    using assms by (auto simp: tighter_def scope_tighter_def)
  show "rules_kept ?r c"
    using assms unfolding tighter_def rules_covered_def rules_kept_def list_all_iff
    by (cases "cp_database_scope r")
      (fastforce simp: rule_admits_def dps_cover_def list_ex_iff clamp_fields set_normalize_names)+
qed

lemma normalized_find:
  assumes "c \<in> set (gp_connection_policies p)" and "trim (cp_connection_id c) \<noteq> []"
  obtains r where "List.find (\<lambda>r. cp_connection_id r = trim (cp_connection_id c))
      (gp_connection_policies (normalized p)) = Some (connection_policy_clamp r)" and "tighter r c"
proof -
  let ?k = "trim (cp_connection_id c)"
  let ?cs = "filter (\<lambda>r. trim (cp_connection_id r) = ?k) (gp_connection_policies p)"
  obtain r0 rs where f: "?cs = r0 # rs"
    using assms(1) by (cases ?cs) (auto simp: filter_empty_conv)
  have c: "c = r0 \<or> c \<in> set rs"
    using assms(1) arg_cong [OF f, of "\<lambda>xs. c \<in> set xs"] by simp
  let ?r = "foldl connection_policy_modify (connection_policy_new ?k r0) rs"
  have "tighter ?r c"
    using c by (auto intro: tighter_fold_mem tighter_fold new_tighter)
  moreover have "List.find (\<lambda>r. cp_connection_id r = ?k) (gp_connection_policies (normalized p))
      = Some (connection_policy_clamp ?r)"
    using cp_merge.merge_lookup [of ?k "gp_connection_policies p"] assms(2) f
    by (simp add: normalized_def Let_def find_map comp_def)
  ultimately show thesis by (rule that [rotated])
qed

section \<open>Execution flags\<close>

text \<open>Flags are consistent when read-only excludes dangerous statements, and one pair is within another if it permits no more.\<close>

definition flags_ok :: "bool \<times> bool \<Rightarrow> bool" where
  "flags_ok f \<longleftrightarrow> \<not> (fst f \<and> snd f)"

definition flags_within :: "bool \<times> bool \<Rightarrow> bool \<times> bool \<Rightarrow> bool" where
  "flags_within f g \<longleftrightarrow> (fst g \<longrightarrow> fst f) \<and> (snd f \<longrightarrow> snd g)"

lemma apply_ceiling_within:
  "flags_within (apply_ceiling f c) f" "flags_within (apply_ceiling f c) c" "flags_ok (apply_ceiling f c)"
  by (auto simp: flags_within_def flags_ok_def apply_ceiling_def Let_def)

lemma flags_within_trans: "flags_within f g \<Longrightarrow> flags_within g h \<Longrightarrow> flags_within f h"
  by (auto simp: flags_within_def)

lemma group_execution_ok: "gp_wf p \<Longrightarrow> flags_ok (group_execution_policy p group_ids)"
proof -
  assume "gp_wf p"
  then have "flags_ok (gp_read_only p, gp_allow_dangerous_sql p)" by (simp add: gp_wf_def flags_ok_def)
  moreover have "flags_ok f \<Longrightarrow> flags_ok (foldl (\<lambda>effective group_id.
              case List.find (\<lambda>rule. grp_group_id rule = group_id) (gp_group_policies p) of
                Some rule \<Rightarrow> (grp_read_only rule, \<not> grp_read_only rule \<and> grp_allow_dangerous_sql rule)
              | None \<Rightarrow> effective) f group_ids)" for f
    by (induction group_ids arbitrary: f) (auto simp: flags_ok_def split: option.splits)
  ultimately show ?thesis by (simp add: group_execution_policy_def)
qed

lemma effective_flags_ok: "flags_ok (effective_database_execution_policy_with_groups (normalized p) gs c db)"
  using group_execution_ok [OF gp_wf_normalized, of p gs]
  by (auto simp: effective_database_execution_policy_with_groups_def Let_def apply_ceiling_within
      flags_ok_def [of "(_, _)"] split: option.splits)

section \<open>Placement of connections in the sidebar\<close>

text \<open>\<open>placed es c gs\<close>: the tree \<open>es\<close> holds connection \<open>c\<close> below the groups \<open>gs\<close>, outermost first.\<close>

inductive placed :: "SidebarOrderEntry list \<Rightarrow> string \<Rightarrow> string list \<Rightarrow> bool" where
  placed_here: "SideConnection c \<in> set es \<Longrightarrow> placed es c []"
| placed_listed: "SideGroup g None (Some cids) \<in> set es \<Longrightarrow> c \<in> set cids \<Longrightarrow> placed es c [g]"
| placed_below: "SideGroup g (Some cs) cids \<in> set es \<Longrightarrow> placed cs c gs \<Longrightarrow> placed es c (g # gs)"

inductive_cases placed_NilE: "placed [] c gs"
inductive_cases placed_ConsE: "placed (e # es) c gs"

lemma placed_tl: "placed es c gs \<Longrightarrow> placed (e # es) c gs"
  by (induction rule: placed.induct) (auto intro: placed.intros)

lemma placed_Cons:
  "placed (e # es) c gs \<longleftrightarrow> placed es c gs \<or>
     (case e of
        SideConnection c' \<Rightarrow> c' = c \<and> gs = []
      | SideGroup g (Some cs) cids \<Rightarrow> (\<exists>gs'. gs = g # gs' \<and> placed cs c gs')
      | SideGroup g None (Some cids) \<Rightarrow> gs = [g] \<and> c \<in> set cids
      | SideGroup g None None \<Rightarrow> False)"
  by (auto simp: placed_tl split: SidebarOrderEntry.splits option.splits
      elim!: placed_ConsE intro: placed.intros)

text \<open>Every group of the tree that the traversal visits has metadata.\<close>

fun groups_known :: "(string, string) hmap \<Rightarrow> SidebarOrderEntry list \<Rightarrow> bool" where
  "groups_known groups [] = True"
| "groups_known groups (SideConnection c # es) = groups_known groups es"
| "groups_known groups (SideGroup g cs cids # es) =
     (map_of groups g \<noteq> None \<and> (case cs of Some cs' \<Rightarrow> groups_known groups cs' | None \<Rightarrow> True) \<and> groups_known groups es)"

lemma map_of_foldl_insert:
  "map_of (foldl (\<lambda>ps c. hm_insert c q ps) ps cs) c = (if c \<in> set cs then Some q else map_of ps c)"
  by (induction cs arbitrary: ps) (auto simp: hmap_simps)

definition inner_path :: "McpConnectionGroupPath \<Rightarrow> string \<Rightarrow> string \<Rightarrow> McpConnectionGroupPath" where
  "inner_path path gid name = \<lparr>path_ids = path_ids path @ [gid], path_names = path_names path @ [name]\<rparr>"

definition below :: "SidebarOrderEntry list option \<Rightarrow> string list option \<Rightarrow> (string, string) hmap \<Rightarrow>
    McpConnectionGroupPath \<Rightarrow> paths \<Rightarrow> string + paths" where
  "below children cids groups inner ps =
     (case children of
        Some cs \<Rightarrow> collect_connection_group_paths cs groups inner ps
      | None \<Rightarrow> Inr (foldl (\<lambda>ps cid. hm_insert cid inner ps) ps (unwrap_or [] cids)))"

lemma collect_group:
  "collect_connection_group_paths (SideGroup gid children cids # es) groups path ps =
     (case map_of groups gid of
        None \<Rightarrow> Inl (missing_group_error gid)
      | Some name \<Rightarrow>
          (case below children cids groups (inner_path path gid name) ps of
             Inl e \<Rightarrow> Inl e
           | Inr ps' \<Rightarrow> collect_connection_group_paths es groups path ps'))"
  by (auto simp: below_def inner_path_def Let_def split: option.splits)

declare collect_connection_group_paths.simps(3) [simp del]

lemma collect_induct [case_names Nil Connection Group]:
  assumes "\<And>groups path ps. P [] groups path ps"
    and "\<And>cid es groups path ps. P es groups path (hm_insert cid path ps) \<Longrightarrow>
           P (SideConnection cid # es) groups path ps"
    and "\<And>gid children cids es groups path ps.
           (\<And>cs name. children = Some cs \<Longrightarrow> map_of groups gid = Some name \<Longrightarrow>
              P cs groups (inner_path path gid name) ps) \<Longrightarrow>
           (\<And>name ps'. map_of groups gid = Some name \<Longrightarrow>
              below children cids groups (inner_path path gid name) ps = Inr ps' \<Longrightarrow> P es groups path ps') \<Longrightarrow>
           P (SideGroup gid children cids # es) groups path ps"
  shows "P es groups path ps"
proof (induction es groups path ps rule: collect_connection_group_paths.induct)
  case (3 gid children cids es groups path ps)
  show ?case
  proof (rule assms(3))
    show "P es groups path ps'" if "map_of groups gid = Some name"
      "below children cids groups (inner_path path gid name) ps = Inr ps'" for name ps'
      using 3(2) [OF that(1) refl, of ps'] that(2)
      by (cases children; cases cids) (simp_all add: below_def inner_path_def)
  qed (use 3(1) in \<open>simp add: inner_path_def\<close>)
qed (simp_all add: assms(1,2))

lemma collect_known:
  "\<not> isl (collect_connection_group_paths es groups path ps) \<longleftrightarrow> groups_known groups es"
proof (induction es groups path ps rule: collect_induct)
  case (Group gid children cids es groups path ps)
  then show ?case
    by (cases children)
      (auto simp: collect_group below_def split: option.splits sum.splits, metis sum.disc(1), metis sum.disc(2))
qed simp_all

definition extends :: "(string, string) hmap \<Rightarrow> McpConnectionGroupPath \<Rightarrow> string list \<Rightarrow> McpConnectionGroupPath \<Rightarrow> bool" where
  "extends groups path gs q \<longleftrightarrow>
     path_ids q = path_ids path @ gs \<and> path_names q = path_names path @ map (\<lambda>g. the (map_of groups g)) gs"

lemma extends_inner: "map_of groups gid = Some name \<Longrightarrow>
    extends groups (inner_path path gid name) gs q \<longleftrightarrow> extends groups path (gid # gs) q"
  by (simp add: extends_def inner_path_def)

lemma collect_sound:
  "collect_connection_group_paths es groups path ps = Inr ps' \<Longrightarrow> map_of ps' c = Some q \<Longrightarrow>
   map_of ps c = Some q \<or> (\<exists>gs. placed es c gs \<and> extends groups path gs q)"
proof (induction es groups path ps arbitrary: ps' rule: collect_induct)
  case (Connection cid es groups path ps)
  then have "map_of (hm_insert cid path ps) c = Some q \<or> (\<exists>gs. placed es c gs \<and> extends groups path gs q)"
    by simp
  then show ?case
    by (auto simp: hmap_simps placed_Cons extends_def split: if_splits)
next
  case (Group gid children cids es groups path ps)
  obtain name ps1 where n: "map_of groups gid = Some name"
    and b: "below children cids groups (inner_path path gid name) ps = Inr ps1"
    and r: "collect_connection_group_paths es groups path ps1 = Inr ps'"
    using Group.prems(1) by (auto simp: collect_group split: option.splits sum.splits)
  have "map_of ps1 c = Some q \<Longrightarrow> map_of ps c = Some q \<or>
      (\<exists>gs. placed (SideGroup gid children cids # es) c gs \<and> extends groups path gs q)"
  proof (cases children)
    case None
    then show "map_of ps1 c = Some q \<Longrightarrow> ?thesis" using b n
      by (cases cids) (auto simp: below_def map_of_foldl_insert placed_Cons extends_def inner_path_def split: if_splits)
  next
    case (Some cs)
    then show "map_of ps1 c = Some q \<Longrightarrow> ?thesis"
      using b n Group.IH(1) [OF Some n, of ps1] by (auto simp: below_def placed_Cons extends_inner)
  qed
  then show ?case using Group.IH(2) [OF n b r Group.prems(2)] by (auto simp: placed_Cons)
qed simp

lemma below_mono:
  "(\<And>cs ps'. children = Some cs \<Longrightarrow> collect_connection_group_paths cs groups inner ps = Inr ps' \<Longrightarrow> map_of ps' c \<noteq> None) \<Longrightarrow>
   below children cids groups inner ps = Inr ps' \<Longrightarrow> map_of ps c \<noteq> None \<Longrightarrow> map_of ps' c \<noteq> None"
  by (auto simp: below_def map_of_foldl_insert split: option.splits)

lemma collect_mono:
  "collect_connection_group_paths es groups path ps = Inr ps' \<Longrightarrow> map_of ps c \<noteq> None \<Longrightarrow> map_of ps' c \<noteq> None"
proof (induction es groups path ps arbitrary: ps' rule: collect_induct)
  case (Group gid children cids es groups path ps)
  then obtain name ps1 where n: "map_of groups gid = Some name"
    and b: "below children cids groups (inner_path path gid name) ps = Inr ps1"
    and r: "collect_connection_group_paths es groups path ps1 = Inr ps'"
    by (auto simp: collect_group split: option.splits sum.splits)
  have "map_of ps1 c \<noteq> None"
    using Group.IH(1) [OF _ n] Group.prems(2) by (intro below_mono [OF _ b]) auto
  then show ?case using Group.IH(2) [OF n b r] by simp
qed (simp_all add: hmap_simps)

lemma collect_complete:
  "collect_connection_group_paths es groups path ps = Inr ps' \<Longrightarrow> placed es c gs \<Longrightarrow> map_of ps' c \<noteq> None"
proof (induction es groups path ps arbitrary: ps' gs rule: collect_induct)
  case (Nil groups path ps)
  then show ?case by (auto elim: placed_NilE)
next
  case (Connection cid es groups path ps)
  then show ?case
    using collect_mono [of es groups path "hm_insert cid path ps" ps' c]
    by (auto simp: placed_Cons hmap_simps)
next
  case (Group gid children cids es groups path ps)
  obtain name ps1 where n: "map_of groups gid = Some name"
    and b: "below children cids groups (inner_path path gid name) ps = Inr ps1"
    and r: "collect_connection_group_paths es groups path ps1 = Inr ps'"
    using Group.prems(1) by (auto simp: collect_group split: option.splits sum.splits)
  show ?case
  proof (cases "placed es c gs")
    case True
    then show ?thesis by (rule Group.IH(2) [OF n b r])
  next
    case False
    then have "map_of ps1 c \<noteq> None"
      using Group.prems(2) b Group.IH(1) [OF _ n, of _ ps1]
      by (cases children; cases cids) (auto simp: below_def placed_Cons map_of_foldl_insert)
    then show ?thesis by (rule collect_mono [OF r])
  qed
qed

lemma map_of_group_names: "map_of (foldl (\<lambda>m (i, n). hm_insert i n m) m gs) g =
    (case map_of (rev gs) g of Some n \<Rightarrow> Some n | None \<Rightarrow> map_of m g)"
  by (induction gs arbitrary: m) (auto simp: hmap_simps map_add_def split: option.splits)

section \<open>Properties\<close>

text \<open>
  \<^verbatim>\<open>normalized\<close> returns a policy in normal form (consistent flags, trimmed and strictly
  sorted identifiers, database rules only for admitted databases), and normalising it again
  changes nothing.
\<close>
theorem normalized_idempotent: "gp_wf (normalized p) \<and> normalized (normalized p) = normalized p"
  by (simp add: gp_wf_normalized normalized_id)


definition sample_connection :: "string \<Rightarrow> McpConnectionPolicy" where
  "sample_connection cid =
     \<lparr>cp_connection_id = cid, cp_read_only = False, cp_allow_dangerous_sql = True,
      cp_execution_mode_configured = True, cp_execution_mode_policy_version = Some 1,
      cp_database_scope = DbAll, cp_allowed_databases = [],
      cp_database_policies = [\<lparr>dp_database_name = ''prod'', dp_read_only = True, dp_allow_dangerous_sql = False\<rparr>],
      cp_allow_salesforce_dml = True\<rparr>"

definition sample_policy :: McpGlobalPolicy where
  "sample_policy =
     \<lparr>gp_read_only = False, gp_allow_dangerous_sql = False, gp_prompt_high_risk_sql = False,
      gp_call_confirmation = None, gp_allowed_connection_ids = None, gp_allowed_group_ids = [],
      gp_allowed_tool_names = None,
      gp_connection_policies =
        [sample_connection ''a'', (sample_connection '' a '')\<lparr>cp_database_scope := DbSelected,
           cp_allowed_databases := [''dev'']\<rparr>, sample_connection ''b''],
      gp_group_policies = [], gp_query_timeout_secs = None, gp_plugin_tools_mode = ToolsAuto\<rparr>"



text \<open>
  The execution flags of a normalised policy never claim read-only and dangerous statements
  together, for any group path, connection and database; and a connection that has a legacy
  (unversioned) rule never gets more than its groups grant.
\<close>
theorem effective_flags_bounded:
  "flags_ok (effective_database_execution_policy_with_groups (normalized p) gs c db) \<and>
   (case List.find (\<lambda>r. cp_connection_id r = c) (gp_connection_policies (normalized p)) of
      None \<Rightarrow> effective_database_execution_policy_with_groups (normalized p) gs c db =
                group_execution_policy (normalized p) gs
    | Some r \<Rightarrow> cp_execution_mode_policy_version r = Some MCP_EXECUTION_POLICY_VERSION \<or>
                flags_within (effective_database_execution_policy_with_groups (normalized p) gs c db)
                  (group_execution_policy (normalized p) gs))"
  by (auto simp: effective_flags_ok)
    (auto simp: effective_database_execution_policy_with_groups_def Let_def flags_within_def apply_ceiling_def
      split: option.splits)

text \<open>
  C25: the group paths read from the sidebar tree are sound and complete. The traversal fails
  exactly when a group it visits has no metadata. Otherwise every recorded path is a real
  placement of the connection, with the names the metadata gives its groups, and every connection
  placed in the tree has a path.
\<close>
theorem connection_group_paths_correct:
  "case connection_group_paths groups order of
     Inl e \<Rightarrow> \<not> groups_known (foldl (\<lambda>m (i, n). hm_insert i n m) [] groups) order
   | Inr paths \<Rightarrow>
       groups_known (foldl (\<lambda>m (i, n). hm_insert i n m) [] groups) order \<and>
       (\<forall>c q. map_of paths c = Some q \<longrightarrow>
          placed order c (path_ids q) \<and> path_names q = map (\<lambda>g. the (map_of (rev groups) g)) (path_ids q)) \<and>
       (\<forall>c gs. placed order c gs \<longrightarrow> map_of paths c \<noteq> None)"
proof -
  let ?g = "foldl (\<lambda>m (i, n). hm_insert i n m) [] groups"
  let ?e = "\<lparr>path_ids = [], path_names = []\<rparr>"
  have names: "map_of ?g g = map_of (rev groups) g" for g
    using map_of_group_names [of "[]" groups g] by (simp split: option.splits)
  show ?thesis
  proof (cases "collect_connection_group_paths order ?g ?e []")
    case (Inl e)
    then show ?thesis using collect_known [of order ?g ?e "[]"] by (simp add: connection_group_paths_def)
  next
    case (Inr paths)
    have "placed order c (path_ids q) \<and> path_names q = map (\<lambda>g. the (map_of (rev groups) g)) (path_ids q)"
      if "map_of paths c = Some q" for c q
      using collect_sound [OF Inr that] by (auto simp: extends_def names)
    moreover have "map_of paths c \<noteq> None" if "placed order c gs" for c gs
      by (rule collect_complete [OF Inr that])
    ultimately show ?thesis
      using Inr collect_known [of order ?g ?e "[]"] by (simp add: connection_group_paths_def)
  qed
qed

definition sample_order :: "SidebarOrderEntry list" where
  "sample_order = [SideGroup ''g'' (Some [SideGroup ''h'' None (Some [''c'']), SideConnection ''d'']) None]"

theorem connection_group_paths_correct_witness:
  "\<exists>paths. connection_group_paths [(''g'', ''Prod''), (''h'', ''EU'')] sample_order = Inr paths \<and>
     map_of paths ''c'' = Some \<lparr>path_ids = [''g'', ''h''], path_names = [''Prod'', ''EU'']\<rparr> \<and>
     placed sample_order ''c'' [''g'', ''h'']"
proof -
  let ?q = "\<lparr>path_ids = [''g'', ''h''], path_names = [''Prod'', ''EU'']\<rparr>"
  obtain paths where p: "connection_group_paths [(''g'', ''Prod''), (''h'', ''EU'')] sample_order = Inr paths"
    "map_of paths ''c'' = Some ?q"
    by (simp add: connection_group_paths_def sample_order_def collect_connection_group_paths.simps(3) hmap_simps)
  then have "placed sample_order ''c'' (path_ids ?q)"
    using connection_group_paths_correct [of "[(''g'', ''Prod''), (''h'', ''EU'')]" sample_order] by fastforce
  then show ?thesis using p by simp
qed

end
