(* ===== verification/Mcp_Access.thy ===== *)
theory Mcp_Access
  imports Mcp_Policy
begin

text \<open>
  The unified MCP access model (``v2'') of \<^verbatim>\<open>crates/dbx-core/src/ai/mcp_access.rs\<close>: access levels,
  the confirmation decision, rules keyed by target, their resolution for a connection or a
  sub-scope, the mapping from the persisted policy (\<^verbatim>\<open>from_v1\<close>), the projection back onto it
  (\<^verbatim>\<open>to_v1\<close>), the decision every MCP host asks for (\<^verbatim>\<open>decide\<close>) and the carry-over of rules
  the persisted policy cannot express.
\<close>

section \<open>Access levels\<close>

datatype McpAccessLevel = LvNone | LvRead | LvWrite | LvFull

fun level_rank :: "McpAccessLevel \<Rightarrow> nat" where
  "level_rank LvNone = 0"
| "level_rank LvRead = 1"
| "level_rank LvWrite = 2"
| "level_rank LvFull = 3"

lemma level_rank_inj: "level_rank a = level_rank b \<Longrightarrow> a = b"
  by (cases a; cases b) simp_all

instantiation McpAccessLevel :: linorder
begin

definition less_eq_McpAccessLevel :: "McpAccessLevel \<Rightarrow> McpAccessLevel \<Rightarrow> bool" where
  "less_eq_McpAccessLevel a b \<longleftrightarrow> level_rank a \<le> level_rank b"

definition less_McpAccessLevel :: "McpAccessLevel \<Rightarrow> McpAccessLevel \<Rightarrow> bool" where
  "less_McpAccessLevel a b \<longleftrightarrow> level_rank a < level_rank b"

instance
  by standard (auto simp: less_eq_McpAccessLevel_def less_McpAccessLevel_def intro: level_rank_inj)

end

lemmas level_le = less_eq_McpAccessLevel_def less_McpAccessLevel_def

fun from_flags :: "bool \<Rightarrow> bool \<Rightarrow> McpAccessLevel" where
  "from_flags True _ = LvRead"
| "from_flags False False = LvWrite"
| "from_flags False True = LvFull"

definition from_flags_pair :: "bool \<times> bool \<Rightarrow> McpAccessLevel" where
  "from_flags_pair f = from_flags (fst f) (snd f)"

fun to_flags :: "McpAccessLevel \<Rightarrow> bool \<times> bool" where
  "to_flags LvNone = (True, False)"
| "to_flags LvRead = (True, False)"
| "to_flags LvWrite = (False, False)"
| "to_flags LvFull = (False, True)"

section \<open>Confirmation\<close>

datatype McpCallDecision = Deny | Allow | Confirm

definition confirm_decide :: "McpConfirmPolicy \<Rightarrow> McpAccessLevel \<Rightarrow> McpAccessLevel \<Rightarrow> bool \<Rightarrow> McpCallDecision" where
  "confirm_decide self actual required high_risk =
     (if actual < required then
        (if self = ConfirmFull \<and> high_risk \<and> actual = LvWrite \<and> required = LvFull then Confirm else Deny)
      else if self = ConfirmHighRisk \<and> high_risk then Confirm else Allow)"

section \<open>Rules\<close>

datatype McpRuleTarget = TGroup string | TConnection string | TScope string string string

text \<open>The derived order: variants in the order of their declaration, then fields from left to right.\<close>

fun target_rank :: "McpRuleTarget \<Rightarrow> nat" where
  "target_rank (TGroup _) = 0"
| "target_rank (TConnection _) = 1"
| "target_rank (TScope _ _ _) = 2"

fun target_fields :: "McpRuleTarget \<Rightarrow> string list" where
  "target_fields (TGroup i) = [i]"
| "target_fields (TConnection i) = [i]"
| "target_fields (TScope c s v) = [c, s, v]"

lemma target_key_inj: "target_rank a = target_rank b \<Longrightarrow> target_fields a = target_fields b \<Longrightarrow> a = b"
  by (cases a; cases b) simp_all

instantiation McpRuleTarget :: linorder
begin

definition less_eq_McpRuleTarget :: "McpRuleTarget \<Rightarrow> McpRuleTarget \<Rightarrow> bool" where
  "less_eq_McpRuleTarget a b \<longleftrightarrow> target_rank a < target_rank b \<or>
     target_rank a = target_rank b \<and> target_fields a \<le> target_fields b"

definition less_McpRuleTarget :: "McpRuleTarget \<Rightarrow> McpRuleTarget \<Rightarrow> bool" where
  "less_McpRuleTarget a b \<longleftrightarrow> target_rank a < target_rank b \<or>
     target_rank a = target_rank b \<and> target_fields a < target_fields b"

instance
  by standard (auto simp: less_eq_McpRuleTarget_def less_McpRuleTarget_def intro: target_key_inj)

end

datatype McpSubScopeMode = SubAll | SubSelected | SubNone

datatype McpVisibilityMode = VisAll | VisSelected

record McpAccessRule =
  ar_access :: "McpAccessLevel option"
  ar_ceiling :: "McpAccessLevel option"
  ar_visible :: "bool option"
  ar_sub_scope :: "McpSubScopeMode option"
  ar_sub_scope_kind :: "string option"
  ar_toolset_ceilings :: "(string, McpAccessLevel) bmap"

definition default_rule :: McpAccessRule where
  "default_rule = \<lparr>ar_access = None, ar_ceiling = None, ar_visible = None, ar_sub_scope = None,
     ar_sub_scope_kind = None, ar_toolset_ceilings = []\<rparr>"

type_synonym rules = "(McpRuleTarget, McpAccessRule) bmap"

record McpAccessPolicy =
  ap_version :: "8 word"
  ap_default_access :: McpAccessLevel
  ap_confirm :: McpConfirmPolicy
  ap_visibility :: McpVisibilityMode
  ap_rules :: rules
  ap_allowed_tool_names :: "string list option"
  ap_query_timeout_secs :: "64 word option"
  ap_plugin_tools_mode :: McpPluginToolsMode

definition MCP_ACCESS_POLICY_VERSION :: "8 word" where
  "MCP_ACCESS_POLICY_VERSION = 2"

definition SALESFORCE_WRITE_TOOLSET :: string where
  "SALESFORCE_WRITE_TOOLSET = ''salesforce.write''"

definition default_policy :: McpAccessPolicy where
  "default_policy = \<lparr>ap_version = MCP_ACCESS_POLICY_VERSION, ap_default_access = LvRead,
     ap_confirm = ConfirmOff, ap_visibility = VisAll, ap_rules = [], ap_allowed_tool_names = None,
     ap_query_timeout_secs = None, ap_plugin_tools_mode = ToolsFlat\<rparr>"

subsection \<open>Duplicate rules\<close>

definition strictest :: "McpAccessLevel option \<Rightarrow> McpAccessLevel option \<Rightarrow> McpAccessLevel option" where
  "strictest left right =
     (case (left, right) of
        (Some l, Some r) \<Rightarrow> Some (min l r)
      | (l, r) \<Rightarrow> option_or l r)"

definition merge_sub_scope :: "McpSubScopeMode option \<Rightarrow> McpSubScopeMode option \<Rightarrow> McpSubScopeMode option" where
  "merge_sub_scope left right =
     (if left = Some SubNone \<or> right = Some SubNone then Some SubNone
      else if left = Some SubSelected \<or> right = Some SubSelected then Some SubSelected
      else option_or left right)"

definition merge_ceilings ::
    "(string, McpAccessLevel) bmap \<Rightarrow> (string, McpAccessLevel) bmap \<Rightarrow> (string, McpAccessLevel) bmap" where
  "merge_ceilings self other =
     foldl (\<lambda>m (toolset, ceiling).
              bt_insert toolset (case map_of m toolset of Some current \<Rightarrow> min current ceiling | None \<Rightarrow> ceiling) m)
       self other"

definition merge_strictest :: "McpAccessRule \<Rightarrow> McpAccessRule \<Rightarrow> McpAccessRule" where
  "merge_strictest self other =
     \<lparr>ar_access = strictest (ar_access self) (ar_access other),
      ar_ceiling = strictest (ar_ceiling self) (ar_ceiling other),
      ar_visible =
        (case (ar_visible self, ar_visible other) of
           (Some l, Some r) \<Rightarrow> Some (l \<and> r)
         | (l, r) \<Rightarrow> option_or l r),
      ar_sub_scope = merge_sub_scope (ar_sub_scope self) (ar_sub_scope other),
      ar_sub_scope_kind =
        (if ar_sub_scope_kind self = None then ar_sub_scope_kind other else ar_sub_scope_kind self),
      ar_toolset_ceilings = merge_ceilings (ar_toolset_ceilings self) (ar_toolset_ceilings other)\<rparr>"

text \<open>The JSON form of the rules is the list of entries in key order.\<close>

definition rule_list_serialize :: "rules \<Rightarrow> (McpRuleTarget \<times> McpAccessRule) list" where
  "rule_list_serialize rs = map (\<lambda>(target, rule). (target, rule)) rs"

definition rule_list_deserialize :: "(McpRuleTarget \<times> McpAccessRule) list \<Rightarrow> rules" where
  "rule_list_deserialize entries =
     foldl (\<lambda>rs (target, rule).
              bt_insert target
                (case map_of rs target of Some current \<Rightarrow> merge_strictest current rule | None \<Rightarrow> rule) rs)
       [] entries"

section \<open>Resolution\<close>

datatype McpAccessSource = SrcDefault | SrcGroup string | SrcConnection | SrcScope

record McpResolvedAccess =
  ra_visible :: bool
  ra_level :: McpAccessLevel
  ra_source :: McpAccessSource

definition rule :: "McpAccessPolicy \<Rightarrow> McpRuleTarget \<Rightarrow> McpAccessRule option" where
  "rule p target = map_of (ap_rules p) target"

definition connection_rule :: "McpAccessPolicy \<Rightarrow> string \<Rightarrow> McpAccessRule option" where
  "connection_rule p connection_id = rule p (TConnection connection_id)"

definition connection_visible :: "McpAccessPolicy \<Rightarrow> string list \<Rightarrow> string \<Rightarrow> bool" where
  "connection_visible p group_ids connection_id =
     (let connection = connection_rule p connection_id
      in if Option.bind connection ar_visible = Some False then False
         else (case ap_visibility p of
                 VisAll \<Rightarrow> True
               | VisSelected \<Rightarrow>
                   Option.bind connection ar_visible = Some True \<or>
                   list_ex (\<lambda>group_id. Option.bind (rule p (TGroup group_id)) ar_visible = Some True) group_ids))"

definition connection_access :: "McpAccessPolicy \<Rightarrow> string list \<Rightarrow> string \<Rightarrow> McpAccessLevel \<times> McpAccessSource" where
  "connection_access p group_ids connection_id =
     (let resolved =
            foldl (\<lambda>res group_id.
                     case Option.bind (rule p (TGroup group_id)) ar_access of
                       Some level \<Rightarrow> (level, SrcGroup group_id)
                     | None \<Rightarrow> res)
              (ap_default_access p, SrcDefault) group_ids
      in case connection_rule p connection_id of
           None \<Rightarrow> resolved
         | Some r \<Rightarrow>
             (let resolved1 = (case ar_access r of Some level \<Rightarrow> (level, SrcConnection) | None \<Rightarrow> resolved)
              in case option_filter (\<lambda>ceiling. ceiling < fst resolved1) (ar_ceiling r) of
                   Some ceiling \<Rightarrow> (ceiling, SrcConnection)
                 | None \<Rightarrow> resolved1))"

definition sub_scope_mode :: "McpAccessPolicy \<Rightarrow> string \<Rightarrow> McpSubScopeMode" where
  "sub_scope_mode p connection_id =
     unwrap_or SubAll (Option.bind (connection_rule p connection_id) ar_sub_scope)"

definition sub_scope_visible :: "McpAccessPolicy \<Rightarrow> string \<Rightarrow> string \<Rightarrow> string \<Rightarrow> bool" where
  "sub_scope_visible p connection_id scope v =
     (let r = rule p (TScope connection_id scope v)
      in if Option.bind r ar_visible = Some False then False
         else (case unwrap_or SubAll (Option.bind (connection_rule p connection_id) ar_sub_scope) of
                 SubAll \<Rightarrow> True
               | SubSelected \<Rightarrow> Option.bind r ar_visible = Some True
               | SubNone \<Rightarrow> False))"

definition resolve :: "McpAccessPolicy \<Rightarrow> string list \<Rightarrow> string \<Rightarrow> (string \<times> string) option \<Rightarrow> McpResolvedAccess" where
  "resolve p group_ids connection_id sub_scope =
     (let visible =
            connection_visible p group_ids connection_id \<and>
            is_none_or (\<lambda>(scope, v). sub_scope_visible p connection_id scope v) sub_scope;
          (level, source) = connection_access p group_ids connection_id;
          (level', source') =
            (case sub_scope of
               None \<Rightarrow> (level, source)
             | Some (scope, v) \<Rightarrow>
                 (case rule p (TScope connection_id scope v) of
                    None \<Rightarrow> (level, source)
                  | Some r \<Rightarrow>
                      (let (l1, s1) =
                             (case ar_access r of Some scoped \<Rightarrow> (scoped, SrcScope) | None \<Rightarrow> (level, source))
                       in case option_filter (\<lambda>ceiling. ceiling < l1) (ar_ceiling r) of
                            Some ceiling \<Rightarrow> (ceiling, SrcScope)
                          | None \<Rightarrow> (l1, s1))))
      in \<lparr>ra_visible = visible, ra_level = (if visible then level' else LvNone), ra_source = source'\<rparr>)"

definition resolve_plugin_connection :: "McpAccessPolicy \<Rightarrow> string list \<Rightarrow> string \<Rightarrow> bool \<Rightarrow> McpResolvedAccess" where
  "resolve_plugin_connection p group_ids connection_id connection_read_only =
     (let resolved = resolve p group_ids connection_id None
      in if ra_source resolved = SrcDefault \<and> \<not> connection_read_only \<and> ra_level resolved < LvWrite
         then resolved\<lparr>ra_level := LvWrite\<rparr> else resolved)"

definition sub_scope_allows_all :: "McpAccessPolicy \<Rightarrow> string \<Rightarrow> string \<Rightarrow> bool" where
  "sub_scope_allows_all p connection_id scope =
     (if sub_scope_mode p connection_id \<noteq> SubAll then False
      else \<not> list_ex (\<lambda>(target, r).
                (case target of TScope c s _ \<Rightarrow> c = connection_id \<and> s = scope | _ \<Rightarrow> False) \<and>
                (ar_visible r = Some False \<or> ar_access r = Some LvNone \<or> ar_ceiling r = Some LvNone))
              (ap_rules p))"

definition toolset_ceiling :: "McpAccessPolicy \<Rightarrow> string \<Rightarrow> string \<Rightarrow> McpAccessLevel option" where
  "toolset_ceiling p connection_id toolset =
     option_or
       (Option.bind (connection_rule p connection_id) (\<lambda>r. map_of (ar_toolset_ceilings r) toolset))
       (if toolset = SALESFORCE_WRITE_TOOLSET then Some LvRead else None)"

definition has_scope_rules :: "McpAccessPolicy \<Rightarrow> string \<Rightarrow> bool" where
  "has_scope_rules p connection_id =
     list_ex (\<lambda>target. case target of TScope c _ _ \<Rightarrow> c = connection_id | _ \<Rightarrow> False) (map fst (ap_rules p))"

section \<open>The decision\<close>

record McpDatabaseDecision =
  dd_connection_visible :: bool
  dd_database_visible :: bool
  dd_flags :: "bool \<times> bool"

definition resolve_level_ignoring_visibility ::
    "McpAccessPolicy \<Rightarrow> string list \<Rightarrow> string \<Rightarrow> (string \<times> string) option \<Rightarrow> McpAccessLevel" where
  "resolve_level_ignoring_visibility p group_ids connection_id sub_scope =
     (let visible_everywhere =
            p\<lparr>ap_visibility := VisAll,
              ap_rules := map (\<lambda>(t, r). (t, r\<lparr>ar_visible := None, ar_sub_scope := None\<rparr>)) (ap_rules p)\<rparr>
      in ra_level (resolve visible_everywhere group_ids connection_id sub_scope))"

definition decide :: "McpAccessPolicy \<Rightarrow> string list \<Rightarrow> string \<Rightarrow> string \<Rightarrow> McpDatabaseDecision" where
  "decide p group_ids connection_id database =
     (let visible = connection_visible p group_ids connection_id;
          sub_scope = (if database \<noteq> [] then Some (''database'', database) else None);
          resolved = resolve p group_ids connection_id sub_scope;
          database_visible =
            visible \<and> is_none_or (\<lambda>(scope, v). sub_scope_visible p connection_id scope v) sub_scope;
          level = (if database_visible then ra_level resolved
                   else resolve_level_ignoring_visibility p group_ids connection_id sub_scope)
      in \<lparr>dd_connection_visible = visible, dd_database_visible = database_visible,
          dd_flags = to_flags (max level LvRead)\<rparr>)"

end
