(* ===== verification/Mcp_Access_Laws.thy ===== *)
theory Mcp_Access_Laws
  imports Mcp_Access
begin

text \<open>
  Laws of the access model: the arithmetic of levels and flags, the level a sub-scope resolves
  to as a composition of rules, the confirmation decision, and the merge of duplicate rules when
  a saved policy is read.
\<close>

section \<open>Levels and flags\<close>

lemma level_bounds [simp]: "LvNone \<le> l" "l \<le> LvFull"
  by (cases l; simp add: level_le)+

lemma level_order [simp]:
  "LvRead \<le> l \<longleftrightarrow> l \<noteq> LvNone" "l < LvRead \<longleftrightarrow> l = LvNone" "LvNone < l \<longleftrightarrow> l \<noteq> LvNone" "\<not> l < LvNone"
  by (cases l; simp add: level_le)+

lemma from_flags_not_None [simp]: "from_flags a b \<noteq> LvNone"
  by (cases a; cases b) simp_all

lemma from_flags_clamp [simp]: "from_flags ro (\<not> ro \<and> d) = from_flags ro d"
  by (cases ro) simp_all

lemma max_Read [simp]: "l \<noteq> LvNone \<Longrightarrow> max l LvRead = l"
  by (cases l) (simp_all add: max_def level_le)

lemma to_from_flags [level_simps]: "to_flags (from_flags ro d) = (ro, \<not> ro \<and> d)"
  by (cases ro; cases d) simp_all

lemma from_to_flags [level_simps]: "from_flags_pair (to_flags l) = max l LvRead"
  by (cases l) (simp_all add: from_flags_pair_def max_def level_le)

lemma apply_ceiling_min: "from_flags_pair (apply_ceiling f g) = min (from_flags_pair f) (from_flags_pair g)"
  by (cases "fst f"; cases "snd f"; cases "fst g"; cases "snd g")
    (simp_all add: apply_ceiling_def from_flags_pair_def min_def level_le Let_def)

section \<open>The resolved level\<close>

text \<open>A rule replaces the level it inherits by its own, then cuts the result at its ceiling.\<close>

definition capped :: "McpAccessLevel option \<Rightarrow> McpAccessLevel \<Rightarrow> McpAccessLevel" where
  "capped c l = (case c of None \<Rightarrow> l | Some ceiling \<Rightarrow> min l ceiling)"

definition applied :: "McpAccessRule option \<Rightarrow> McpAccessLevel \<Rightarrow> McpAccessLevel" where
  "applied ro l = (case ro of None \<Rightarrow> l | Some r \<Rightarrow> capped (ar_ceiling r) (unwrap_or l (ar_access r)))"

definition group_level :: "McpAccessPolicy \<Rightarrow> string list \<Rightarrow> McpAccessLevel" where
  "group_level p gs = foldl (\<lambda>l g. unwrap_or l (Option.bind (rule p (TGroup g)) ar_access)) (ap_default_access p) gs"

definition scoped_level :: "McpAccessPolicy \<Rightarrow> string list \<Rightarrow> string \<Rightarrow> (string \<times> string) option \<Rightarrow> McpAccessLevel" where
  "scoped_level p gs c sub =
     applied (Option.bind sub (\<lambda>(s, v). rule p (TScope c s v))) (applied (connection_rule p c) (group_level p gs))"

lemma capped_simps [simp]: "capped None l = l" "capped (Some c) l = min l c"
  by (simp_all add: capped_def)

lemma applied_None [simp]: "applied None l = l"
  by (simp add: applied_def)

lemma capped_filter:
  "capped c l = (case option_filter (\<lambda>ceiling. ceiling < l) c of Some ceiling \<Rightarrow> ceiling | None \<Rightarrow> l)"
  by (cases c) (auto simp: min_def)

lemma fst_connection_access:
  "fst (connection_access p gs c) = applied (connection_rule p c) (group_level p gs)"
proof -
  have fold: "fst (foldl (\<lambda>res group_id.
                     case Option.bind (rule p (TGroup group_id)) ar_access of
                       Some level \<Rightarrow> (level, SrcGroup group_id) | None \<Rightarrow> res) s gs)
      = foldl (\<lambda>l g. unwrap_or l (Option.bind (rule p (TGroup g)) ar_access)) (fst s) gs" for s
    by (induction gs arbitrary: s) (simp_all split: option.split)
  show ?thesis
    using fold [of "(ap_default_access p, SrcDefault)"]
    by (auto simp: connection_access_def applied_def group_level_def capped_filter Let_def
        split: option.splits if_splits)
qed

lemma resolve_level:
  "ra_level (resolve p gs c sub) = (if ra_visible (resolve p gs c sub) then scoped_level p gs c sub else LvNone)"
proof -
  obtain level source where ca: "connection_access p gs c = (level, source)" by fastforce
  then have level: "level = applied (connection_rule p c) (group_level p gs)"
    using fst_connection_access [of p gs c] by simp
  show ?thesis
    by (cases sub) (auto simp: resolve_def Let_def ca scoped_level_def applied_def [of "Some _"] applied_def
        [of "rule p _"] capped_filter level [symmetric] split: prod.splits option.splits if_splits)
qed

lemma resolve_visible:
  "ra_visible (resolve p gs c sub) \<longleftrightarrow>
   connection_visible p gs c \<and> is_none_or (\<lambda>(s, v). sub_scope_visible p c s v) sub"
  by (simp add: resolve_def Let_def split: prod.splits)

lemma unhide_rule:
  "map_of (map (\<lambda>(t, r). (t, r\<lparr>ar_visible := None, ar_sub_scope := None\<rparr>)) rs) t =
   map_option (\<lambda>r. r\<lparr>ar_visible := None, ar_sub_scope := None\<rparr>) (map_of rs t)"
  by (induction rs) auto

lemma applied_unhide:
  "applied (map_option (\<lambda>r. r\<lparr>ar_visible := None, ar_sub_scope := None\<rparr>) ro) l = applied ro l"
  by (cases ro) (simp_all add: applied_def)

lemma bind_unhide:
  "Option.bind (map_option (\<lambda>r. r\<lparr>ar_visible := None, ar_sub_scope := None\<rparr>) ro) ar_access = Option.bind ro ar_access"
  by (cases ro) simp_all

lemma resolve_ignoring_visibility:
  "resolve_level_ignoring_visibility p gs c sub = scoped_level p gs c sub"
proof -
  let ?p = "p\<lparr>ap_visibility := VisAll,
              ap_rules := map (\<lambda>(t, r). (t, r\<lparr>ar_visible := None, ar_sub_scope := None\<rparr>)) (ap_rules p)\<rparr>"
  have rule: "rule ?p t = map_option (\<lambda>r. r\<lparr>ar_visible := None, ar_sub_scope := None\<rparr>) (rule p t)" for t
    by (simp add: rule_def unhide_rule)
  have hidden: "Option.bind (rule ?p t) ar_visible = None" for t
    by (cases "rule p t") (simp_all add: rule)
  have sub_scope: "Option.bind (rule ?p t) ar_sub_scope = None" for t
    by (cases "rule p t") (simp_all add: rule)
  have "ra_visible (resolve ?p gs c sub)"
    by (cases sub) (simp_all add: resolve_visible connection_visible_def sub_scope_visible_def Let_def
        connection_rule_def hidden sub_scope split: prod.splits)
  moreover have "group_level ?p gs = group_level p gs"
    by (simp add: group_level_def rule bind_unhide)
  ultimately show ?thesis
    by (cases sub) (auto simp: resolve_level_ignoring_visibility_def resolve_level scoped_level_def
        connection_rule_def rule applied_unhide)
qed

section \<open>Merging duplicate rules\<close>

definition level_within :: "McpAccessLevel option \<Rightarrow> McpAccessLevel option \<Rightarrow> bool" where
  "level_within a b \<longleftrightarrow> is_none_or (\<lambda>y. is_some_and (\<lambda>x. x \<le> y) a) b"

text \<open>\<open>rule_within r e\<close>: the rule \<open>r\<close> is at least as strict as \<open>e\<close> in every field that \<open>e\<close> restricts.\<close>

definition rule_within :: "McpAccessRule \<Rightarrow> McpAccessRule \<Rightarrow> bool" where
  "rule_within r e \<longleftrightarrow>
     level_within (ar_access r) (ar_access e) \<and> level_within (ar_ceiling r) (ar_ceiling e) \<and>
     (ar_visible e = Some False \<longrightarrow> ar_visible r = Some False) \<and>
     (ar_sub_scope e = Some SubNone \<longrightarrow> ar_sub_scope r = Some SubNone) \<and>
     (ar_sub_scope e = Some SubSelected \<longrightarrow> ar_sub_scope r = Some SubSelected \<or> ar_sub_scope r = Some SubNone) \<and>
     (\<forall>t. level_within (map_of (ar_toolset_ceilings r) t) (map_of (ar_toolset_ceilings e) t))"

lemma level_within_refl [simp]: "level_within a a"
  by (cases a) (simp_all add: level_within_def)

lemma level_within_trans: "level_within a b \<Longrightarrow> level_within b c \<Longrightarrow> level_within a c"
  by (cases a; cases b; cases c) (auto simp: level_within_def)

lemma strictest_within: "level_within (strictest a b) a" "level_within (strictest a b) b"
  by (cases a; cases b; simp add: level_within_def strictest_def)+

lemma strictest_alt:
  "Some (case a of Some current \<Rightarrow> min current x | None \<Rightarrow> x) = strictest a (Some x)"
  by (cases a) (simp_all add: strictest_def)

lemma merge_ceilings_Cons:
  "merge_ceilings m (e # es) =
   merge_ceilings (bt_insert (fst e) (case map_of m (fst e) of Some current \<Rightarrow> min current (snd e) | None \<Rightarrow> snd e) m) es"
  by (cases e) (simp add: merge_ceilings_def cong: option.case_cong)

lemma merge_ceilings_left: "level_within (map_of (merge_ceilings m es) t) (map_of m t)"
proof (induction es arbitrary: m)
  case (Cons e es)
  let ?m = "bt_insert (fst e) (case map_of m (fst e) of Some current \<Rightarrow> min current (snd e) | None \<Rightarrow> snd e) m"
  have "level_within (map_of ?m t) (map_of m t)"
    by (simp add: hmap_simps strictest_alt strictest_within)
  then show ?case
    unfolding merge_ceilings_Cons by (rule level_within_trans [OF Cons.IH])
qed (simp add: merge_ceilings_def)

lemma merge_ceilings_right: "level_within (map_of (merge_ceilings m es) t) (map_of es t)"
proof (induction es arbitrary: m)
  case (Cons e es)
  show ?case
  proof (cases "fst e = t")
    case True
    let ?m = "bt_insert t (case map_of m t of Some current \<Rightarrow> min current (snd e) | None \<Rightarrow> snd e) m"
    have "level_within (map_of ?m t) (Some (snd e))"
      by (simp add: hmap_simps strictest_alt strictest_within)
    then have "level_within (map_of (merge_ceilings ?m es) t) (Some (snd e))"
      by (rule level_within_trans [OF merge_ceilings_left])
    then show ?thesis unfolding merge_ceilings_Cons using True by (cases e) simp
  next
    case False
    then show ?thesis unfolding merge_ceilings_Cons using Cons.IH by (cases e) simp
  qed
qed (simp add: level_within_def)

lemma merge_within: "rule_within (merge_strictest r e) r" "rule_within (merge_strictest r e) e"
  by (auto simp: rule_within_def merge_strictest_def strictest_within merge_ceilings_left
      merge_ceilings_right merge_sub_scope_def option_or_def split: option.splits)

lemma rule_within_trans: "rule_within a b \<Longrightarrow> rule_within b c \<Longrightarrow> rule_within a c"
  unfolding rule_within_def by (meson level_within_trans)

lemma rule_within_refl [simp]: "rule_within r r"
  by (simp add: rule_within_def)

lemma fold_merge_within: "rule_within (foldl merge_strictest r es) r"
  by (induction es arbitrary: r) (auto intro: rule_within_trans merge_within)

definition deserialize_step :: "rules \<Rightarrow> McpRuleTarget \<times> McpAccessRule \<Rightarrow> rules" where
  "deserialize_step rs e =
     bt_insert (fst e) (case map_of rs (fst e) of Some current \<Rightarrow> merge_strictest current (snd e) | None \<Rightarrow> snd e) rs"

lemma deserialize_fold: "rule_list_deserialize entries = foldl deserialize_step [] entries"
  unfolding rule_list_deserialize_def
  by (rule arg_cong [where f = "\<lambda>f. foldl f [] entries"]) (auto simp: deserialize_step_def fun_eq_iff cong: option.case_cong)

lemma deserialize_keeps:
  "map_of rs t = Some r \<Longrightarrow> \<exists>r'. map_of (foldl deserialize_step rs es) t = Some r' \<and> rule_within r' r"
proof (induction es arbitrary: rs r)
  case (Cons e es)
  obtain r1 where "map_of (deserialize_step rs e) t = Some r1" and "rule_within r1 r"
    using Cons.prems by (cases "fst e = t") (auto simp: deserialize_step_def hmap_simps merge_within)
  then show ?case using Cons.IH by (fastforce intro: rule_within_trans)
qed simp

lemma deserialize_within:
  "(t, e) \<in> set es \<Longrightarrow> \<exists>r. map_of (foldl deserialize_step rs es) t = Some r \<and> rule_within r e"
proof (induction es arbitrary: rs)
  case (Cons a es)
  show ?case
  proof (cases "a = (t, e)")
    case True
    obtain r1 where "map_of (deserialize_step rs a) t = Some r1" and r1: "rule_within r1 e"
      using True by (auto simp: deserialize_step_def hmap_simps merge_within split: option.splits)
    from deserialize_keeps [OF this(1), of es] show ?thesis
      using r1 by (auto intro: rule_within_trans)
  next
    case False
    then show ?thesis using Cons by simp
  qed
qed simp

lemma bt_wf_deserialize: "bt_wf (rule_list_deserialize entries)"
proof -
  have "bt_wf rs \<Longrightarrow> bt_wf (foldl deserialize_step rs entries)" for rs
    by (induction entries arbitrary: rs) (auto simp: deserialize_step_def)
  then show ?thesis by (simp add: deserialize_fold)
qed

lemma bt_insert_last:
  "(\<And>k'. k' \<in> fst ` set m \<Longrightarrow> k' < k) \<Longrightarrow> bt_insert k v m = m @ [(k, v)]"
proof -
  assume lt: "\<And>k'. k' \<in> fst ` set m \<Longrightarrow> k' < k"
  have "AList.delete k m = m" using lt by (fastforce simp: AList.delete_eq filter_id_conv)
  moreover have "insort_key fst (k, v) m = m @ [(k, v)]"
    using lt by (induction m) (fastforce simp: not_le [symmetric])+
  ultimately show ?thesis by (simp add: bt_insert_def)
qed

lemma deserialize_sorted:
  "bt_wf (m @ es) \<Longrightarrow> foldl deserialize_step m es = m @ es"
proof (induction es arbitrary: m)
  case (Cons e es)
  have lt: "k' < fst e" if "k' \<in> fst ` set m" for k'
    using Cons.prems that by (auto simp: bt_wf_def sorted_wrt_append)
  then have "map_of m (fst e) = None" by (force simp: map_of_eq_None_iff)
  then have "deserialize_step m e = m @ [e]"
    using bt_insert_last [of m "fst e" "snd e"] lt by (simp add: deserialize_step_def)
  then show ?case using Cons by simp
qed simp

section \<open>Properties\<close>


text \<open>
  Reading a saved rule list merges duplicate targets to the strictest reading: every entry
  of the list is covered by the rule its target ends with, which is at least as strict in level,
  ceiling, visibility, sub-scope mode and every toolset ceiling.
\<close>
theorem deserialize_strictest:
  assumes "(t, e) \<in> set entries"
  shows "\<exists>r. map_of (rule_list_deserialize entries) t = Some r \<and> rule_within r e"
  unfolding deserialize_fold by (rule deserialize_within [OF assms])

definition sample_entries :: "(McpRuleTarget \<times> McpAccessRule) list" where
  "sample_entries =
     [(TConnection ''c'', default_rule\<lparr>ar_access := Some LvFull, ar_visible := Some True\<rparr>),
      (TGroup ''g'', default_rule\<lparr>ar_access := Some LvWrite\<rparr>),
      (TConnection ''c'', default_rule\<lparr>ar_access := Some LvRead, ar_visible := Some False\<rparr>)]"

theorem deserialize_strictest_witness:
  "\<exists>r. map_of (rule_list_deserialize sample_entries) (TConnection ''c'') = Some r \<and>
       rule_within r (default_rule\<lparr>ar_access := Some LvRead, ar_visible := Some False\<rparr>)"
  by (rule deserialize_strictest) (simp add: sample_entries_def)

text \<open>
  Saving the rules of a policy and reading them back gives the same rules, and reading any
  list gives a well-formed rule map.
\<close>
theorem rule_list_round_trip:
  "bt_wf (rule_list_deserialize entries) \<and>
   rule_list_deserialize (rule_list_serialize (rule_list_deserialize entries)) = rule_list_deserialize entries"
  using deserialize_sorted [of "[]" "rule_list_deserialize entries"] bt_wf_deserialize [of entries]
  by (simp add: rule_list_serialize_def deserialize_fold)

end
