(* ===== verification/Mcp_Projection.thy ===== *)
theory Mcp_Projection
  imports Mcp_Access
begin

text \<open>
  The two directions between the persisted policy and the access model, from
  \<^verbatim>\<open>crates/dbx-core/src/ai/mcp_access.rs\<close>: \<^verbatim>\<open>from_v1\<close>, \<^verbatim>\<open>to_v1\<close> with the strictness helpers it
  uses, the recovery of Salesforce opt-ins, and the carry-over of rules that only the access
  model can express. The lemmas are about lookups in the rule maps these functions build.
\<close>

section \<open>From the persisted policy\<close>

definition sub_scope_of :: "McpDatabaseScope \<Rightarrow> McpSubScopeMode" where
  "sub_scope_of s = (case s of DbAll \<Rightarrow> SubAll | DbSelected \<Rightarrow> SubSelected | DbNone \<Rightarrow> SubNone)"

definition database_scope_of :: "McpSubScopeMode \<Rightarrow> McpDatabaseScope" where
  "database_scope_of s = (case s of SubAll \<Rightarrow> DbAll | SubSelected \<Rightarrow> DbSelected | SubNone \<Rightarrow> DbNone)"

definition salesforce_ceiling_v1 :: "McpConnectionPolicy \<Rightarrow> McpAccessLevel" where
  "salesforce_ceiling_v1 c = (if cp_allow_salesforce_dml c \<and> \<not> cp_read_only c then LvFull else LvRead)"

definition from_v1_connection_rule :: "McpConnectionPolicy \<Rightarrow> McpAccessRule \<Rightarrow> McpAccessRule" where
  "from_v1_connection_rule c r =
     (let versioned = (cp_execution_mode_policy_version c = Some MCP_EXECUTION_POLICY_VERSION);
          level = from_flags (cp_read_only c) (cp_allow_dangerous_sql c);
          r1 = r\<lparr>ar_sub_scope := Some (sub_scope_of (cp_database_scope c))\<rparr>;
          r2 = (if cp_execution_mode_configured c
                then (if versioned then r1\<lparr>ar_access := Some level\<rparr> else r1\<lparr>ar_ceiling := Some level\<rparr>)
                else r1)
      in r2\<lparr>ar_toolset_ceilings :=
              bt_insert SALESFORCE_WRITE_TOOLSET (salesforce_ceiling_v1 c) (ar_toolset_ceilings r2)\<rparr>)"

definition from_v1_connection :: "rules \<Rightarrow> McpConnectionPolicy \<Rightarrow> rules" where
  "from_v1_connection rs c =
     (let versioned = (cp_execution_mode_policy_version c = Some MCP_EXECUTION_POLICY_VERSION);
          scope_target = (\<lambda>database. TScope (cp_connection_id c) ''database'' database);
          rs1 = bt_entry (TConnection (cp_connection_id c)) default_rule (from_v1_connection_rule c) rs;
          rs2 = foldl (\<lambda>m database.
                  bt_entry (scope_target database) default_rule (\<lambda>r. r\<lparr>ar_visible := Some True\<rparr>) m)
                  rs1 (cp_allowed_databases c)
      in foldl (\<lambda>m d.
           let level = from_flags (dp_read_only d) (dp_allow_dangerous_sql d)
           in bt_entry (scope_target (dp_database_name d)) default_rule
                (\<lambda>r. if versioned then r\<lparr>ar_access := Some level\<rparr> else r\<lparr>ar_ceiling := Some level\<rparr>) m)
           rs2 (cp_database_policies c))"

definition from_v1_rules :: "McpGlobalPolicy \<Rightarrow> rules" where
  "from_v1_rules p =
     (let rs1 = foldl (\<lambda>m cid. bt_entry (TConnection cid) default_rule (\<lambda>r. r\<lparr>ar_visible := Some True\<rparr>) m)
                  [] (unwrap_or [] (gp_allowed_connection_ids p));
          rs2 = foldl (\<lambda>m gid. bt_entry (TGroup gid) default_rule (\<lambda>r. r\<lparr>ar_visible := Some True\<rparr>) m)
                  rs1 (gp_allowed_group_ids p);
          rs3 = foldl (\<lambda>m g. bt_entry (TGroup (grp_group_id g)) default_rule
                  (\<lambda>r. r\<lparr>ar_access := Some (from_flags (grp_read_only g) (grp_allow_dangerous_sql g))\<rparr>) m)
                  rs2 (gp_group_policies p)
      in foldl from_v1_connection rs3 (gp_connection_policies p))"

definition from_v1 :: "McpGlobalPolicy \<Rightarrow> McpAccessPolicy" where
  "from_v1 policy =
     (let p = normalized policy
      in \<lparr>ap_version = MCP_ACCESS_POLICY_VERSION,
          ap_default_access = from_flags (gp_read_only p) (gp_allow_dangerous_sql p),
          ap_confirm = confirmation_policy p,
          ap_visibility = (if gp_allowed_connection_ids p \<noteq> None then VisSelected else VisAll),
          ap_rules = from_v1_rules p,
          ap_allowed_tool_names = gp_allowed_tool_names p,
          ap_query_timeout_secs = gp_query_timeout_secs p,
          ap_plugin_tools_mode = gp_plugin_tools_mode p\<rparr>)"

section \<open>Projection onto the persisted policy\<close>

text \<open>\<^verbatim>\<open>Iterator::min\<close> is \<open>None\<close> on an empty sequence.\<close>

definition min_opt :: "McpAccessLevel list \<Rightarrow> McpAccessLevel option" where
  "min_opt ls = (case ls of [] \<Rightarrow> None | l # ls' \<Rightarrow> Some (foldl min l ls'))"

definition projected_toolset_ceiling :: "McpAccessPolicy \<Rightarrow> string \<Rightarrow> McpAccessLevel option" where
  "projected_toolset_ceiling p connection_id =
     Option.bind (connection_rule p connection_id) (\<lambda>r.
       min_opt (map snd (filter (\<lambda>(toolset, _). toolset \<noteq> SALESFORCE_WRITE_TOOLSET) (ar_toolset_ceilings r))))"

definition strictest_connection_level :: "McpAccessPolicy \<Rightarrow> string \<Rightarrow> McpAccessLevel" where
  "strictest_connection_level p connection_id =
     (let strictest =
            foldl (\<lambda>acc (target, r).
                     case (target, ar_access r) of
                       (TGroup _, Some level) \<Rightarrow> min acc level
                     | _ \<Rightarrow> acc)
              (ap_default_access p) (ap_rules p)
      in case connection_rule p connection_id of
           None \<Rightarrow> strictest
         | Some r \<Rightarrow>
             (let s1 = (case ar_access r of Some level \<Rightarrow> level | None \<Rightarrow> strictest)
              in case ar_ceiling r of Some ceiling \<Rightarrow> min s1 ceiling | None \<Rightarrow> s1))"

definition blank :: "string \<Rightarrow> McpConnectionPolicy" where
  "blank cid = \<lparr>cp_connection_id = cid, cp_read_only = False, cp_allow_dangerous_sql = False,
     cp_execution_mode_configured = False,
     cp_execution_mode_policy_version = Some MCP_EXECUTION_POLICY_VERSION,
     cp_database_scope = DbAll, cp_allowed_databases = [], cp_database_policies = [],
     cp_allow_salesforce_dml = False\<rparr>"

text \<open>The variables the loop of \<^verbatim>\<open>to_v1\<close> over the rules changes.\<close>

record projection =
  pj_allowed_connection_ids :: "string list option"
  pj_allowed_group_ids :: "string list"
  pj_group_policies :: "McpGroupPolicy list"
  pj_connection_policies :: "(string, McpConnectionPolicy) bmap"
  pj_hidden_connections :: "string list"

definition pinned_level :: "McpAccessPolicy \<Rightarrow> string \<Rightarrow> McpAccessRule \<Rightarrow> McpAccessLevel option" where
  "pinned_level p cid r =
     (case (ar_access r, ar_ceiling r) of
        (Some access, Some ceiling) \<Rightarrow> Some (min access ceiling)
      | (Some access, None) \<Rightarrow> Some access
      | (None, Some ceiling) \<Rightarrow> Some (min ceiling (strictest_connection_level p cid))
      | (None, None) \<Rightarrow> None)"

definition project_group :: "McpAccessPolicy \<Rightarrow> string \<Rightarrow> McpAccessRule \<Rightarrow> projection \<Rightarrow> projection" where
  "project_group p gid r s =
     (let s1 = (if ar_visible r = Some True \<and> ap_visibility p = VisSelected
                then s\<lparr>pj_allowed_group_ids := pj_allowed_group_ids s @ [gid]\<rparr> else s)
      in case ar_access r of
           None \<Rightarrow> s1
         | Some level \<Rightarrow>
             (let (ro, dangerous) = to_flags (max level LvRead)
              in s1\<lparr>pj_group_policies := pj_group_policies s1 @
                     [\<lparr>grp_group_id = gid, grp_read_only = ro, grp_allow_dangerous_sql = dangerous\<rparr>]\<rparr>))"

definition connection_level :: "McpAccessPolicy \<Rightarrow> string \<Rightarrow> McpAccessRule \<Rightarrow> McpAccessLevel option" where
  "connection_level p cid r =
     (let level = pinned_level p cid r
      in case projected_toolset_ceiling p cid of
           None \<Rightarrow> level
         | Some ceiling \<Rightarrow> Some (min (unwrap_or (strictest_connection_level p cid) level) ceiling))"

definition project_connection_policy ::
    "McpAccessPolicy \<Rightarrow> string \<Rightarrow> McpAccessRule \<Rightarrow> McpConnectionPolicy \<Rightarrow> McpConnectionPolicy" where
  "project_connection_policy p cid r policy =
     (let policy1 =
            (case connection_level p cid r of
               None \<Rightarrow> policy
             | Some l \<Rightarrow>
                 (let (ro, dangerous) = to_flags (max l LvRead)
                  in policy\<lparr>cp_read_only := ro, cp_allow_dangerous_sql := dangerous,
                            cp_execution_mode_configured := True\<rparr>));
          policy2 = policy1\<lparr>cp_database_scope := database_scope_of (unwrap_or SubAll (ar_sub_scope r))\<rparr>
      in policy2\<lparr>cp_allow_salesforce_dml :=
           is_some_and (\<lambda>ceiling. ceiling > LvRead)
             (map_of (ar_toolset_ceilings r) SALESFORCE_WRITE_TOOLSET) \<and> \<not> cp_read_only policy2\<rparr>)"

definition project_connection :: "McpAccessPolicy \<Rightarrow> string \<Rightarrow> McpAccessRule \<Rightarrow> projection \<Rightarrow> projection" where
  "project_connection p cid r s =
     (let s1 =
            (if ar_visible r = Some False \<or> ar_access r = Some LvNone \<or> ar_ceiling r = Some LvNone
             then s\<lparr>pj_hidden_connections := pj_hidden_connections s @ [cid]\<rparr>
             else if ar_visible r = Some True
             then s\<lparr>pj_allowed_connection_ids :=
                     map_option (\<lambda>ids. ids @ [cid]) (pj_allowed_connection_ids s)\<rparr>
             else s);
          s2 =
            (if connection_level p cid r = Some LvNone \<and> cid \<notin> set (pj_hidden_connections s1)
             then s1\<lparr>pj_hidden_connections := pj_hidden_connections s1 @ [cid]\<rparr> else s1)
      in s2\<lparr>pj_connection_policies :=
           bt_entry cid (blank cid) (project_connection_policy p cid r) (pj_connection_policies s2)\<rparr>)"

definition project_scope_policy ::
    "McpAccessPolicy \<Rightarrow> string \<Rightarrow> string \<Rightarrow> string \<Rightarrow> McpAccessRule \<Rightarrow> McpConnectionPolicy \<Rightarrow> McpConnectionPolicy" where
  "project_scope_policy p connection_id scope v r policy =
     (if scope \<noteq> ''database'' then
        (if ar_visible r = Some False \<or> ar_access r \<noteq> None \<or> ar_ceiling r \<noteq> None
         then policy\<lparr>cp_database_scope := DbNone\<rparr> else policy)
      else
        (let hidden = (ar_visible r = Some False \<or> ar_access r = Some LvNone \<or> ar_ceiling r = Some LvNone);
             policy1 =
               (if ar_visible r = Some True \<and> \<not> hidden
                then policy\<lparr>cp_allowed_databases := cp_allowed_databases policy @ [v]\<rparr> else policy);
             level =
               map_option (\<lambda>l. case projected_toolset_ceiling p connection_id of
                                 None \<Rightarrow> l | Some ceiling \<Rightarrow> min l ceiling)
                 (pinned_level p connection_id r)
         in case option_filter (\<lambda>_. \<not> hidden) level of
              None \<Rightarrow> policy1
            | Some l \<Rightarrow>
                (let (ro, dangerous) = to_flags (max l LvRead)
                 in policy1\<lparr>cp_database_policies := cp_database_policies policy1 @
                      [\<lparr>dp_database_name = v, dp_read_only = ro, dp_allow_dangerous_sql = dangerous\<rparr>]\<rparr>)))"

definition project_rule :: "McpAccessPolicy \<Rightarrow> projection \<Rightarrow> McpRuleTarget \<times> McpAccessRule \<Rightarrow> projection" where
  "project_rule p s entry =
     (case fst entry of
        TGroup gid \<Rightarrow> project_group p gid (snd entry) s
      | TConnection cid \<Rightarrow> project_connection p cid (snd entry) s
      | TScope connection_id scope v \<Rightarrow>
          s\<lparr>pj_connection_policies :=
              bt_entry connection_id (blank connection_id)
                (project_scope_policy p connection_id scope v (snd entry)) (pj_connection_policies s)\<rparr>)"

definition has_database_rules :: "McpAccessPolicy \<Rightarrow> string \<Rightarrow> bool" where
  "has_database_rules p cid =
     list_ex (\<lambda>(target, _). case target of TScope c s _ \<Rightarrow> c = cid \<and> s = ''database'' | _ \<Rightarrow> False) (ap_rules p)"

definition promote_scope :: "McpAccessPolicy \<Rightarrow> McpConnectionPolicy \<Rightarrow> McpConnectionPolicy" where
  "promote_scope p policy =
     (if cp_database_scope policy = DbAll \<and> has_database_rules p (cp_connection_id policy)
      then policy\<lparr>cp_database_scope := DbSelected,
                  cp_database_policies :=
                    filter (\<lambda>d. dp_database_name d \<in> set (cp_allowed_databases policy))
                      (cp_database_policies policy)\<rparr>
      else policy)"

definition lock_down :: "McpConnectionPolicy \<Rightarrow> McpConnectionPolicy" where
  "lock_down policy =
     policy\<lparr>cp_read_only := True, cp_allow_dangerous_sql := False, cp_allow_salesforce_dml := False,
            cp_execution_mode_configured := True, cp_database_scope := DbNone,
            cp_allowed_databases := [], cp_database_policies := []\<rparr>"

definition hide_connection :: "projection \<Rightarrow> string \<Rightarrow> projection" where
  "hide_connection s cid =
     s\<lparr>pj_allowed_connection_ids :=
         map_option (filter (\<lambda>candidate. candidate \<noteq> cid)) (pj_allowed_connection_ids s),
       pj_connection_policies := bt_entry cid (blank cid) lock_down (pj_connection_policies s)\<rparr>"

definition restricted_ancestors :: "McpAccessPolicy \<Rightarrow> bool" where
  "restricted_ancestors p \<longleftrightarrow>
     ap_default_access p = LvNone \<or>
     list_ex (\<lambda>(target, r).
        (case target of TGroup _ \<Rightarrow> True | _ \<Rightarrow> False) \<and>
        (ar_visible r = Some False \<or> ar_access r = Some LvNone \<or> ar_ceiling r = Some LvNone)) (ap_rules p)"

definition explicitly_visible :: "McpAccessPolicy \<Rightarrow> string list \<Rightarrow> string list" where
  "explicitly_visible p hidden =
     List.map_filter (\<lambda>(target, r).
       (case target of
          TConnection cid \<Rightarrow>
            if ar_visible r = Some True \<and> cid \<notin> set hidden \<and>
               (\<not> restricted_ancestors p \<or> is_some_and (\<lambda>level. level > LvNone) (ar_access r))
            then Some cid else None
        | _ \<Rightarrow> None)) (ap_rules p)"

definition project_rules :: "McpAccessPolicy \<Rightarrow> projection" where
  "project_rules p =
     foldl (project_rule p)
       \<lparr>pj_allowed_connection_ids = (if ap_visibility p = VisSelected then Some [] else None),
        pj_allowed_group_ids = [], pj_group_policies = [], pj_connection_policies = [],
        pj_hidden_connections = []\<rparr> (ap_rules p)"

definition project_all :: "McpAccessPolicy \<Rightarrow> projection" where
  "project_all p =
     (let s1 = project_rules p;
          s2 = s1\<lparr>pj_connection_policies :=
                    map (\<lambda>(cid, policy). (cid, promote_scope p policy)) (pj_connection_policies s1)\<rparr>;
          s3 = foldl hide_connection s2 (pj_hidden_connections s2)
      in if pj_hidden_connections s3 \<noteq> [] \<or> restricted_ancestors p
         then s3\<lparr>pj_allowed_connection_ids := Some (explicitly_visible p (pj_hidden_connections s3)),
                 pj_allowed_group_ids := []\<rparr>
         else s3)"

definition to_v1 :: "McpAccessPolicy \<Rightarrow> McpGlobalPolicy" where
  "to_v1 p =
     (let s = project_all p;
          (ro, dangerous) = to_flags (max (ap_default_access p) LvRead)
      in normalized
           \<lparr>gp_read_only = (ro \<or> ap_default_access p = LvNone),
            gp_allow_dangerous_sql = dangerous,
            gp_prompt_high_risk_sql = (ap_confirm p = ConfirmFull),
            gp_call_confirmation = (if ap_confirm p = ConfirmHighRisk then Some (ap_confirm p) else None),
            gp_allowed_connection_ids = pj_allowed_connection_ids s,
            gp_allowed_group_ids = pj_allowed_group_ids s,
            gp_allowed_tool_names = ap_allowed_tool_names p,
            gp_connection_policies = map snd (pj_connection_policies s),
            gp_group_policies = pj_group_policies s,
            gp_query_timeout_secs = ap_query_timeout_secs p,
            gp_plugin_tools_mode = ap_plugin_tools_mode p\<rparr>)"

section \<open>Saving a persisted policy over an access policy\<close>

definition restore_legacy_salesforce_opt_ins :: "McpAccessPolicy \<Rightarrow> McpGlobalPolicy \<Rightarrow> McpAccessPolicy" where
  "restore_legacy_salesforce_opt_ins p legacy =
     p\<lparr>ap_rules :=
         foldl (\<lambda>rs c.
                  if cp_allow_salesforce_dml c \<and> \<not> cp_read_only c then
                    (case map_of rs (TConnection (cp_connection_id c)) of
                       None \<Rightarrow> rs
                     | Some r \<Rightarrow>
                         if ar_sub_scope r \<noteq> None
                         then bt_insert (TConnection (cp_connection_id c))
                                (r\<lparr>ar_toolset_ceilings :=
                                     bt_entry SALESFORCE_WRITE_TOOLSET LvFull (\<lambda>l. l) (ar_toolset_ceilings r)\<rparr>) rs
                         else rs)
                  else rs)
           (ap_rules p) (gp_connection_policies legacy)\<rparr>"

definition carry_sub_scope_mode :: "rules \<Rightarrow> rules \<Rightarrow> McpRuleTarget \<times> McpAccessRule \<Rightarrow> rules" where
  "carry_sub_scope_mode previous rs entry =
     (case entry of
        (TConnection cid, r) \<Rightarrow>
          (case ar_sub_scope r of
             None \<Rightarrow> rs
           | Some mode \<Rightarrow>
               if is_some_and (\<lambda>kind. kind \<noteq> ''database'') (ar_sub_scope_kind r) \<or>
                  list_ex (\<lambda>t. case t of TScope c s _ \<Rightarrow> c = cid \<and> s \<noteq> ''database'' | _ \<Rightarrow> False) (map fst previous)
               then bt_entry (TConnection cid) default_rule
                      (\<lambda>connection. connection\<lparr>ar_sub_scope := Some mode,
                                               ar_sub_scope_kind := ar_sub_scope_kind r\<rparr>) rs
               else rs)
      | _ \<Rightarrow> rs)"

definition carry_ceilings :: "rules \<Rightarrow> McpRuleTarget \<times> McpAccessRule \<Rightarrow> rules" where
  "carry_ceilings rs entry =
     (case entry of
        (TConnection cid, r) \<Rightarrow>
          if list_all (\<lambda>toolset. toolset = SALESFORCE_WRITE_TOOLSET) (map fst (ar_toolset_ceilings r)) then rs
          else bt_entry (TConnection cid) default_rule
                 (\<lambda>connection. connection\<lparr>ar_toolset_ceilings :=
                    foldl (\<lambda>m (toolset, ceiling).
                             if toolset = SALESFORCE_WRITE_TOOLSET then m
                             else bt_insert toolset
                                    (case map_of m toolset of Some current \<Rightarrow> min current ceiling
                                     | None \<Rightarrow> ceiling) m)
                      (ar_toolset_ceilings connection) (ar_toolset_ceilings r)\<rparr>) rs
      | _ \<Rightarrow> rs)"

definition carry_scope_rule :: "rules \<Rightarrow> McpRuleTarget \<times> McpAccessRule \<Rightarrow> rules" where
  "carry_scope_rule rs entry =
     (case entry of
        (TScope c s v, r) \<Rightarrow> if s \<noteq> ''database'' then bt_insert (TScope c s v) r rs else rs
      | _ \<Rightarrow> rs)"

definition with_v2_only_rules_from :: "McpAccessPolicy \<Rightarrow> McpAccessPolicy \<Rightarrow> McpAccessPolicy" where
  "with_v2_only_rules_from self previous =
     (let rs1 = foldl (carry_sub_scope_mode (ap_rules previous)) (ap_rules self) (ap_rules previous);
          rs2 = foldl carry_ceilings rs1 (ap_rules previous);
          rs3 = foldl carry_scope_rule rs2 (ap_rules previous)
      in self\<lparr>ap_rules := rs3\<rparr>)"

end
