(* ===== verification/Mcp_Equivalence.thy ===== *)
theory Mcp_Equivalence
  imports Mcp_Policy_Laws Mcp_Access_Laws Mcp_Projection
begin

text \<open>
  The access policy built from a persisted policy decides exactly what the persisted policy's own
  evaluation decides. The proof computes every lookup in the rule map \<^verbatim>\<open>from_v1\<close> builds.
\<close>

section \<open>Loops that file entries under distinct keys\<close>

lemma foldl_owned:
  assumes "\<And>m x. x \<in> set xs \<Longrightarrow> map_of (step m x) t = (if key x = k then G x (map_of m t) else map_of m t)"
    and "distinct (map key xs)"
  shows "map_of (foldl step m xs) t =
    (case List.find (\<lambda>x. key x = k) xs of None \<Rightarrow> map_of m t | Some x \<Rightarrow> G x (map_of m t))"
  using assms
proof (induction xs arbitrary: m)
  case (Cons x xs)
  then show ?case
    using find_key_None [of key k xs] by (auto split: option.splits)
qed simp

lemma foldl_entry:
  assumes "inj K" and "distinct (map key xs)"
  shows "map_of (foldl (\<lambda>m x. bt_entry (K (key x)) d (F x) m) m xs) (K k) =
    (case List.find (\<lambda>x. key x = k) xs of
       None \<Rightarrow> map_of m (K k) | Some x \<Rightarrow> Some (F x (unwrap_or d (map_of m (K k)))))"
  by (rule foldl_owned) (use assms in \<open>simp_all add: hmap_simps inj_eq\<close>)

lemma foldl_entry_other:
  assumes "\<And>x. K x \<noteq> t"
  shows "map_of (foldl (\<lambda>m x. bt_entry (K x) d (F x) m) m xs) t = map_of m t"
  by (induction xs arbitrary: m) (simp_all add: hmap_simps assms [symmetric])

lemma find_eq: "List.find (\<lambda>x. x = k) xs = (if k \<in> set xs then Some k else None)"
  by (induction xs) auto

lemma foldl_mark:
  assumes "inj K" and "distinct xs"
  shows "map_of (foldl (\<lambda>m x. bt_entry (K x) d F m) m xs) (K k) =
    (if k \<in> set xs then Some (F (unwrap_or d (map_of m (K k)))) else map_of m (K k))"
  using foldl_entry [OF assms(1), of "\<lambda>x. x" xs d "\<lambda>_. F" m k] assms(2) by (simp add: find_eq)

section \<open>The rules of one connection\<close>

definition v1_versioned :: "McpConnectionPolicy \<Rightarrow> bool" where
  "v1_versioned c \<longleftrightarrow> cp_execution_mode_policy_version c = Some MCP_EXECUTION_POLICY_VERSION"

text \<open>The rule a database of connection rule \<open>c\<close> ends with, from what the map holds for it.\<close>

definition database_rule :: "McpConnectionPolicy \<Rightarrow> string \<Rightarrow> McpAccessRule option \<Rightarrow> McpAccessRule option" where
  "database_rule c db ro =
     (let r1 = (if db \<in> set (cp_allowed_databases c)
                then Some ((unwrap_or default_rule ro)\<lparr>ar_visible := Some True\<rparr>) else ro)
      in case List.find (\<lambda>d. dp_database_name d = db) (cp_database_policies c) of
           None \<Rightarrow> r1
         | Some d \<Rightarrow>
             Some (let r = unwrap_or default_rule r1; l = from_flags (dp_read_only d) (dp_allow_dangerous_sql d)
                   in if v1_versioned c then r\<lparr>ar_access := Some l\<rparr> else r\<lparr>ar_ceiling := Some l\<rparr>))"

lemma cp_wf_distinct: "cp_wf c \<Longrightarrow> distinct (cp_allowed_databases c)"
  "cp_wf c \<Longrightarrow> distinct (map dp_database_name (cp_database_policies c))"
  by (simp_all add: cp_wf_def dps_wf_def names_wf_def strict_sorted_iff)

lemma from_v1_connection_alt:
  "from_v1_connection m c =
     foldl (\<lambda>m d. bt_entry (TScope (cp_connection_id c) ''database'' (dp_database_name d)) default_rule
              (\<lambda>r. let l = from_flags (dp_read_only d) (dp_allow_dangerous_sql d)
                   in if v1_versioned c then r\<lparr>ar_access := Some l\<rparr> else r\<lparr>ar_ceiling := Some l\<rparr>) m)
       (foldl (\<lambda>m db. bt_entry (TScope (cp_connection_id c) ''database'' db) default_rule
                 (\<lambda>r. r\<lparr>ar_visible := Some True\<rparr>) m)
          (bt_entry (TConnection (cp_connection_id c)) default_rule (from_v1_connection_rule c) m)
          (cp_allowed_databases c))
       (cp_database_policies c)"
  by (simp add: from_v1_connection_def v1_versioned_def Let_def)

lemma from_v1_connection_lookup:
  assumes "cp_wf c"
  shows "map_of (from_v1_connection m c) (TGroup g) = map_of m (TGroup g)"
    and "map_of (from_v1_connection m c) (TConnection i) =
      (if cp_connection_id c = i
       then Some (from_v1_connection_rule c (unwrap_or default_rule (map_of m (TConnection i))))
       else map_of m (TConnection i))"
    and "map_of (from_v1_connection m c) (TScope i ''database'' db) =
      (if cp_connection_id c = i then database_rule c db (map_of m (TScope i ''database'' db))
       else map_of m (TScope i ''database'' db))"
proof -
  have other: "map_of (from_v1_connection m c) t =
      map_of (bt_entry (TConnection (cp_connection_id c)) default_rule (from_v1_connection_rule c) m) t"
    if "\<And>db. TScope (cp_connection_id c) ''database'' db \<noteq> t" for t
    unfolding from_v1_connection_alt by (simp add: foldl_entry_other that)
  show "map_of (from_v1_connection m c) (TGroup g) = map_of m (TGroup g)"
    and "map_of (from_v1_connection m c) (TConnection i) =
      (if cp_connection_id c = i
       then Some (from_v1_connection_rule c (unwrap_or default_rule (map_of m (TConnection i))))
       else map_of m (TConnection i))"
    by (simp_all add: other hmap_simps)
  have inj: "inj (TScope i s)" for i s
    by (rule injI) simp
  show "map_of (from_v1_connection m c) (TScope i ''database'' db) =
      (if cp_connection_id c = i then database_rule c db (map_of m (TScope i ''database'' db))
       else map_of m (TScope i ''database'' db))"
  proof (cases "cp_connection_id c = i")
    case True
    show ?thesis
      unfolding from_v1_connection_alt True
        foldl_entry [OF inj cp_wf_distinct(2) [OF assms]] foldl_mark [OF inj cp_wf_distinct(1) [OF assms]]
      by (auto simp: database_rule_def hmap_simps Let_def split: option.split)
  next
    case False
    then show ?thesis by (simp add: other hmap_simps)
  qed
qed

section \<open>The rules of a policy\<close>

definition mark_visible :: "bool \<Rightarrow> McpAccessRule option" where
  "mark_visible b = (if b then Some (default_rule\<lparr>ar_visible := Some True\<rparr>) else None)"

definition connection_listed :: "McpGlobalPolicy \<Rightarrow> string \<Rightarrow> bool" where
  "connection_listed p c \<longleftrightarrow> c \<in> set (unwrap_or [] (gp_allowed_connection_ids p))"

locale normal_policy =
  fixes p :: McpGlobalPolicy
  assumes wf: "gp_wf p"
begin

lemma wf_distinct:
  "distinct (unwrap_or [] (gp_allowed_connection_ids p))"
  "distinct (gp_allowed_group_ids p)"
  "distinct (map grp_group_id (gp_group_policies p))"
  "distinct (map cp_connection_id (gp_connection_policies p))"
  using wf by (cases "gp_allowed_connection_ids p";
      auto simp: gp_wf_def names_wf_def grps_wf_def strict_sorted_iff)+

lemma wf_rule: "r \<in> set (gp_connection_policies p) \<Longrightarrow> cp_wf r"
  using wf by (simp add: gp_wf_def list_all_iff)

lemma found_wf: "List.find (\<lambda>r. cp_connection_id r = c) (gp_connection_policies p) = Some r \<Longrightarrow> cp_wf r"
  by (auto dest: find_key_Some intro: wf_rule)

lemma inj_targets: "inj TGroup" "inj TConnection"
  by (auto intro: injI)

lemma rules_group:
  "map_of (from_v1_rules p) (TGroup g) =
     (let m = mark_visible (g \<in> set (gp_allowed_group_ids p))
      in case List.find (\<lambda>r. grp_group_id r = g) (gp_group_policies p) of
           None \<Rightarrow> m
         | Some r \<Rightarrow> Some ((unwrap_or default_rule m)
                           \<lparr>ar_access := Some (from_flags (grp_read_only r) (grp_allow_dangerous_sql r))\<rparr>))"
proof -
  have "map_of (foldl from_v1_connection m (gp_connection_policies p)) (TGroup g) = map_of m (TGroup g)" for m
    by (subst foldl_owned [where key = cp_connection_id and k = undefined and G = "\<lambda>_ x. x"])
      (auto simp: from_v1_connection_lookup wf_rule wf_distinct split: option.split)
  then show ?thesis
    unfolding from_v1_rules_def Let_def foldl_entry [OF inj_targets(1) wf_distinct(3)]
      foldl_mark [OF inj_targets(1) wf_distinct(2)]
    by (auto simp: foldl_entry [OF inj_targets(1) wf_distinct(3)] foldl_mark [OF inj_targets(1) wf_distinct(2)]
        foldl_entry_other mark_visible_def split: option.split)
qed

lemma rules_connection:
  "map_of (from_v1_rules p) (TConnection c) =
     (let m = mark_visible (connection_listed p c)
      in case List.find (\<lambda>r. cp_connection_id r = c) (gp_connection_policies p) of
           None \<Rightarrow> m
         | Some r \<Rightarrow> Some (from_v1_connection_rule r (unwrap_or default_rule m)))"
  unfolding from_v1_rules_def Let_def
  by (subst foldl_owned [where k = c and key = cp_connection_id and
        G = "\<lambda>r x. Some (from_v1_connection_rule r (unwrap_or default_rule x))"])
    (auto simp: from_v1_connection_lookup wf_rule wf_distinct foldl_mark foldl_entry_other inj_targets
      mark_visible_def connection_listed_def split: option.split)

lemma rules_scope:
  "map_of (from_v1_rules p) (TScope c ''database'' db) =
     (case List.find (\<lambda>r. cp_connection_id r = c) (gp_connection_policies p) of
        None \<Rightarrow> None
      | Some r \<Rightarrow> database_rule r db None)"
  unfolding from_v1_rules_def Let_def
  by (subst foldl_owned [where k = c and key = cp_connection_id and G = "\<lambda>r x. database_rule r db x"])
    (auto simp: from_v1_connection_lookup wf_rule wf_distinct foldl_entry_other split: option.split)

end

interpretation nf: normal_policy "normalized p" for p
  by unfold_locales (rule gp_wf_normalized)

section \<open>Decisions\<close>

lemma rule_from_v1: "rule (from_v1 p) t = map_of (from_v1_rules (normalized p)) t"
  by (simp add: rule_def from_v1_def Let_def)

lemma mark_visible_simps [simp]:
  "Option.bind (mark_visible b) ar_visible = (if b then Some True else None)"
  "Option.bind (mark_visible b) ar_access = None"
  "Option.bind (mark_visible b) ar_sub_scope = None"
  "applied (mark_visible b) l = l"
  "ar_visible (unwrap_or default_rule (mark_visible b)) = (if b then Some True else None)"
  "ar_access (unwrap_or default_rule (mark_visible b)) = None"
  "ar_ceiling (unwrap_or default_rule (mark_visible b)) = None"
  "ar_toolset_ceilings (unwrap_or default_rule (mark_visible b)) = []"
  by (simp_all add: mark_visible_def default_rule_def applied_def)

lemma connection_rule_fields:
  "ar_visible (from_v1_connection_rule r x) = ar_visible x"
  "ar_sub_scope (from_v1_connection_rule r x) = Some (sub_scope_of (cp_database_scope r))"
  by (simp_all add: from_v1_connection_rule_def Let_def)

lemma connection_visible_from_v1:
  "connection_visible (from_v1 p) (case path of None \<Rightarrow> [] | Some q \<Rightarrow> path_ids q) c =
   policy_allows_connection (normalized p) path c"
proof -
  let ?n = "normalized p"
  have conn: "Option.bind (connection_rule (from_v1 p) c) ar_visible = (if connection_listed ?n c then Some True else None)"
    by (simp add: connection_rule_def rule_from_v1 nf.rules_connection Let_def connection_rule_fields
        split: option.split)
  have mode: "ap_visibility (from_v1 p) = (if gp_allowed_connection_ids ?n \<noteq> None then VisSelected else VisAll)"
    by (simp add: from_v1_def Let_def)
  have grp: "Option.bind (rule (from_v1 p) (TGroup g)) ar_visible =
      (if g \<in> set (gp_allowed_group_ids ?n) then Some True else None)" for g
    by (simp add: rule_from_v1 nf.rules_group Let_def split: option.split)
  show ?thesis
    by (cases path; cases "gp_allowed_connection_ids ?n")
      (auto simp: connection_visible_def Let_def conn grp policy_allows_connection_def mode
        connection_listed_def list_ex_iff)
qed

lemma group_level_from_v1:
  "group_level (from_v1 p) gs = from_flags_pair (group_execution_policy (normalized p) gs)"
proof -
  let ?n = "normalized p"
  let ?f = "\<lambda>effective group_id.
              case List.find (\<lambda>r. grp_group_id r = group_id) (gp_group_policies ?n) of
                Some r \<Rightarrow> (grp_read_only r, \<not> grp_read_only r \<and> grp_allow_dangerous_sql r)
              | None \<Rightarrow> effective"
  have grp: "Option.bind (rule (from_v1 p) (TGroup g)) ar_access =
      map_option (\<lambda>r. from_flags (grp_read_only r) (grp_allow_dangerous_sql r))
        (List.find (\<lambda>r. grp_group_id r = g) (gp_group_policies ?n))" for g
    by (simp add: rule_from_v1 nf.rules_group Let_def split: option.split)
  have step: "unwrap_or (from_flags_pair f) (Option.bind (rule (from_v1 p) (TGroup g)) ar_access) =
      from_flags_pair (?f f g)" for f g
    by (auto simp: grp from_flags_pair_def split: option.split)
  have "foldl (\<lambda>l g. unwrap_or l (Option.bind (rule (from_v1 p) (TGroup g)) ar_access)) (from_flags_pair f) gs
      = from_flags_pair (foldl ?f f gs)" for f
    by (induction gs arbitrary: f) (simp_all only: foldl.simps step)
  from this [of "(gp_read_only ?n, gp_allow_dangerous_sql ?n)"] show ?thesis
    by (simp add: group_level_def group_execution_policy_def from_flags_pair_def from_v1_def Let_def)
qed

lemma applied_connection_rule:
  "applied (Some (from_v1_connection_rule r (unwrap_or default_rule (mark_visible b)))) (from_flags_pair f) =
   from_flags_pair
     (if cp_execution_mode_configured r
      then (if v1_versioned r then (cp_read_only r, \<not> cp_read_only r \<and> cp_allow_dangerous_sql r)
            else apply_ceiling f (cp_read_only r, cp_allow_dangerous_sql r))
      else f)"
  by (auto simp: applied_def from_v1_connection_rule_def Let_def v1_versioned_def apply_ceiling_min)
    (simp_all add: from_flags_pair_def)

lemma applied_database_rule:
  "applied (database_rule r db None) (from_flags_pair f) =
   from_flags_pair
     (case List.find (\<lambda>d. dp_database_name d = db) (cp_database_policies r) of
        None \<Rightarrow> f
      | Some d \<Rightarrow>
          if v1_versioned r then (dp_read_only d, \<not> dp_read_only d \<and> dp_allow_dangerous_sql d)
          else apply_ceiling f (dp_read_only d, dp_allow_dangerous_sql d))"
  by (auto simp: applied_def database_rule_def default_rule_def Let_def apply_ceiling_min split: option.split)
    (simp_all add: from_flags_pair_def)

lemma no_empty_database:
  "List.find (\<lambda>r. cp_connection_id r = c) (gp_connection_policies (normalized p)) = Some r \<Longrightarrow>
   List.find (\<lambda>d. dp_database_name d = []) (cp_database_policies r) = None"
  by (drule nf.found_wf) (auto simp: find_key_None cp_wf_def dps_wf_def names_wf_def)

lemma scoped_level_from_v1:
  "scoped_level (from_v1 p) gs c (if db = [] then None else Some (''database'', db)) =
   from_flags_pair (effective_database_execution_policy_with_groups (normalized p) gs c db)"
proof (cases "List.find (\<lambda>r. cp_connection_id r = c) (gp_connection_policies (normalized p))")
  case None
  then show ?thesis
    by (simp add: scoped_level_def connection_rule_def rule_from_v1 nf.rules_connection nf.rules_scope
        group_level_from_v1 effective_database_execution_policy_with_groups_def Let_def)
next
  case (Some r)
  then show ?thesis
    using no_empty_database [OF Some]
    by (auto simp: scoped_level_def connection_rule_def rule_from_v1 nf.rules_connection nf.rules_scope
        group_level_from_v1 applied_connection_rule applied_database_rule v1_versioned_def
        effective_database_execution_policy_with_groups_def Let_def split: option.split)
qed

lemma sub_scope_visible_from_v1:
  "sub_scope_visible (from_v1 p) c ''database'' db \<longleftrightarrow>
   ensure_database_in_scope (database_scope_for_connection (normalized p) c) db = Inr ()"
proof (cases "List.find (\<lambda>r. cp_connection_id r = c) (gp_connection_policies (normalized p))")
  case None
  then show ?thesis
    by (simp add: sub_scope_visible_def connection_rule_def rule_from_v1 nf.rules_connection nf.rules_scope
        database_scope_for_connection_def ensure_database_in_scope_def Let_def)
next
  case (Some r)
  have vis: "Option.bind (database_rule r db None) ar_visible =
      (if db \<in> set (cp_allowed_databases r) then Some True else None)"
    by (auto simp: database_rule_def default_rule_def Let_def split: option.split)
  show ?thesis
    using Some
    by (cases "cp_database_scope r")
      (auto simp: sub_scope_visible_def connection_rule_def rule_from_v1 nf.rules_connection nf.rules_scope vis
        connection_rule_fields database_scope_for_connection_def ensure_database_in_scope_def Let_def
        sub_scope_of_def list_ex_iff)
qed

section \<open>Properties\<close>

text \<open>
  C2: the access policy built from a persisted policy reproduces every decision of that policy.
  For every group path, connection and database, the connection is visible exactly when the
  allowlists admit it, the database is visible exactly when the connection's database scope
  admits it too, and the execution flags are the ones the persisted policy evaluates to.
\<close>
theorem decide_from_v1:
  "decide (from_v1 p) (case path of None \<Rightarrow> [] | Some q \<Rightarrow> path_ids q) c db =
     \<lparr>dd_connection_visible = policy_allows_connection (normalized p) path c,
      dd_database_visible =
        (policy_allows_connection (normalized p) path c \<and>
         (db = [] \<or> ensure_database_in_scope (database_scope_for_connection (normalized p) c) db = Inr ())),
      dd_flags =
        effective_database_execution_policy_with_groups (normalized p)
          (case path of None \<Rightarrow> [] | Some q \<Rightarrow> path_ids q) c db\<rparr>"
proof -
  let ?gs = "case path of None \<Rightarrow> [] | Some q \<Rightarrow> path_ids q"
  let ?e = "effective_database_execution_policy_with_groups (normalized p) ?gs c db"
  have "flags_ok ?e" by (rule effective_flags_ok)
  then have "to_flags (max (from_flags_pair ?e) LvRead) = ?e"
    by (cases ?e) (auto simp: from_flags_pair_def flags_ok_def level_simps)
  then show ?thesis
    by (simp add: decide_def Let_def connection_visible_from_v1 sub_scope_visible_from_v1
        resolve_level resolve_visible resolve_ignoring_visibility
        scoped_level_from_v1 [symmetric] cong: if_cong split: if_splits)
qed

text \<open>
  The Salesforce opt-in survives: calls of the Salesforce write toolset are capped at full
  access for a connection whose persisted rule allows Salesforce writes and is not read-only, and
  at read access for every other connection.
\<close>
theorem salesforce_ceiling_from_v1:
  "toolset_ceiling (from_v1 p) c SALESFORCE_WRITE_TOOLSET =
     Some (if connection_allows_salesforce_dml (normalized p) c then LvFull else LvRead)"
  by (auto simp: toolset_ceiling_def connection_rule_def rule_from_v1 nf.rules_connection Let_def
      from_v1_connection_rule_def salesforce_ceiling_v1_def connection_allows_salesforce_dml_def hmap_simps
      mark_visible_def default_rule_def split: option.split)

end
