(* ===== verification/Mcp_Never_Wider.thy ===== *)
theory Mcp_Never_Wider
  imports Mcp_Equivalence
begin

text \<open>
  The projection of an access policy onto the persisted policy, \<^verbatim>\<open>to_v1\<close>, never grants more
  than the access policy. The proof gives each field of the projected policy a closed form over
  the rules, then compares the two evaluations.
\<close>

section \<open>Closed forms of the projection loop\<close>

definition hides :: "McpAccessPolicy \<Rightarrow> string \<Rightarrow> McpAccessRule \<Rightarrow> bool" where
  "hides p c r \<longleftrightarrow>
     ar_visible r = Some False \<or> ar_access r = Some LvNone \<or> ar_ceiling r = Some LvNone \<or>
     connection_level p c r = Some LvNone"

definition rule_hidden :: "McpAccessRule \<Rightarrow> bool" where
  "rule_hidden r \<longleftrightarrow> ar_visible r = Some False \<or> ar_access r = Some LvNone \<or> ar_ceiling r = Some LvNone"

fun target_owner :: "McpRuleTarget \<Rightarrow> string option" where
  "target_owner (TGroup _) = None"
| "target_owner (TConnection c) = Some c"
| "target_owner (TScope c _ _) = Some c"

text \<open>What one rule does to the policy of the connection it belongs to.\<close>

definition owned_step :: "McpAccessPolicy \<Rightarrow> string \<Rightarrow> McpConnectionPolicy \<Rightarrow> McpRuleTarget \<times> McpAccessRule \<Rightarrow> McpConnectionPolicy" where
  "owned_step p c policy e =
     (case fst e of
        TGroup _ \<Rightarrow> policy
      | TConnection _ \<Rightarrow> project_connection_policy p c (snd e) policy
      | TScope _ s v \<Rightarrow> project_scope_policy p c s v (snd e) policy)"

definition owned :: "McpAccessPolicy \<Rightarrow> string \<Rightarrow> (McpRuleTarget \<times> McpAccessRule) list" where
  "owned p c = filter (\<lambda>e. target_owner (fst e) = Some c) (ap_rules p)"

definition owned_policy :: "McpAccessPolicy \<Rightarrow> string \<Rightarrow> McpConnectionPolicy" where
  "owned_policy p c = foldl (owned_step p c) (blank c) (owned p c)"

lemma owned_step_simps [simp]:
  "owned_step p c pol (TConnection c', r) = project_connection_policy p c r pol"
  "owned_step p c pol (TScope c' s v, r) = project_scope_policy p c s v r pol"
  by (simp_all add: owned_step_def)

lemma project_rule_hidden:
  "set (pj_hidden_connections (foldl (project_rule p) s es)) =
   set (pj_hidden_connections s) \<union> {c. \<exists>r. (TConnection c, r) \<in> set es \<and> hides p c r}"
proof (induction es arbitrary: s)
  case (Cons e es)
  have "set (pj_hidden_connections (project_rule p s e)) =
      set (pj_hidden_connections s) \<union> {c. \<exists>r. (TConnection c, r) = e \<and> hides p c r}"
    by (cases e; cases "fst e")
      (auto simp: project_rule_def project_group_def project_connection_def hides_def Let_def
        split: option.splits prod.splits)
  then show ?case using Cons.IH [of "project_rule p s e"] by auto
qed simp

lemma project_rule_allowed:
  "pj_allowed_connection_ids (foldl (project_rule p) s es) = None \<longleftrightarrow> pj_allowed_connection_ids s = None"
  "set (unwrap_or [] (pj_allowed_connection_ids (foldl (project_rule p) s es))) \<subseteq>
   set (unwrap_or [] (pj_allowed_connection_ids s)) \<union> {c. \<exists>r. (TConnection c, r) \<in> set es \<and> ar_visible r = Some True}"
proof (induction es arbitrary: s)
  case (Cons e es)
  have step: "pj_allowed_connection_ids (project_rule p s e) = None \<longleftrightarrow> pj_allowed_connection_ids s = None"
    "set (unwrap_or [] (pj_allowed_connection_ids (project_rule p s e))) \<subseteq>
      set (unwrap_or [] (pj_allowed_connection_ids s)) \<union> {c. \<exists>r. (TConnection c, r) = e \<and> ar_visible r = Some True}" for s
    by (cases e; cases "fst e"; cases "pj_allowed_connection_ids s";
        auto simp: project_rule_def project_group_def project_connection_def Let_def
        split: option.splits prod.splits if_splits)+
  { case 1 show ?case using Cons.IH(1) [of "project_rule p s e"] step(1) [of s] by simp
  next
    case 2 show ?case using Cons.IH(2) [of "project_rule p s e"] step(2) [of s] by auto
  }
qed simp_all

lemma project_rule_groups:
  "set (pj_allowed_group_ids (foldl (project_rule p) s es)) \<subseteq>
   set (pj_allowed_group_ids s) \<union> {g. \<exists>r. (TGroup g, r) \<in> set es \<and> ar_visible r = Some True}"
proof (induction es arbitrary: s)
  case (Cons e es)
  have "set (pj_allowed_group_ids (project_rule p s e)) \<subseteq>
      set (pj_allowed_group_ids s) \<union> {g. \<exists>r. (TGroup g, r) = e \<and> ar_visible r = Some True}"
    by (cases e; cases "fst e")
      (auto simp: project_rule_def project_group_def project_connection_def Let_def
        split: option.splits prod.splits if_splits)
  then show ?case using Cons.IH [of "project_rule p s e"] by auto
qed simp

definition group_row :: "McpRuleTarget \<times> McpAccessRule \<Rightarrow> McpGroupPolicy option" where
  "group_row e =
     (case fst e of
        TGroup g \<Rightarrow> map_option (\<lambda>l. \<lparr>grp_group_id = g, grp_read_only = fst (to_flags (max l LvRead)),
                                    grp_allow_dangerous_sql = snd (to_flags (max l LvRead))\<rparr>) (ar_access (snd e))
      | _ \<Rightarrow> None)"

lemma project_rule_group_policies:
  "pj_group_policies (foldl (project_rule p) s es) = pj_group_policies s @ List.map_filter group_row es"
proof (induction es arbitrary: s)
  case (Cons e es)
  have "pj_group_policies (project_rule p s e) = pj_group_policies s @ List.map_filter group_row [e]"
    by (cases e; cases "fst e")
      (auto simp: project_rule_def project_group_def project_connection_def Let_def group_row_def map_filter_simps
        split: option.splits prod.splits)
  then show ?case using Cons.IH [of "project_rule p s e"]
    by (simp add: map_filter_simps split: option.split)
qed (simp add: map_filter_simps)

lemma project_rule_policies:
  "bt_wf (pj_connection_policies s) \<Longrightarrow> bt_wf (pj_connection_policies (foldl (project_rule p) s es))"
  "map_of (pj_connection_policies (foldl (project_rule p) s es)) c =
   foldl (\<lambda>o' e. Some (owned_step p c (unwrap_or (blank c) o') e)) (map_of (pj_connection_policies s) c)
     (filter (\<lambda>e. target_owner (fst e) = Some c) es)"
proof (induction es arbitrary: s)
  case (Cons e es)
  have step: "map_of (pj_connection_policies (project_rule p s e)) c =
      (if target_owner (fst e) = Some c then Some (owned_step p c (unwrap_or (blank c) (map_of (pj_connection_policies s) c)) e)
       else map_of (pj_connection_policies s) c)" for s
    by (cases "fst e")
      (auto simp: project_rule_def project_group_def project_connection_def owned_step_def Let_def hmap_simps
        split: option.splits prod.splits)
  have wf: "bt_wf (pj_connection_policies s) \<Longrightarrow> bt_wf (pj_connection_policies (project_rule p s e))" for s
    by (cases "fst e")
      (auto simp: project_rule_def project_group_def project_connection_def Let_def
        split: option.splits prod.splits)
  { case 1 then show ?case using Cons.IH(1) [of "project_rule p s e"] wf by simp
  next
    case 2 show ?case using Cons.IH(2) [of "project_rule p s e"] by (simp add: step)
  }
qed simp_all

lemma foldl_Some: "foldl (\<lambda>o' e. Some (f (unwrap_or b o') e)) (Some a) es = Some (foldl f a es)"
  by (induction es arbitrary: a) simp_all

lemma project_rules_policy:
  "map_of (pj_connection_policies (project_rules p)) c =
   (if owned p c = [] then None else Some (owned_policy p c))"
  by (cases "owned p c")
    (simp_all add: project_rules_def project_rule_policies(2) owned_policy_def foldl_Some owned_def [symmetric])

lemma min_None [simp]: "min a b = LvNone \<longleftrightarrow> a = LvNone \<or> b = LvNone"
  by (cases a; cases b) (simp_all add: min_def level_le)

lemma find_filter_key:
  "List.find (\<lambda>x. f x = k) (filter (\<lambda>x. P (f x)) xs) = (if P k then List.find (\<lambda>x. f x = k) xs else None)"
  by (induction xs) auto

text \<open>Rows read off the rules, each named after the target of its rule.\<close>

lemma map_filter_rows:
  assumes "\<forall>e \<in> set es. \<forall>d. f e = Some d \<longrightarrow> fst e = K (key d)" and "inj K" and "distinct (map fst es)"
  shows "List.find (\<lambda>d. key d = k) (List.map_filter f es) = Option.bind (map_of es (K k)) (\<lambda>r. f (K k, r))"
    and "distinct (map key (List.map_filter f es))"
    and "d \<in> set (List.map_filter f es) \<Longrightarrow> K (key d) \<in> fst ` set es"
proof -
  have "List.find (\<lambda>d. key d = k) (List.map_filter f es) = Option.bind (map_of es (K k)) (\<lambda>r. f (K k, r)) \<and>
      distinct (map key (List.map_filter f es)) \<and> (\<forall>d \<in> set (List.map_filter f es). K (key d) \<in> fst ` set es)"
    using assms
  proof (induction es)
    case (Cons e es)
    obtain t r where e: "e = (t, r)" by fastforce
    have ih: "List.find (\<lambda>d. key d = k) (List.map_filter f es) = Option.bind (map_of es (K k)) (\<lambda>r. f (K k, r))"
      "distinct (map key (List.map_filter f es))" "\<forall>d \<in> set (List.map_filter f es). K (key d) \<in> fst ` set es"
      using Cons by auto
    have none: "map_of es t = None" "t \<notin> fst ` set es" using Cons.prems e by (simp_all add: map_of_eq_None_iff)
    show ?case
    proof (cases "f e")
      case None
      then show ?thesis using ih none by (auto simp: e map_filter_simps)
    next
      case (Some d)
      then have t: "t = K (key d)" using Cons.prems(1) e by auto
      then have "key d \<notin> key ` set (List.map_filter f es)" using ih(3) none by auto
      then show ?thesis
        using Some t ih none \<open>inj K\<close> by (auto simp: e map_filter_simps inj_eq)
    qed
  qed (simp add: map_filter_simps)
  then show "List.find (\<lambda>d. key d = k) (List.map_filter f es) = Option.bind (map_of es (K k)) (\<lambda>r. f (K k, r))"
    and "distinct (map key (List.map_filter f es))"
    and "d \<in> set (List.map_filter f es) \<Longrightarrow> K (key d) \<in> fst ` set es"
    by blast+
qed

section \<open>The projected policy of one connection\<close>

definition scope_level :: "McpAccessPolicy \<Rightarrow> string \<Rightarrow> McpAccessRule \<Rightarrow> McpAccessLevel option" where
  "scope_level p c r = map_option (capped (projected_toolset_ceiling p c)) (pinned_level p c r)"

definition database_row :: "McpAccessPolicy \<Rightarrow> string \<Rightarrow> McpRuleTarget \<times> McpAccessRule \<Rightarrow> McpDatabasePolicy option" where
  "database_row p c e =
     (case fst e of
        TScope _ s v \<Rightarrow>
          if s = ''database'' \<and> \<not> rule_hidden (snd e)
          then map_option (\<lambda>l. \<lparr>dp_database_name = v, dp_read_only = fst (to_flags (max l LvRead)),
                 dp_allow_dangerous_sql = snd (to_flags (max l LvRead))\<rparr>) (scope_level p c (snd e))
          else None
      | _ \<Rightarrow> None)"

definition listed_databases :: "string \<Rightarrow> (McpRuleTarget \<times> McpAccessRule) list \<Rightarrow> string set" where
  "listed_databases c es =
     {v. \<exists>r. (TScope c ''database'' v, r) \<in> set es \<and> ar_visible r = Some True \<and> \<not> rule_hidden r}"

lemma project_scope_policy_fields:
  "cp_connection_id (project_scope_policy p c s v r pol) = cp_connection_id pol"
  "cp_read_only (project_scope_policy p c s v r pol) = cp_read_only pol"
  "cp_allow_dangerous_sql (project_scope_policy p c s v r pol) = cp_allow_dangerous_sql pol"
  "cp_execution_mode_configured (project_scope_policy p c s v r pol) = cp_execution_mode_configured pol"
  "cp_execution_mode_policy_version (project_scope_policy p c s v r pol) = cp_execution_mode_policy_version pol"
  "cp_allow_salesforce_dml (project_scope_policy p c s v r pol) = cp_allow_salesforce_dml pol"
  "cp_database_scope (project_scope_policy p c s v r pol) = DbNone \<or>
   cp_database_scope (project_scope_policy p c s v r pol) = cp_database_scope pol"
  "cp_allowed_databases (project_scope_policy p c s v r pol) = cp_allowed_databases pol @
     (if s = ''database'' \<and> ar_visible r = Some True \<and> \<not> rule_hidden r then [v] else [])"
  "cp_database_policies (project_scope_policy p c s v r pol) =
   cp_database_policies pol @ List.map_filter (database_row p c) [(TScope c s v, r)]"
  by (auto simp: project_scope_policy_def rule_hidden_def database_row_def scope_level_def capped_def Let_def
      map_filter_simps option_filter_def split: option.splits prod.splits)

lemma project_connection_policy_fields:
  "cp_connection_id (project_connection_policy p c r pol) = cp_connection_id pol"
  "cp_execution_mode_policy_version (project_connection_policy p c r pol) = cp_execution_mode_policy_version pol"
  "cp_allowed_databases (project_connection_policy p c r pol) = cp_allowed_databases pol"
  "cp_database_policies (project_connection_policy p c r pol) = cp_database_policies pol"
  "cp_database_scope (project_connection_policy p c r pol) = database_scope_of (unwrap_or SubAll (ar_sub_scope r))"
  by (auto simp: project_connection_policy_def Let_def split: option.splits prod.splits)

lemma project_connection_policy_flags:
  "connection_level p c r = None \<Longrightarrow>
     cp_read_only (project_connection_policy p c r pol) = cp_read_only pol \<and>
     cp_allow_dangerous_sql (project_connection_policy p c r pol) = cp_allow_dangerous_sql pol \<and>
     cp_execution_mode_configured (project_connection_policy p c r pol) = cp_execution_mode_configured pol"
  "connection_level p c r = Some l \<Longrightarrow>
     (cp_read_only (project_connection_policy p c r pol),
      cp_allow_dangerous_sql (project_connection_policy p c r pol)) = to_flags (max l LvRead) \<and>
     cp_execution_mode_configured (project_connection_policy p c r pol)"
  "cp_allow_salesforce_dml (project_connection_policy p c r pol) \<Longrightarrow>
     is_some_and (\<lambda>l. l > LvRead) (map_of (ar_toolset_ceilings r) SALESFORCE_WRITE_TOOLSET)"
  by (auto simp: project_connection_policy_def Let_def split: prod.splits)

lemma owned_fold_simple:
  assumes "\<And>e. e \<in> set es \<Longrightarrow> target_owner (fst e) = Some c"
  shows "cp_connection_id (foldl (owned_step p c) (blank c) es) = c"
    and "cp_execution_mode_policy_version (foldl (owned_step p c) (blank c) es) = Some MCP_EXECUTION_POLICY_VERSION"
    and "cp_database_policies (foldl (owned_step p c) (blank c) es) = List.map_filter (database_row p c) es"
    and "set (cp_allowed_databases (foldl (owned_step p c) (blank c) es)) = listed_databases c es"
  using assms
proof (induction es rule: rev_induct)
  case Nil
  { case 1 show ?case by (simp add: blank_def)
  next case 2 show ?case by (simp add: blank_def)
  next case 3 show ?case by (simp add: blank_def map_filter_simps)
  next case 4 show ?case by (simp add: blank_def listed_databases_def)
  }
next
  case (snoc e es)
  have filter_append: "List.map_filter f (xs @ ys) = List.map_filter f xs @ List.map_filter f ys"
    for f :: "McpRuleTarget \<times> McpAccessRule \<Rightarrow> McpDatabasePolicy option" and xs ys
    by (simp add: List.map_filter_def)
  note fields = owned_step_def project_scope_policy_fields(1-6,8,9) project_connection_policy_fields
  { case 1 then show ?case using snoc.IH(1) by (cases "fst e") (simp_all add: fields)
  next case 2 then show ?case using snoc.IH(2) by (cases "fst e") (simp_all add: fields)
  next
    case 3
    then have "target_owner (fst e) = Some c" by simp
    then show ?case using 3 snoc.IH(3)
      by (cases e; cases "fst e") (simp_all add: fields filter_append, simp_all add: database_row_def map_filter_simps)
  next
    case 4
    then have "target_owner (fst e) = Some c" by simp
    then show ?case using 4 snoc.IH(4)
      by (cases e; cases "fst e") (auto simp: fields listed_databases_def split: if_splits)
  }
qed

text \<open>What the connection's own rule, if there is one, decides of its policy.\<close>

definition pinned_by :: "McpAccessPolicy \<Rightarrow> string \<Rightarrow> McpAccessRule option \<Rightarrow> McpConnectionPolicy \<Rightarrow> bool" where
  "pinned_by p c ro pol \<longleftrightarrow>
     (case Option.bind ro (connection_level p c) of
        None \<Rightarrow> \<not> cp_execution_mode_configured pol
      | Some l \<Rightarrow> cp_execution_mode_configured pol \<and> (cp_read_only pol, cp_allow_dangerous_sql pol) = to_flags (max l LvRead)) \<and>
     (cp_allow_salesforce_dml pol \<longrightarrow>
        is_some_and (\<lambda>r. is_some_and (\<lambda>l. l > LvRead) (map_of (ar_toolset_ceilings r) SALESFORCE_WRITE_TOOLSET)) ro) \<and>
     (cp_database_scope pol = DbNone \<or>
      cp_database_scope pol = database_scope_of (unwrap_or SubAll (Option.bind ro ar_sub_scope)))"

lemma pinned_by_scope_step: "pinned_by p c ro pol \<Longrightarrow> pinned_by p c ro (project_scope_policy p c s v r pol)"
  using project_scope_policy_fields(7) [of p c s v r pol]
  unfolding pinned_by_def project_scope_policy_fields(1-6) by (elim disjE) simp_all

lemma pinned_by_connection_step:
  "pinned_by p c None pol \<Longrightarrow> pinned_by p c (Some r) (project_connection_policy p c r pol)"
  using project_connection_policy_flags [of p c r]
  by (auto simp: pinned_by_def project_connection_policy_fields split: option.split)

lemma owned_fold_pinned:
  assumes "\<And>e. e \<in> set es \<Longrightarrow> target_owner (fst e) = Some c" and "distinct (map fst es)"
  shows "pinned_by p c (map_of es (TConnection c)) (foldl (owned_step p c) (blank c) es)"
  using assms
proof (induction es rule: rev_induct)
  case Nil
  show ?case by (simp add: pinned_by_def blank_def database_scope_of_def)
next
  case (snoc e es)
  let ?pol = "foldl (owned_step p c) (blank c) es"
  have ih: "pinned_by p c (map_of es (TConnection c)) ?pol" using snoc by simp
  show ?case
  proof (cases "fst e")
    case (TGroup g)
    then show ?thesis using snoc.prems(1) [of e] by simp
  next
    case (TConnection c')
    moreover have "target_owner (fst e) = Some c" using snoc.prems(1) by simp
    ultimately have "fst e = TConnection c" and "map_of es (TConnection c) = None"
      using snoc.prems(2) by (auto simp: map_of_eq_None_iff)
    then show ?thesis using ih by (cases e) (simp add: map_add_def pinned_by_connection_step)
  next
    case (TScope c' s v)
    then show ?thesis using ih by (cases e; cases "map_of es (TConnection c)") (simp_all add: pinned_by_scope_step map_add_def)
  qed
qed

text \<open>Rule maps whose keys are the trimmed, non-blank identifiers the policy editor stores.\<close>

fun target_ids :: "McpRuleTarget \<Rightarrow> string list" where
  "target_ids (TGroup g) = [g]"
| "target_ids (TConnection c) = [c]"
| "target_ids (TScope c s v) = [c, v]"

definition rules_wf :: "rules \<Rightarrow> bool" where
  "rules_wf rs \<longleftrightarrow> bt_wf rs \<and> list_all (\<lambda>t. list_all (\<lambda>i. trim i = i \<and> i \<noteq> []) (target_ids t)) (map fst rs)"

locale access_rules =
  fixes p :: McpAccessPolicy
  assumes wf: "rules_wf (ap_rules p)"
begin

lemma bt: "bt_wf (ap_rules p)"
  using wf by (simp add: rules_wf_def)

lemma mem_rules: "(t, r) \<in> set (ap_rules p) \<longleftrightarrow> rule p t = Some r"
  by (simp add: bt_mem_iff [OF bt] rule_def)

lemma trimmed: "rule p t = Some r \<Longrightarrow> i \<in> set (target_ids t) \<Longrightarrow> trim i = i \<and> i \<noteq> []"
  using wf by (auto simp: rules_wf_def list_all_iff mem_rules [symmetric])

lemma mem_owned: "(t, r) \<in> set (owned p c) \<longleftrightarrow> target_owner t = Some c \<and> rule p t = Some r"
  by (auto simp: owned_def mem_rules)

lemma owned_owner: "e \<in> set (owned p c) \<Longrightarrow> target_owner (fst e) = Some c"
  by (simp add: owned_def)

lemma distinct_owned: "distinct (map fst (owned p c))"
  using bt by (simp add: owned_def bt_wf_iff distinct_map_filter)

lemma connection_owned: "map_of (owned p c) (TConnection c) = connection_rule p c"
proof -
  have "map_of (owned p c) (TConnection c) = Some r \<longleftrightarrow> connection_rule p c = Some r" for r
    using distinct_owned [of c] mem_owned [of "TConnection c" r c] by (simp add: connection_rule_def)
  then show ?thesis by (metis not_Some_eq)
qed

lemma owned_pinned: "pinned_by p c (connection_rule p c) (owned_policy p c)"
  using owned_fold_pinned [of "owned p c" c p] owned_owner distinct_owned
  by (simp add: connection_owned owned_policy_def)

lemmas owned_fields = owned_fold_simple [of "owned p c" c p for c, folded owned_policy_def, OF owned_owner]

lemma listed_owned:
  "v \<in> listed_databases c (owned p c) \<longleftrightarrow>
   (\<exists>r. rule p (TScope c ''database'' v) = Some r \<and> ar_visible r = Some True \<and> \<not> rule_hidden r)"
  by (auto simp: listed_databases_def mem_owned)

lemma find_database_row:
  "List.find (\<lambda>d. dp_database_name d = v) (List.map_filter (database_row p c) (owned p c)) =
   Option.bind (rule p (TScope c ''database'' v)) (\<lambda>r. database_row p c (TScope c ''database'' v, r))"
  "distinct (map dp_database_name (List.map_filter (database_row p c) (owned p c)))"
  "\<forall>d \<in> set (List.map_filter (database_row p c) (owned p c)).
     trim (dp_database_name d) = dp_database_name d \<and> dp_database_name d \<noteq> []"
proof -
  have row: "\<forall>e \<in> set (owned p c). \<forall>d. database_row p c e = Some d \<longrightarrow> fst e = TScope c ''database'' (dp_database_name d)"
    using owned_owner by (fastforce simp: database_row_def split: McpRuleTarget.splits if_splits)
  have inj: "inj (TScope c ''database'')" by (rule injI) simp
  note rows = map_filter_rows [where f = "database_row p c" and key = dp_database_name, OF row inj distinct_owned]
  have "map_of (owned p c) (TScope c ''database'' v) = rule p (TScope c ''database'' v)"
    using distinct_owned [of c] mem_owned [of "TScope c ''database'' v" _ c]
    by (metis map_of_eq_Some_iff not_Some_eq target_owner.simps(3))
  then show "List.find (\<lambda>d. dp_database_name d = v) (List.map_filter (database_row p c) (owned p c)) =
      Option.bind (rule p (TScope c ''database'' v)) (\<lambda>r. database_row p c (TScope c ''database'' v, r))"
    using rows(1) [of v] by simp
  show "distinct (map dp_database_name (List.map_filter (database_row p c) (owned p c)))"
    using rows(2) by simp
  show "\<forall>d \<in> set (List.map_filter (database_row p c) (owned p c)).
     trim (dp_database_name d) = dp_database_name d \<and> dp_database_name d \<noteq> []"
    using rows(3) trimmed mem_owned by fastforce
qed

subsection \<open>The lists of connections and groups\<close>

lemma hidden_rules: "set (pj_hidden_connections (project_rules p)) = {c. \<exists>r. connection_rule p c = Some r \<and> hides p c r}"
  by (simp add: project_rules_def project_rule_hidden mem_rules connection_rule_def)

lemma hide_fold:
  "pj_group_policies (foldl hide_connection s cs) = pj_group_policies s"
  "pj_hidden_connections (foldl hide_connection s cs) = pj_hidden_connections s"
  "c \<notin> set cs \<Longrightarrow> map_of (pj_connection_policies (foldl hide_connection s cs)) c = map_of (pj_connection_policies s) c"
  "bt_wf (pj_connection_policies s) \<Longrightarrow> bt_wf (pj_connection_policies (foldl hide_connection s cs))"
  by (induction cs arbitrary: s) (auto simp: hide_connection_def hmap_simps bt_wf_entry)

definition promoted :: projection where
  "promoted = (project_rules p)\<lparr>pj_connection_policies :=
     map (\<lambda>(cid, policy). (cid, promote_scope p policy)) (pj_connection_policies (project_rules p))\<rparr>"

definition hidden_ids :: "string list" where
  "hidden_ids = pj_hidden_connections (project_rules p)"

lemma project_all_alt:
  "project_all p =
     (let s3 = foldl hide_connection promoted hidden_ids
      in if hidden_ids \<noteq> [] \<or> restricted_ancestors p
         then s3\<lparr>pj_allowed_connection_ids := Some (explicitly_visible p hidden_ids), pj_allowed_group_ids := []\<rparr>
         else s3)"
  by (simp add: project_all_def Let_def promoted_def hidden_ids_def hide_fold)

lemma map_of_promoted:
  "map_of (pj_connection_policies promoted) c =
   (if owned p c = [] then None else Some (promote_scope p (owned_policy p c)))"
proof -
  have "map_of (map (\<lambda>(k, v). (k, f v)) m) c = map_option f (map_of m c)"
    for f :: "McpConnectionPolicy \<Rightarrow> McpConnectionPolicy" and m and c :: string
    by (induction m) auto
  then show ?thesis by (simp add: promoted_def project_rules_policy)
qed

lemma map_of_project_all:
  "c \<notin> set hidden_ids \<Longrightarrow> map_of (pj_connection_policies (project_all p)) c =
   (if owned p c = [] then None else Some (promote_scope p (owned_policy p c)))"
  by (simp add: project_all_alt Let_def hide_fold map_of_promoted)

lemma explicitly_visible_iff:
  "c \<in> set (explicitly_visible p hidden) \<longleftrightarrow>
   (\<exists>r. connection_rule p c = Some r \<and> ar_visible r = Some True \<and> c \<notin> set hidden \<and>
        (restricted_ancestors p \<longrightarrow> (\<exists>l. ar_access r = Some l \<and> l \<noteq> LvNone)))"
proof -
  let ?shown = "\<lambda>c r. ar_visible r = Some True \<and> c \<notin> set hidden \<and>
               (\<not> restricted_ancestors p \<or> is_some_and (\<lambda>level. level > LvNone) (ar_access r))"
  let ?f = "\<lambda>(target, r). (case target of
          TConnection cid \<Rightarrow> if ?shown cid r then Some cid else None | _ \<Rightarrow> None)"
  have f: "?f e = Some c \<longleftrightarrow> fst e = TConnection c \<and> ?shown c (snd e)" for e
    by (cases e; cases "fst e") (auto simp: is_some_and_def split: option.splits)
  have "c \<in> set (List.map_filter g es) \<longleftrightarrow> (\<exists>e \<in> set es. g e = Some c)"
    for g :: "McpRuleTarget \<times> McpAccessRule \<Rightarrow> string option" and es
    by (force simp: List.map_filter_def)
  then have "c \<in> set (explicitly_visible p hidden) \<longleftrightarrow> (\<exists>e \<in> set (ap_rules p). ?f e = Some c)"
    by (simp add: explicitly_visible_def)
  also have "\<dots> \<longleftrightarrow> (\<exists>r. connection_rule p c = Some r \<and> ?shown c r)"
    unfolding f connection_rule_def mem_rules [symmetric] Bex_def split_paired_Ex fst_conv snd_conv by blast
  finally show ?thesis by (auto simp: is_some_and_def split: option.splits)
qed

subsection \<open>Lookups in the projected policy\<close>

definition filed_by_id :: "(string, McpConnectionPolicy) bmap \<Rightarrow> bool" where
  "filed_by_id m \<longleftrightarrow> bt_wf m \<and> (\<forall>k v. map_of m k = Some v \<longrightarrow> cp_connection_id v = k \<and> trim k = k \<and> k \<noteq> [])"

lemma promote_fields:
  "cp_connection_id (promote_scope p pol) = cp_connection_id pol"
  "cp_read_only (promote_scope p pol) = cp_read_only pol"
  "cp_allow_dangerous_sql (promote_scope p pol) = cp_allow_dangerous_sql pol"
  "cp_execution_mode_configured (promote_scope p pol) = cp_execution_mode_configured pol"
  "cp_execution_mode_policy_version (promote_scope p pol) = cp_execution_mode_policy_version pol"
  "cp_allow_salesforce_dml (promote_scope p pol) = cp_allow_salesforce_dml pol"
  "cp_allowed_databases (promote_scope p pol) = cp_allowed_databases pol"
  by (simp_all add: promote_scope_def)

lemma owned_trimmed: "owned p c \<noteq> [] \<Longrightarrow> trim c = c \<and> c \<noteq> []"
proof -
  assume "owned p c \<noteq> []"
  then obtain t r where "rule p t = Some r" and "target_owner t = Some c"
    using mem_owned by (metis list.set_intros(1) neq_Nil_conv surj_pair)
  then show ?thesis using trimmed by (cases t) auto
qed

lemma filed_by_id_promoted: "filed_by_id (pj_connection_policies promoted)"
proof -
  have "bt_wf (pj_connection_policies (project_rules p))"
    by (simp add: project_rules_def project_rule_policies(1))
  then have "bt_wf (pj_connection_policies promoted)"
    by (simp add: promoted_def bt_wf_def comp_def case_prod_beta)
  then show ?thesis
    using owned_trimmed by (auto simp: filed_by_id_def map_of_promoted promote_fields owned_fields split: if_splits)
qed

lemma filed_by_id_hide:
  "filed_by_id (pj_connection_policies s) \<Longrightarrow> trim c = c \<and> c \<noteq> [] \<Longrightarrow> filed_by_id (pj_connection_policies (hide_connection s c))"
  by (auto simp: filed_by_id_def hide_connection_def hmap_simps lock_down_def blank_def unwrap_or_def split: option.splits)

lemma hidden_trimmed: "c \<in> set hidden_ids \<Longrightarrow> trim c = c \<and> c \<noteq> []"
  using hidden_rules trimmed [of "TConnection c"] by (auto simp: hidden_ids_def connection_rule_def)

lemma filed_by_id_project_all: "filed_by_id (pj_connection_policies (project_all p))"
proof -
  have "filed_by_id (pj_connection_policies s) \<Longrightarrow> set cs \<subseteq> set hidden_ids \<Longrightarrow>
      filed_by_id (pj_connection_policies (foldl hide_connection s cs))" for s cs
    by (induction cs arbitrary: s) (auto simp: filed_by_id_hide hidden_trimmed)
  then show ?thesis
    using filed_by_id_promoted by (simp add: project_all_alt Let_def)
qed

lemma filed_by_id_entries: "filed_by_id m \<Longrightarrow> map (\<lambda>v. (cp_connection_id v, v)) (map snd m) = m"
  using bt_mem_iff by (fastforce simp: filed_by_id_def intro!: map_idI)

lemma filed_by_id_ids: "filed_by_id m \<Longrightarrow> map cp_connection_id (map snd m) = map fst m"
  using arg_cong [OF filed_by_id_entries, of m "map fst"] by (simp add: comp_def)

lemma find_filed_by_id: "filed_by_id m \<Longrightarrow> List.find (\<lambda>v. cp_connection_id v = c) (map snd m) = map_of m c"
  by (simp only: find_key_map_of filed_by_id_entries)

lemma to_v1_fields:
  "gp_connection_policies (to_v1 p) =
     map connection_policy_clamp (merge_rules cp_connection_id connection_policy_new connection_policy_modify
       (map snd (pj_connection_policies (project_all p))))"
  "gp_group_policies (to_v1 p) =
     map group_policy_clamp (merge_rules grp_group_id group_policy_new group_policy_modify
       (pj_group_policies (project_all p)))"
  "gp_allowed_connection_ids (to_v1 p) = map_option normalize_names (pj_allowed_connection_ids (project_all p))"
  "gp_allowed_group_ids (to_v1 p) = (if pj_allowed_connection_ids (project_all p) = None then []
     else normalize_names (pj_allowed_group_ids (project_all p)))"
  "ap_default_access p \<noteq> LvNone \<Longrightarrow>
     (gp_read_only (to_v1 p), gp_allow_dangerous_sql (to_v1 p)) = to_flags (ap_default_access p)"
  by (cases "ap_default_access p";
      simp add: to_v1_def normalized_def Let_def normalize_alt normalize_names_def [symmetric] max_def level_le
      split: prod.splits)+

lemma find_to_v1:
  "List.find (\<lambda>r. cp_connection_id r = c) (gp_connection_policies (to_v1 p)) =
   map_option (\<lambda>q. connection_policy_clamp (connection_policy_new c q))
     (map_of (pj_connection_policies (project_all p)) c)"
proof -
  let ?m = "pj_connection_policies (project_all p)"
  have ids: "distinct (map cp_connection_id (map snd ?m))"
    unfolding filed_by_id_ids [OF filed_by_id_project_all] using filed_by_id_project_all by (simp add: filed_by_id_def bt_wf_iff)
  have trimmed: "\<forall>r \<in> set (map snd ?m). trim (cp_connection_id r) = cp_connection_id r \<and> cp_connection_id r \<noteq> []"
  proof
    fix r
    assume "r \<in> set (map snd ?m)"
    then obtain k where "(k, r) \<in> set ?m" by auto
    then have "map_of ?m k = Some r" using filed_by_id_project_all by (simp add: filed_by_id_def bt_mem_iff)
    then show "trim (cp_connection_id r) = cp_connection_id r \<and> cp_connection_id r \<noteq> []"
      using filed_by_id_project_all by (metis filed_by_id_def)
  qed
  note lookup = cp_merge.merge_lookup_unique [OF ids trimmed, of c, unfolded find_filed_by_id [OF filed_by_id_project_all]]
  show ?thesis
    by (simp add: to_v1_fields find_map [of _ connection_policy_clamp] lookup option.map_comp comp_def)
qed

lemma find_group_row:
  "List.find (\<lambda>r. grp_group_id r = g) (pj_group_policies (project_all p)) =
   Option.bind (rule p (TGroup g)) (\<lambda>r. group_row (TGroup g, r))"
  "distinct (map grp_group_id (pj_group_policies (project_all p)))"
  "\<forall>r \<in> set (pj_group_policies (project_all p)). trim (grp_group_id r) = grp_group_id r \<and> grp_group_id r \<noteq> []"
proof -
  have rows: "pj_group_policies (project_all p) = List.map_filter group_row (ap_rules p)"
    by (simp add: project_all_alt Let_def hide_fold promoted_def project_rules_def project_rule_group_policies)
  have row: "\<forall>e \<in> set (ap_rules p). \<forall>d. group_row e = Some d \<longrightarrow> fst e = TGroup (grp_group_id d)"
    by (auto simp: group_row_def split: McpRuleTarget.splits)
  have inj: "inj TGroup" by (rule injI) simp
  have dist: "distinct (map fst (ap_rules p))" using bt by (simp add: bt_wf_iff)
  note rows' = map_filter_rows [where f = group_row and key = grp_group_id, OF row inj dist, folded rows]
  show "List.find (\<lambda>r. grp_group_id r = g) (pj_group_policies (project_all p)) =
       Option.bind (rule p (TGroup g)) (\<lambda>r. group_row (TGroup g, r))"
    and "distinct (map grp_group_id (pj_group_policies (project_all p)))"
    using rows'(1,2) by (simp_all add: rule_def)
  show "\<forall>r \<in> set (pj_group_policies (project_all p)). trim (grp_group_id r) = grp_group_id r \<and> grp_group_id r \<noteq> []"
    using rows'(3) trimmed mem_rules by fastforce
qed

lemma find_group_to_v1:
  "List.find (\<lambda>r. grp_group_id r = g) (gp_group_policies (to_v1 p)) =
   map_option (\<lambda>l. \<lparr>grp_group_id = g, grp_read_only = fst (to_flags (max l LvRead)),
                  grp_allow_dangerous_sql = snd (to_flags (max l LvRead))\<rparr>)
     (Option.bind (rule p (TGroup g)) ar_access)"
proof -
  have consistent: "\<not> (fst (to_flags l) \<and> snd (to_flags l))" for l by (cases l) simp_all
  show ?thesis
    unfolding to_v1_fields find_map name_clamp grp_merge.merge_lookup_unique [OF find_group_row(2,3)] find_group_row(1)
    by (cases "rule p (TGroup g)"; cases "Option.bind (rule p (TGroup g)) ar_access")
      (use consistent in \<open>auto simp: group_row_def group_policy_clamp_def group_policy_new_def\<close>)
qed

section \<open>Comparing the levels\<close>

definition base :: McpAccessLevel where
  "base = foldl (\<lambda>acc (target, r).
                     case (target, ar_access r) of (TGroup _, Some level) \<Rightarrow> min acc level | _ \<Rightarrow> acc)
              (ap_default_access p) (ap_rules p)"

lemma strictest_level_applied: "strictest_connection_level p c = applied (connection_rule p c) base"
  by (simp add: strictest_connection_level_def applied_def base_def Let_def capped_def unwrap_or_def
      split: option.split)

lemma base_fold:
  "foldl (\<lambda>acc (target, r).
            case (target, ar_access r) of (TGroup _, Some level) \<Rightarrow> min acc level | _ \<Rightarrow> acc) l es \<le> l"
  "(TGroup g, r) \<in> set es \<Longrightarrow> ar_access r = Some m \<Longrightarrow>
   foldl (\<lambda>acc (target, r).
            case (target, ar_access r) of (TGroup _, Some level) \<Rightarrow> min acc level | _ \<Rightarrow> acc) l es \<le> m"
  "l \<noteq> LvNone \<Longrightarrow> (\<And>g r. (TGroup g, r) \<in> set es \<Longrightarrow> ar_access r \<noteq> Some LvNone) \<Longrightarrow>
   foldl (\<lambda>acc (target, r).
            case (target, ar_access r) of (TGroup _, Some level) \<Rightarrow> min acc level | _ \<Rightarrow> acc) l es \<noteq> LvNone"
proof -
  let ?f = "\<lambda>acc (target, r). case (target, ar_access r) of (TGroup _, Some level) \<Rightarrow> min acc level | _ \<Rightarrow> acc"
  have le: "?f acc e \<le> acc" for acc e
    by (cases e; cases "fst e"; cases "ar_access (snd e)") simp_all
  show first: "foldl ?f l es \<le> l" for l es
  proof (induction es arbitrary: l)
    case (Cons e es)
    show ?case unfolding foldl_Cons by (rule order_trans [OF Cons.IH le])
  qed simp
  show "foldl ?f l es \<le> m" if "(TGroup g, r) \<in> set es" and m: "ar_access r = Some m"
    using that(1)
  proof (induction es arbitrary: l)
    case (Cons e es)
    show ?case
    proof (cases "e = (TGroup g, r)")
      case True
      then have "?f l e \<le> m" using m by simp
      then show ?thesis using first [of "?f l e" es] by simp
    qed (use Cons in simp)
  qed simp
  show "foldl ?f l es \<noteq> LvNone" if "l \<noteq> LvNone" and "\<And>g r. (TGroup g, r) \<in> set es \<Longrightarrow> ar_access r \<noteq> Some LvNone"
    using that
  proof (induction es arbitrary: l)
    case (Cons e es)
    have "?f l e \<noteq> LvNone"
      using Cons.prems by (cases e; cases "fst e"; cases "ar_access (snd e)") auto
    then show ?case unfolding foldl_Cons by (rule Cons.IH) (use Cons.prems(2) in auto)
  qed simp
qed

lemma base_le_group_level: "base \<le> group_level p gs"
proof -
  have "base \<le> l \<Longrightarrow>
      base \<le> foldl (\<lambda>l g. unwrap_or l (Option.bind (rule p (TGroup g)) ar_access)) l gs" for l
  proof (induction gs arbitrary: l)
    case (Cons g gs)
    have "base \<le> unwrap_or l (Option.bind (rule p (TGroup g)) ar_access)"
    proof (cases "Option.bind (rule p (TGroup g)) ar_access")
      case None
      then show ?thesis using Cons.prems by simp
    next
      case (Some m)
      then obtain r where "(TGroup g, r) \<in> set (ap_rules p)" and "ar_access r = Some m"
        by (auto simp: bind_eq_Some_conv mem_rules)
      then show ?thesis using Some base_fold(2) by (simp add: base_def)
    qed
    then show ?case using Cons.IH by simp
  qed simp
  moreover have "base \<le> ap_default_access p" unfolding base_def by (rule base_fold(1))
  ultimately show ?thesis by (simp add: group_level_def)
qed

lemma applied_mono: "a \<le> b \<Longrightarrow> applied r a \<le> applied r b"
  by (auto simp: applied_def capped_def unwrap_or_def split: option.split intro: min.mono min.coboundedI1)

lemma strictest_le: "strictest_connection_level p c \<le> applied (connection_rule p c) (group_level p gs)"
  unfolding strictest_level_applied by (rule applied_mono [OF base_le_group_level])

section \<open>Connections the projection admits\<close>

text \<open>A connection that is open: nothing hides it, and it sets its own level if an ancestor is restricted.\<close>

definition opened :: "string \<Rightarrow> bool" where
  "opened c \<longleftrightarrow> c \<notin> set hidden_ids \<and>
     (restricted_ancestors p \<longrightarrow> (\<exists>r l. connection_rule p c = Some r \<and> ar_access r = Some l \<and> l \<noteq> LvNone))"

lemma hidden_ids_iff: "c \<in> set hidden_ids \<longleftrightarrow> (\<exists>r. connection_rule p c = Some r \<and> hides p c r)"
  using hidden_rules by (auto simp: hidden_ids_def)

lemma visible_not_hidden: "c \<notin> set hidden_ids \<Longrightarrow> Option.bind (connection_rule p c) ar_visible \<noteq> Some False"
  by (cases "connection_rule p c") (auto simp: hidden_ids_iff hides_def)

lemma allowed_strict:
  assumes "hidden_ids \<noteq> [] \<or> restricted_ancestors p"
  shows "policy_allows_connection (to_v1 p) path c \<Longrightarrow> c \<in> set (explicitly_visible p hidden_ids)"
proof -
  have "pj_allowed_connection_ids (project_all p) = Some (explicitly_visible p hidden_ids)"
    "pj_allowed_group_ids (project_all p) = []"
    using assms by (simp_all add: project_all_alt Let_def)
  moreover have "normalize_names [] = []" by (simp add: normalize_names_def sort_dedup_def)
  moreover have "trim c' = c'" if "c' \<in> set (explicitly_visible p hidden_ids)" for c'
    using that trimmed [of "TConnection c'"] by (auto simp: explicitly_visible_iff connection_rule_def)
  ultimately show "policy_allows_connection (to_v1 p) path c \<Longrightarrow> c \<in> set (explicitly_visible p hidden_ids)"
    by (auto simp: policy_allows_connection_def to_v1_fields list_ex_iff set_normalize_names is_some_and_def
        split: option.splits)
qed

lemma project_rules_allowed:
  "i \<in> set (unwrap_or [] (pj_allowed_connection_ids (project_rules p))) \<Longrightarrow>
   \<exists>r. rule p (TConnection i) = Some r \<and> ar_visible r = Some True"
  "g \<in> set (pj_allowed_group_ids (project_rules p)) \<Longrightarrow>
   \<exists>r. rule p (TGroup g) = Some r \<and> ar_visible r = Some True"
  unfolding project_rules_def
  by (drule subsetD [OF project_rule_allowed(2)] subsetD [OF project_rule_groups];
      auto simp: mem_rules split: if_splits)+

lemma allowed_lax:
  assumes "hidden_ids = []" and "\<not> restricted_ancestors p"
    and "policy_allows_connection (to_v1 p) path c"
  shows "connection_visible p (case path of None \<Rightarrow> [] | Some q \<Rightarrow> path_ids q) c"
proof (cases "ap_visibility p")
  case VisAll
  then show ?thesis using visible_not_hidden [of c] assms(1) by (simp add: connection_visible_def Let_def)
next
  case VisSelected
  have fields: "pj_allowed_connection_ids (project_all p) = pj_allowed_connection_ids (project_rules p)"
    "pj_allowed_group_ids (project_all p) = pj_allowed_group_ids (project_rules p)"
    using assms by (simp_all add: project_all_alt Let_def promoted_def)
  obtain ids where ids: "pj_allowed_connection_ids (project_rules p) = Some ids"
    using project_rule_allowed(1) [of p _ "ap_rules p"] VisSelected by (fastforce simp: project_rules_def)
  have conn: "Option.bind (connection_rule p i) ar_visible = Some True \<and> trim i = i" if "i \<in> set ids" for i
    using that ids project_rules_allowed(1) [of i] trimmed [of "TConnection i"]
    by (auto simp: connection_rule_def)
  have grp: "Option.bind (rule p (TGroup g)) ar_visible = Some True \<and> trim g = g"
    if "g \<in> set (pj_allowed_group_ids (project_rules p))" for g
    using that project_rules_allowed(2) [of g] trimmed [of "TGroup g"] by auto
  show ?thesis
    using assms(3) visible_not_hidden [of c] assms(1) VisSelected
    by (cases path) (auto simp: policy_allows_connection_def to_v1_fields fields ids list_ex_iff set_normalize_names
        connection_visible_def Let_def dest: conn grp)
qed

lemma allowed_opened:
  assumes "policy_allows_connection (to_v1 p) path c"
  shows "connection_visible p (case path of None \<Rightarrow> [] | Some q \<Rightarrow> path_ids q) c" and "opened c"
proof -
  have "connection_visible p (case path of None \<Rightarrow> [] | Some q \<Rightarrow> path_ids q) c \<and> opened c"
  proof (cases "hidden_ids \<noteq> [] \<or> restricted_ancestors p")
    case True
    then have "c \<in> set (explicitly_visible p hidden_ids)" by (rule allowed_strict [OF _ assms])
    then show ?thesis
      by (auto simp: explicitly_visible_iff opened_def connection_visible_def Let_def split: McpVisibilityMode.split)
  next
    case False
    then show ?thesis using allowed_lax [OF _ _ assms] by (simp add: opened_def)
  qed
  then show "connection_visible p (case path of None \<Rightarrow> [] | Some q \<Rightarrow> path_ids q) c" and "opened c" by simp_all
qed

lemma opened_rule:
  assumes "opened c" and "connection_rule p c = Some r"
  shows "ar_access r \<noteq> Some LvNone" and "ar_ceiling r \<noteq> Some LvNone" and "connection_level p c r \<noteq> Some LvNone"
  using assms by (auto simp: opened_def hidden_ids_iff hides_def)

lemma unrestricted:
  assumes "\<not> restricted_ancestors p"
  shows "ap_default_access p \<noteq> LvNone" and "rule p (TGroup g) = Some r \<Longrightarrow> ar_access r \<noteq> Some LvNone"
    and "base \<noteq> LvNone"
proof -
  show d: "ap_default_access p \<noteq> LvNone" and
    g: "rule p (TGroup g) = Some r \<Longrightarrow> ar_access r \<noteq> Some LvNone" for g r
    using assms by (force simp: restricted_ancestors_def list_ex_iff mem_rules [symmetric])+
  show "base \<noteq> LvNone" unfolding base_def using d g by (intro base_fold(3)) (auto simp: mem_rules)
qed

lemma opened_strictest: "opened c \<Longrightarrow> strictest_connection_level p c \<noteq> LvNone"
proof -
  assume c: "opened c"
  show ?thesis
  proof (cases "connection_rule p c")
    case None
    then show ?thesis using c unrestricted(3) by (auto simp: strictest_level_applied opened_def)
  next
    case (Some r)
    have "unwrap_or base (ar_access r) \<noteq> LvNone"
      using c Some opened_rule(1) [OF c Some] unrestricted(3) by (cases "ar_access r") (auto simp: opened_def)
    then show ?thesis
      using opened_rule(2) [OF c Some] by (cases "ar_ceiling r") (simp_all add: strictest_level_applied Some applied_def)
  qed
qed

lemma connection_level_cases:
  "connection_level p c r = None \<longleftrightarrow> pinned_level p c r = None \<and> projected_toolset_ceiling p c = None"
  "connection_level p c r = Some l \<Longrightarrow> projected_toolset_ceiling p c = Some m \<Longrightarrow> l \<le> m"
  by (auto simp: connection_level_def Let_def split: option.splits)

lemma pinned_le:
  "pinned_level p c r = Some l \<Longrightarrow> (ar_access r = None \<Longrightarrow> strictest_connection_level p c \<le> L) \<Longrightarrow>
   l \<le> applied (Some r) L"
  by (auto simp: pinned_level_def applied_def min.coboundedI2 split: option.splits)

lemma pinned_None: "pinned_level p c r = None \<Longrightarrow> applied (Some r) L = L"
  by (auto simp: pinned_level_def applied_def split: option.splits)

lemma connection_level_le:
  assumes "connection_rule p c = Some r" and "connection_level p c r = Some l"
  shows "l \<le> applied (Some r) (group_level p gs)"
proof -
  have s: "strictest_connection_level p c \<le> applied (Some r) (group_level p gs)"
    using strictest_le [of c gs] assms(1) by simp
  moreover have "strictest_connection_level p c \<le> group_level p gs" if "ar_access r = None"
    using s that by (cases "ar_ceiling r") (auto simp: applied_def)
  ultimately show ?thesis
    using assms(2) pinned_le [of c r _ "group_level p gs"]
    by (auto simp: connection_level_def Let_def min.coboundedI1 unwrap_or_def split: option.splits)
qed

lemma group_level_to_v1:
  assumes "\<not> restricted_ancestors p"
  shows "from_flags_pair (group_execution_policy (to_v1 p) gs) = group_level p gs"
proof -
  let ?f = "\<lambda>effective group_id.
              case List.find (\<lambda>r. grp_group_id r = group_id) (gp_group_policies (to_v1 p)) of
                Some r \<Rightarrow> (grp_read_only r, \<not> grp_read_only r \<and> grp_allow_dangerous_sql r)
              | None \<Rightarrow> effective"
  have flags: "(fst (to_flags l), \<not> fst (to_flags l) \<and> snd (to_flags l)) = to_flags l" for l by (cases l) simp_all
  have step: "unwrap_or (from_flags_pair f) (Option.bind (rule p (TGroup g)) ar_access) = from_flags_pair (?f f g)" for f g
    using unrestricted(2) [OF assms, of g]
    by (cases "rule p (TGroup g)"; cases "Option.bind (rule p (TGroup g)) ar_access")
      (auto simp: find_group_to_v1 flags from_to_flags)
  have "foldl (\<lambda>l g. unwrap_or l (Option.bind (rule p (TGroup g)) ar_access)) (from_flags_pair f) gs
      = from_flags_pair (foldl ?f f gs)" for f
    by (induction gs arbitrary: f) (simp_all only: foldl.simps step)
  from this [of "to_flags (ap_default_access p)"] show ?thesis
    using unrestricted(1) [OF assms]
    by (simp add: group_level_def group_execution_policy_def from_to_flags to_v1_fields(5))
qed

subsection \<open>The policy of an open connection\<close>

definition proj :: "string \<Rightarrow> McpConnectionPolicy" where
  "proj c = connection_policy_clamp (connection_policy_new c (promote_scope p (owned_policy p c)))"

lemma find_opened:
  "opened c \<Longrightarrow> List.find (\<lambda>r. cp_connection_id r = c) (gp_connection_policies (to_v1 p)) =
   (if owned p c = [] then None else Some (proj c))"
  by (simp add: find_to_v1 opened_def map_of_project_all proj_def)

lemma proj_fields:
  "cp_execution_mode_policy_version (proj c) = Some MCP_EXECUTION_POLICY_VERSION"
  "cp_execution_mode_configured (proj c) = cp_execution_mode_configured (owned_policy p c)"
  "cp_read_only (proj c) = cp_read_only (owned_policy p c)"
  "cp_allow_dangerous_sql (proj c) \<longleftrightarrow> \<not> cp_read_only (owned_policy p c) \<and> cp_allow_dangerous_sql (owned_policy p c)"
  "cp_database_scope (proj c) = cp_database_scope (promote_scope p (owned_policy p c))"
  "cp_allow_salesforce_dml (proj c) \<Longrightarrow> cp_allow_salesforce_dml (owned_policy p c)"
  by (auto simp: proj_def connection_policy_clamp_def connection_policy_new_def Let_def promote_fields owned_fields
      split: if_splits)

lemma proj_flags:
  "Option.bind (connection_rule p c) (connection_level p c) = Some l \<Longrightarrow>
   cp_execution_mode_configured (proj c) \<and>
   (cp_read_only (proj c), \<not> cp_read_only (proj c) \<and> cp_allow_dangerous_sql (proj c)) = to_flags (max l LvRead)"
  "Option.bind (connection_rule p c) (connection_level p c) = None \<Longrightarrow> \<not> cp_execution_mode_configured (proj c)"
  using owned_pinned [of c]
  by (cases "max l LvRead"; auto simp: pinned_by_def proj_fields)+

lemma listed_allowed: "set (cp_allowed_databases (owned_policy p c)) = listed_databases c (owned p c)"
  by (simp add: owned_fields)

lemma listed_trimmed: "v \<in> listed_databases c (owned p c) \<Longrightarrow> trim v = v \<and> v \<noteq> []"
  using trimmed [of "TScope c ''database'' v"] by (auto simp: listed_owned)

lemma proj_allowed:
  "cp_database_scope (proj c) = DbSelected \<Longrightarrow> set (cp_allowed_databases (proj c)) = listed_databases c (owned p c)"
proof -
  assume "cp_database_scope (proj c) = DbSelected"
  then have "set (cp_allowed_databases (proj c)) = trim ` (trim ` listed_databases c (owned p c) - {[]}) - {[]}"
    by (simp add: proj_def clamp_fields connection_policy_new_def promote_fields normalize_alt set_normalize_names
        listed_allowed)
  also have "trim ` listed_databases c (owned p c) - {[]} = listed_databases c (owned p c)"
    using listed_trimmed by force
  also have "trim ` listed_databases c (owned p c) - {[]} = listed_databases c (owned p c)"
    using listed_trimmed by force
  finally show ?thesis .
qed

lemma has_database_rules_iff:
  "has_database_rules p c \<longleftrightarrow> (\<exists>v r. rule p (TScope c ''database'' v) = Some r)"
proof -
  have "(case t of TScope c' s _ \<Rightarrow> c' = c \<and> s = ''database'' | _ \<Rightarrow> False) \<longleftrightarrow> (\<exists>v. t = TScope c ''database'' v)" for t
    by (cases t) auto
  then show ?thesis
    by (auto simp: has_database_rules_def list_ex_iff mem_rules [symmetric] Bex_def split_paired_Ex)
qed

lemma proj_scope:
  "cp_database_scope (proj c) = DbAll \<Longrightarrow> sub_scope_mode p c = SubAll \<and> rule p (TScope c ''database'' v) = None"
  "cp_database_scope (proj c) = DbSelected \<Longrightarrow> sub_scope_mode p c \<noteq> SubNone"
proof -
  have "cp_database_scope (owned_policy p c) = DbNone \<or>
      cp_database_scope (owned_policy p c) = database_scope_of (sub_scope_mode p c)"
    using owned_pinned [of c] by (auto simp: pinned_by_def sub_scope_mode_def)
  then show "cp_database_scope (proj c) = DbAll \<Longrightarrow> sub_scope_mode p c = SubAll \<and> rule p (TScope c ''database'' v) = None"
    and "cp_database_scope (proj c) = DbSelected \<Longrightarrow> sub_scope_mode p c \<noteq> SubNone"
    using has_database_rules_iff [of c]
    by (cases "sub_scope_mode p c";
        auto simp: proj_fields promote_scope_def owned_fields database_scope_of_def split: if_splits)+
qed

lemma scope_admits_visible:
  assumes "opened c" and "ensure_database_in_scope (database_scope_for_connection (to_v1 p) c) db = Inr ()"
  shows "sub_scope_visible p c ''database'' db"
    and "owned p c = [] \<or> cp_database_scope (proj c) = DbAll \<or>
         cp_database_scope (proj c) = DbSelected \<and> db \<in> listed_databases c (owned p c)"
proof -
  have none: "sub_scope_mode p c = SubAll \<and> rule p (TScope c ''database'' db) = None" if "owned p c = []"
    using that mem_owned [of "TConnection c" _ c] mem_owned [of "TScope c ''database'' db" _ c]
    by (cases "rule p (TConnection c)"; cases "rule p (TScope c ''database'' db)") (auto simp: sub_scope_mode_def connection_rule_def)
  show adm: "owned p c = [] \<or> cp_database_scope (proj c) = DbAll \<or>
         cp_database_scope (proj c) = DbSelected \<and> db \<in> listed_databases c (owned p c)"
    using assms(2) proj_allowed [of c]
    by (cases "cp_database_scope (proj c)")
      (auto simp: database_scope_for_connection_def find_opened [OF assms(1)] ensure_database_in_scope_def list_ex_iff
        split: if_splits)
  then show "sub_scope_visible p c ''database'' db"
    using none proj_scope(1) [of c db] proj_scope(2) [of c]
    by (cases "sub_scope_mode p c")
      (auto simp: sub_scope_visible_def sub_scope_mode_def [symmetric] Let_def listed_owned)
qed

lemma find_proj_database:
  assumes "cp_database_scope (proj c) = DbSelected" and "db \<in> listed_databases c (owned p c)"
  shows "List.find (\<lambda>d. dp_database_name d = db) (cp_database_policies (proj c)) =
    map_option (\<lambda>d. database_policy_clamp (database_policy_new db d))
      (Option.bind (rule p (TScope c ''database'' db)) (\<lambda>r. database_row p c (TScope c ''database'' db, r)))"
proof -
  let ?rows = "List.map_filter (database_row p c) (owned p c)"
  let ?xs = "cp_database_policies (promote_scope p (owned_policy p c))"
  have xs: "?xs = ?rows \<or> ?xs = filter (\<lambda>d. dp_database_name d \<in> listed_databases c (owned p c)) ?rows"
    by (simp add: promote_scope_def owned_fields listed_allowed)
  then have dist: "distinct (map dp_database_name ?xs)"
    using find_database_row(2) [of c] distinct_map_filter by fastforce
  have trimmed: "\<forall>d \<in> set ?xs. trim (dp_database_name d) = dp_database_name d \<and> dp_database_name d \<noteq> []"
    using xs find_database_row(3) [of c] by fastforce
  have find: "List.find (\<lambda>d. dp_database_name d = db) ?xs = List.find (\<lambda>d. dp_database_name d = db) ?rows"
    using xs assms(2) find_filter_key [of dp_database_name db "\<lambda>n. n \<in> listed_databases c (owned p c)" ?rows] by auto
  have policies: "cp_database_policies (proj c) =
      filter (\<lambda>d. dp_database_name d \<in> set (cp_allowed_databases (proj c))) (normalize_mcp_database_policies ?xs)"
    using assms(1) by (simp add: proj_def clamp_fields connection_policy_new_def)
  show ?thesis
    unfolding policies find_filter_key [where f = dp_database_name and P = "\<lambda>n. n \<in> set (cp_allowed_databases (proj c))"]
    using assms(2) proj_allowed [OF assms(1)]
    by (simp add: normalize_mcp_database_policies_def find_map [of _ database_policy_clamp]
        dp_merge.merge_lookup_unique [OF dist trimmed] find find_database_row(1) option.map_comp comp_def)
qed

text \<open>The flags an open connection's databases inherit in the projected policy.\<close>

definition inherited :: "string list \<Rightarrow> string \<Rightarrow> bool \<times> bool" where
  "inherited gs c = (if cp_execution_mode_configured (proj c)
      then (cp_read_only (proj c), \<not> cp_read_only (proj c) \<and> cp_allow_dangerous_sql (proj c))
      else group_execution_policy (to_v1 p) gs)"

text \<open>Flags that are within a level and within every toolset ceiling of the connection.\<close>

definition flags_below :: "string \<Rightarrow> bool \<times> bool \<Rightarrow> McpAccessLevel \<Rightarrow> bool" where
  "flags_below c f l \<longleftrightarrow> from_flags_pair f \<le> l \<and> is_none_or (\<lambda>m. from_flags_pair f \<le> m) (projected_toolset_ceiling p c)"

lemma connection_flags_within:
  assumes "opened c"
  shows "flags_below c (inherited gs c) (applied (connection_rule p c) (group_level p gs))"
proof (cases "Option.bind (connection_rule p c) (connection_level p c)")
  case (Some l)
  then obtain r where r: "connection_rule p c = Some r" "connection_level p c r = Some l"
    by (auto simp: bind_eq_Some_conv)
  then have "l \<noteq> LvNone" using opened_rule(3) [OF assms(1) r(1)] by auto
  then have "from_flags_pair (inherited gs c) = l"
    using proj_flags(1) [OF Some] by (simp add: inherited_def from_to_flags)
  then show ?thesis
    using connection_level_le [OF r] r connection_level_cases(2) [OF r(2)]
    by (cases "projected_toolset_ceiling p c") (simp_all add: flags_below_def)
next
  case None
  have none: "projected_toolset_ceiling p c = None \<and> applied (connection_rule p c) L = L" for L
  proof (cases "connection_rule p c")
    case (Some r)
    then show ?thesis using None connection_level_cases(1) [of c r] pinned_None [of c r] by simp
  qed (simp add: projected_toolset_ceiling_def)
  have "\<not> restricted_ancestors p"
  proof
    assume "restricted_ancestors p"
    then obtain r l where "connection_rule p c = Some r" "ar_access r = Some l" using assms(1) by (auto simp: opened_def)
    then show False using None connection_level_cases(1) [of c r]
      by (auto simp: pinned_level_def split: option.splits)
  qed
  then show ?thesis using none proj_flags(2) [OF None] by (simp add: inherited_def group_level_to_v1 flags_below_def)
qed

lemma toolset_opened: "opened c \<Longrightarrow> projected_toolset_ceiling p c \<noteq> Some LvNone"
  using opened_rule(3) [of c]
  by (cases "connection_rule p c")
    (auto simp: projected_toolset_ceiling_def connection_level_def Let_def)

lemma database_flags_within:
  assumes "opened c" and "rule p (TScope c ''database'' db) = Some r" and "\<not> rule_hidden r"
    and "scope_level p c r = Some l"
  shows "flags_below c (to_flags (max l LvRead)) (applied (Some r) (applied (connection_rule p c) (group_level p gs)))"
proof -
  obtain k where k: "pinned_level p c r = Some k" and l: "l = capped (projected_toolset_ceiling p c) k"
    using assms(4) by (auto simp: scope_level_def)
  have "k \<noteq> LvNone"
    using k assms(3) opened_strictest [OF assms(1)]
    by (auto simp: pinned_level_def rule_hidden_def split: option.splits)
  then have "l \<noteq> LvNone" using l toolset_opened [OF assms(1)] by (auto simp: capped_def split: option.splits)
  have "k \<le> applied (Some r) (applied (connection_rule p c) (group_level p gs))"
    by (rule pinned_le [OF k strictest_le])
  then have "l \<le> applied (Some r) (applied (connection_rule p c) (group_level p gs))"
    using l by (auto simp: capped_def min.coboundedI1 split: option.splits)
  then show ?thesis
    using \<open>l \<noteq> LvNone\<close> l by (cases "projected_toolset_ceiling p c") (auto simp: flags_below_def from_to_flags)
qed

lemma to_v1_normal: "\<exists>q. to_v1 p = normalized q"
  by (auto simp: to_v1_def Let_def split: prod.splits)

abbreviation sub_scope_for :: "string \<Rightarrow> (string \<times> string) option" where
  "sub_scope_for db \<equiv> (if db = [] then None else Some (''database'', db))"

abbreviation v1_flags :: "string list \<Rightarrow> string \<Rightarrow> string \<Rightarrow> bool \<times> bool" where
  "v1_flags gs c db \<equiv> effective_database_execution_policy_with_groups (to_v1 p) gs c db"

lemma effective_owned:
  "opened c \<Longrightarrow> owned p c \<noteq> [] \<Longrightarrow> v1_flags gs c db =
   (case List.find (\<lambda>d. dp_database_name d = db) (cp_database_policies (proj c)) of
      Some d \<Rightarrow> (dp_read_only d, \<not> dp_read_only d \<and> dp_allow_dangerous_sql d) | None \<Rightarrow> inherited gs c)"
  by (simp add: effective_database_execution_policy_with_groups_def find_opened Let_def proj_fields(1) inherited_def
      split: option.split)

lemma effective_unowned:
  assumes "opened c" and "owned p c = []"
  shows "flags_below c (v1_flags gs c db) (scoped_level p gs c (sub_scope_for db))"
proof -
  have none: "rule p t = None" if "target_owner t = Some c" for t
    using mem_owned [of t _ c] that assms(2) by (cases "rule p t") auto
  then have "connection_rule p c = None" by (simp add: connection_rule_def)
  moreover have "\<not> restricted_ancestors p" using calculation assms(1) by (auto simp: opened_def)
  ultimately show ?thesis
    using none assms(2)
    by (simp add: flags_below_def effective_database_execution_policy_with_groups_def find_opened [OF assms(1)] Let_def
        group_level_to_v1 scoped_level_def projected_toolset_ceiling_def)
qed

lemma effective_listed:
  assumes "opened c" and "owned p c \<noteq> []" and "cp_database_scope (proj c) = DbSelected"
    and "db \<in> listed_databases c (owned p c)"
  shows "flags_below c (v1_flags gs c db) (scoped_level p gs c (sub_scope_for db))"
proof -
  obtain r where r: "rule p (TScope c ''database'' db) = Some r" "\<not> rule_hidden r"
    using assms(4) by (auto simp: listed_owned)
  have s: "scoped_level p gs c (sub_scope_for db) = applied (Some r) (applied (connection_rule p c) (group_level p gs))"
    using r listed_trimmed [OF assms(4)] by (simp add: scoped_level_def)
  have flags: "\<not> fst (to_flags l) \<or> \<not> snd (to_flags l)" for l by (cases l) simp_all
  show ?thesis
  proof (cases "scope_level p c r")
    case None
    then have "v1_flags gs c db = inherited gs c"
      using r by (simp add: effective_owned assms find_proj_database database_row_def)
    moreover have "applied (Some r) L = L" for L using None pinned_None [of c r] by (simp add: scope_level_def)
    ultimately show ?thesis using connection_flags_within [OF assms(1)] s by simp
  next
    case (Some l)
    have "v1_flags gs c db = to_flags (max l LvRead)"
      using r Some flags [of "max l LvRead"]
      by (auto simp: effective_owned assms find_proj_database database_row_def database_policy_clamp_def
          database_policy_new_def prod_eq_iff)
    then show ?thesis using s database_flags_within [OF assms(1) r Some] by simp
  qed
qed

lemma effective_inherited:
  assumes "opened c" and "owned p c \<noteq> []" and "db = [] \<or> cp_database_scope (proj c) = DbAll"
  shows "flags_below c (v1_flags gs c db) (scoped_level p gs c (sub_scope_for db))"
proof -
  obtain q where "to_v1 p = normalized q" using to_v1_normal by blast
  then have "List.find (\<lambda>d. dp_database_name d = db) (cp_database_policies (proj c)) = None"
    using no_empty_database [of c q "proj c"] find_opened [OF assms(1)] assms(2,3)
    by (cases "db = []") (auto simp: proj_def clamp_fields)
  moreover have "scoped_level p gs c (sub_scope_for db) = applied (connection_rule p c) (group_level p gs)"
    using proj_scope(1) [of c db] assms(3) by (auto simp: scoped_level_def)
  ultimately show ?thesis
    using connection_flags_within [OF assms(1)] by (simp add: effective_owned assms)
qed

lemma effective_opened:
  assumes "opened c" and "db = [] \<or> ensure_database_in_scope (database_scope_for_connection (to_v1 p) c) db = Inr ()"
  shows "flags_below c (v1_flags gs c db) (scoped_level p gs c (sub_scope_for db))"
  using scope_admits_visible(2) [OF assms(1)] assms(2)
    effective_unowned [OF assms(1)] effective_listed [OF assms(1)] effective_inherited [OF assms(1)]
  by blast

lemma salesforce_opened:
  assumes "opened c" and "connection_allows_salesforce_dml (to_v1 p) c"
  shows "is_some_and (\<lambda>l. l > LvRead) (toolset_ceiling p c SALESFORCE_WRITE_TOOLSET)"
proof -
  have "cp_allow_salesforce_dml (proj c)"
    using assms by (simp add: connection_allows_salesforce_dml_def find_opened split: if_splits)
  then have "is_some_and (\<lambda>r. is_some_and (\<lambda>l. l > LvRead)
      (map_of (ar_toolset_ceilings r) SALESFORCE_WRITE_TOOLSET)) (connection_rule p c)"
    using proj_fields(6) owned_pinned [of c] unfolding pinned_by_def by blast
  then obtain r l where "connection_rule p c = Some r" "LvRead < l"
    "map_of (ar_toolset_ceilings r) SALESFORCE_WRITE_TOOLSET = Some l"
    unfolding is_some_and_def by (auto split: option.splits)
  then show ?thesis by (simp add: toolset_ceiling_def)
qed

end

section \<open>Policies the theorems apply to\<close>

lemma rules_wf_dom:
  "rules_wf rs \<longleftrightarrow> bt_wf rs \<and> (\<forall>t \<in> dom (map_of rs). \<forall>i \<in> set (target_ids t). trim i = i \<and> i \<noteq> [])"
  by (auto simp: rules_wf_def list_all_iff dom_map_of_conv_image_fst)

lemma rules_wf_entry:
  "rules_wf rs \<Longrightarrow> (\<forall>i \<in> set (target_ids t). trim i = i \<and> i \<noteq> []) \<Longrightarrow> rules_wf (bt_entry t d f rs)"
  by (auto simp: rules_wf_dom hmap_simps bt_wf_entry)

lemma foldl_invariant: "P m \<Longrightarrow> (\<And>m x. x \<in> set xs \<Longrightarrow> P m \<Longrightarrow> P (f m x)) \<Longrightarrow> P (foldl f m xs)"
  by (induction xs arbitrary: m) simp_all

lemma rules_wf_connection:
  assumes "cp_wf c" and "trim (cp_connection_id c) = cp_connection_id c" and "cp_connection_id c \<noteq> []" and "rules_wf rs"
  shows "rules_wf (from_v1_connection rs c)"
proof -
  have "names_wf (cp_allowed_databases c)" "names_wf (map dp_database_name (cp_database_policies c))"
    using assms(1) by (simp_all add: cp_wf_def dps_wf_def)
  then show ?thesis
    unfolding from_v1_connection_alt using assms
    by (auto intro!: foldl_invariant [where P = rules_wf] rules_wf_entry simp: names_wf_def)
qed

lemma rules_wf_from_v1: "rules_wf (ap_rules (from_v1 q))"
proof -
  let ?n = "normalized q"
  have wf: "gp_wf ?n" by (rule gp_wf_normalized)
  have ids: "\<forall>i \<in> set (unwrap_or [] (gp_allowed_connection_ids ?n)). trim i = i \<and> i \<noteq> []"
    "\<forall>i \<in> set (gp_allowed_group_ids ?n). trim i = i \<and> i \<noteq> []"
    "\<forall>g \<in> set (gp_group_policies ?n). trim (grp_group_id g) = grp_group_id g \<and> grp_group_id g \<noteq> []"
    "\<forall>c \<in> set (gp_connection_policies ?n). trim (cp_connection_id c) = cp_connection_id c \<and> cp_connection_id c \<noteq> []"
    using wf by (cases "gp_allowed_connection_ids ?n"; auto simp: gp_wf_def grps_wf_def names_wf_def)+
  have entry: "rules_wf m \<Longrightarrow> trim i = i \<and> i \<noteq> [] \<Longrightarrow> rules_wf (bt_entry (TConnection i) d f m)"
    "rules_wf m \<Longrightarrow> trim i = i \<and> i \<noteq> [] \<Longrightarrow> rules_wf (bt_entry (TGroup i) d f m)" for m i d f
    by (simp_all add: rules_wf_entry)
  have "rules_wf (foldl (\<lambda>m cid. bt_entry (TConnection cid) default_rule (\<lambda>r. r\<lparr>ar_visible := Some True\<rparr>) m)
                  [] (unwrap_or [] (gp_allowed_connection_ids ?n)))" (is "rules_wf ?m1")
    by (rule foldl_invariant) (simp add: rules_wf_def, use ids(1) entry(1) in blast)
  then have "rules_wf (foldl (\<lambda>m gid. bt_entry (TGroup gid) default_rule (\<lambda>r. r\<lparr>ar_visible := Some True\<rparr>) m)
                  ?m1 (gp_allowed_group_ids ?n))" (is "rules_wf ?m2")
    by (rule foldl_invariant) (use ids(2) entry(2) in blast)
  then have "rules_wf (foldl (\<lambda>m g. bt_entry (TGroup (grp_group_id g)) default_rule
                  (\<lambda>r. r\<lparr>ar_access := Some (from_flags (grp_read_only g) (grp_allow_dangerous_sql g))\<rparr>) m)
                  ?m2 (gp_group_policies ?n))" (is "rules_wf ?m3")
    by (rule foldl_invariant) (use ids(3) entry(2) in blast)
  then have "rules_wf (foldl from_v1_connection ?m3 (gp_connection_policies ?n))"
    by (rule foldl_invariant) (use ids(4) nf.wf_rule rules_wf_connection in blast)
  then have "rules_wf (from_v1_rules ?n)" by (simp add: from_v1_rules_def Let_def)
  then show ?thesis by (simp add: from_v1_def Let_def)
qed

interpretation v1_rules: access_rules "from_v1 q" for q
  by unfold_locales (rule rules_wf_from_v1)

section \<open>Properties\<close>

abbreviation path_groups :: "McpConnectionGroupPath option \<Rightarrow> string list" where
  "path_groups path \<equiv> (case path of None \<Rightarrow> [] | Some q \<Rightarrow> path_ids q)"

lemma projected_toolset_le:
  assumes "connection_rule p c = Some r" and "map_of (ar_toolset_ceilings r) t = Some m" and "t \<noteq> SALESFORCE_WRITE_TOOLSET"
  shows "\<exists>k. projected_toolset_ceiling p c = Some k \<and> k \<le> m"
proof -
  let ?ls = "map snd (filter (\<lambda>(toolset, _). toolset \<noteq> SALESFORCE_WRITE_TOOLSET) (ar_toolset_ceilings r))"
  have m: "m \<in> set ?ls" using assms(2,3) by (force dest: map_of_SomeD)
  have fold: "foldl min l ls \<le> l \<and> (\<forall>x \<in> set ls. foldl min l ls \<le> x)" for l and ls :: "McpAccessLevel list"
  proof (induction ls arbitrary: l)
    case (Cons a ls)
    have "foldl min (min l a) ls \<le> min l a" using Cons by blast
    then show ?case using Cons by auto
  qed simp
  obtain l ls where ls: "?ls = l # ls" using m by (cases ?ls) auto
  then have "projected_toolset_ceiling p c = Some (foldl min l ls)"
    using assms(1) by (simp add: projected_toolset_ceiling_def min_opt_def)
  moreover have "foldl min l ls \<le> m" using m ls fold [of l ls] by auto
  ultimately show ?thesis by blast
qed

text \<open>
  C1: the projection onto the persisted policy never grants more than the access policy. If a host
  that only reads the projected policy reaches a connection, and reaches a database by the projected
  database scope, then the access policy shows both, the host's execution level is at most the level
  the access policy resolves to and at most every toolset ceiling of the connection, and it may run
  Salesforce writes only if the access policy opted in.
\<close>
theorem to_v1_never_wider:
  assumes "rules_wf (ap_rules p)"
    and "policy_allows_connection (to_v1 p) path c"
    and "db = [] \<or> ensure_database_in_scope (database_scope_for_connection (to_v1 p) c) db = Inr ()"
  shows "connection_visible p (path_groups path) c \<and> (db = [] \<or> sub_scope_visible p c ''database'' db) \<and>
     from_flags_pair (effective_database_execution_policy_with_groups (to_v1 p) (path_groups path) c db)
       \<le> ra_level (resolve p (path_groups path) c (if db = [] then None else Some (''database'', db))) \<and>
     (\<forall>t m. t \<noteq> SALESFORCE_WRITE_TOOLSET \<and> toolset_ceiling p c t = Some m \<longrightarrow>
        from_flags_pair (effective_database_execution_policy_with_groups (to_v1 p) (path_groups path) c db) \<le> m) \<and>
     (connection_allows_salesforce_dml (to_v1 p) c \<longrightarrow>
        is_some_and (\<lambda>l. l > LvRead) (toolset_ceiling p c SALESFORCE_WRITE_TOOLSET))"
proof -
  let ?gs = "path_groups path"
  have ar: "access_rules p" using assms(1) by unfold_locales
  note visible = access_rules.allowed_opened [OF ar assms(2)]
  note admitted = access_rules.scope_admits_visible(1) [OF ar visible(2)]
  note below = access_rules.effective_opened [OF ar visible(2) assms(3), of ?gs,
      unfolded access_rules.flags_below_def [OF ar]]
  have sub: "db = [] \<or> sub_scope_visible p c ''database'' db" using admitted assms(3) by blast
  then have level: "ra_level (resolve p ?gs c (if db = [] then None else Some (''database'', db))) =
      scoped_level p ?gs c (if db = [] then None else Some (''database'', db))"
    using visible(1) by (auto simp: resolve_level resolve_visible)
  have toolsets: "from_flags_pair (effective_database_execution_policy_with_groups (to_v1 p) ?gs c db) \<le> m"
    if t: "t \<noteq> SALESFORCE_WRITE_TOOLSET" "toolset_ceiling p c t = Some m" for t m
  proof -
    obtain r where "connection_rule p c = Some r" "map_of (ar_toolset_ceilings r) t = Some m"
      using t by (auto simp: toolset_ceiling_def option_or_def bind_eq_Some_conv split: option.splits)
    then show ?thesis using projected_toolset_le [of p c r t m] t(1) below by auto
  qed
  note salesforce = access_rules.salesforce_opened [OF ar visible(2)]
  show ?thesis unfolding level using visible(1) sub below toolsets salesforce by blast
qed

definition sample_access :: McpAccessPolicy where
  "sample_access = default_policy\<lparr>ap_visibility := VisSelected,
     ap_rules :=
       [(TGroup ''g'', default_rule\<lparr>ar_access := Some LvWrite\<rparr>),
        (TConnection ''c'', default_rule\<lparr>ar_visible := Some True, ar_ceiling := Some LvFull,
           ar_sub_scope := Some SubSelected, ar_toolset_ceilings := [(''git'', LvWrite)]\<rparr>),
        (TScope ''c'' ''database'' ''d'', default_rule\<lparr>ar_visible := Some True, ar_access := Some LvFull\<rparr>)]\<rparr>"

theorem to_v1_never_wider_witness:
  "connection_visible sample_access [] ''c'' \<and> sub_scope_visible sample_access ''c'' ''database'' ''d'' \<and>
   from_flags_pair (effective_database_execution_policy_with_groups (to_v1 sample_access) [] ''c'' ''d'')
     \<le> ra_level (resolve sample_access [] ''c'' (Some (''database'', ''d'')))"
proof -
  have "rules_wf (ap_rules sample_access)" by code_simp
  moreover have "policy_allows_connection (to_v1 sample_access) None ''c''" by code_simp
  moreover have "ensure_database_in_scope (database_scope_for_connection (to_v1 sample_access) ''c'') ''d'' = Inr ()"
    by code_simp
  ultimately show ?thesis
    using to_v1_never_wider [of sample_access None "''c''" "''d''"] by simp
qed

end
