(* ===== verification/Write_Unlock.thy ===== *)
theory Write_Unlock
  imports Prelude
begin

text \<open>
  The temporary write-unlock windows of \<^verbatim>\<open>crates/dbx-core/src/safety/write_unlock.rs\<close>. A clock
  reading (\<^verbatim>\<open>Instant\<close>) and a duration are nanoseconds. The owner that
  \<^verbatim>\<open>current_credential_owner\<close> gives a request is an argument of the operations. The query for
  the remaining time releases its read lock before it takes the write lock to drop an expired
  window, so it is two steps here, and another request can run between them.
\<close>

section \<open>Operations\<close>

type_synonym instant = nat

definition nanos_per_sec :: nat where
  "nanos_per_sec = 1000000000"

definition nanos_per_milli :: nat where
  "nanos_per_milli = 1000000"

definition WRITE_UNLOCK_ONE_MINUTE_SECS :: "64 word" where
  "WRITE_UNLOCK_ONE_MINUTE_SECS = 60"

definition WRITE_UNLOCK_FIVE_MINUTES_SECS :: "64 word" where
  "WRITE_UNLOCK_FIVE_MINUTES_SECS = 300"

record WriteUnlockKey =
  wk_owner_scope :: string
  wk_connection_id :: string

definition key_current :: "string option \<Rightarrow> string \<Rightarrow> WriteUnlockKey" where
  "key_current owner connection_id =
     \<lparr>wk_owner_scope = unwrap_or [] owner, wk_connection_id = connection_id\<rparr>"

type_synonym windows = "(WriteUnlockKey, instant) hmap"

definition parse_duration_secs :: "64 word \<Rightarrow> string + nat" where
  "parse_duration_secs secs =
     (if secs = WRITE_UNLOCK_ONE_MINUTE_SECS then Inr (unat WRITE_UNLOCK_ONE_MINUTE_SECS * nanos_per_sec)
      else if secs = WRITE_UNLOCK_FIVE_MINUTES_SECS then Inr (unat WRITE_UNLOCK_FIVE_MINUTES_SECS * nanos_per_sec)
      else Inl ''Write unlock duration must be 1 minute or 5 minutes.'')"

definition unlock :: "string option \<Rightarrow> instant \<Rightarrow> windows \<Rightarrow> string \<Rightarrow> 64 word \<Rightarrow> windows \<times> (string + 64 word)" where
  "unlock owner now inner connection_id duration_secs =
     (if trim connection_id = [] then (inner, Inl ''Connection id is required.'')
      else (case parse_duration_secs duration_secs of
              Inl e \<Rightarrow> (inner, Inl e)
            | Inr duration \<Rightarrow>
                (hm_insert (key_current owner connection_id) (now + duration) inner,
                 Inr (of_nat (duration div nanos_per_milli)))))"

definition lock :: "string option \<Rightarrow> windows \<Rightarrow> string \<Rightarrow> windows" where
  "lock owner inner connection_id = hm_remove (key_current owner connection_id) inner"

text \<open>The read of \<^verbatim>\<open>remaining_ms\<close>, then \<^verbatim>\<open>remaining_ms_from\<close> with what was read.\<close>

definition remaining_read :: "string option \<Rightarrow> windows \<Rightarrow> string \<Rightarrow> instant option" where
  "remaining_read owner inner connection_id = map_of inner (key_current owner connection_id)"

definition remaining_ms_from :: "instant \<Rightarrow> instant \<Rightarrow> windows \<Rightarrow> WriteUnlockKey \<Rightarrow> windows \<times> 64 word" where
  "remaining_ms_from expires_at now inner key =
     (if now \<ge> expires_at then (hm_remove key inner, 0)
      else (inner, of_nat ((expires_at - now) div nanos_per_milli)))"

text \<open>\<^verbatim>\<open>remaining_ms\<close> when no other request runs between the two locks.\<close>

definition remaining_ms :: "string option \<Rightarrow> instant \<Rightarrow> windows \<Rightarrow> string \<Rightarrow> windows \<times> 64 word" where
  "remaining_ms owner now inner connection_id =
     (case remaining_read owner inner connection_id of
        None \<Rightarrow> (inner, 0)
      | Some expires_at \<Rightarrow> remaining_ms_from expires_at now inner (key_current owner connection_id))"

definition is_active :: "string option \<Rightarrow> instant \<Rightarrow> windows \<Rightarrow> string \<Rightarrow> windows \<times> bool" where
  "is_active owner now inner connection_id =
     (let (inner', ms) = remaining_ms owner now inner connection_id in (inner', ms > 0))"

section \<open>Histories\<close>

text \<open>
  The requests the windows have served, in order. A query that found an expired window removes it
  in a later step of its own, \<open>Drop\<close>, which acts on the instant that was read.
\<close>

datatype request =
    Unlock "string option" instant string "64 word"
  | Lock "string option" string
  | Drop "string option" string instant instant

fun serve :: "windows \<Rightarrow> request \<Rightarrow> windows" where
  "serve w (Unlock owner now c secs) = fst (unlock owner now w c secs)"
| "serve w (Lock owner c) = lock owner w c"
| "serve w (Drop owner c expires_at now) = fst (remaining_ms_from expires_at now w (key_current owner c))"

definition history :: "request list \<Rightarrow> windows" where
  "history rs = foldl serve [] rs"

text \<open>\<open>granted k e rs\<close>: the last request that sets or clears the window of key \<open>k\<close> is an unlock that ends at \<open>e\<close>.\<close>

definition clears :: "WriteUnlockKey \<Rightarrow> request \<Rightarrow> bool" where
  "clears k r = (case r of Lock owner c \<Rightarrow> key_current owner c = k | _ \<Rightarrow> False)"

definition grants :: "WriteUnlockKey \<Rightarrow> instant \<Rightarrow> request \<Rightarrow> bool" where
  "grants k e r =
     (case r of
        Unlock owner now c secs \<Rightarrow>
          key_current owner c = k \<and> trim c \<noteq> [] \<and> (secs = 60 \<or> secs = 300) \<and> e = now + unat secs * nanos_per_sec
      | _ \<Rightarrow> False)"

lemma unlock_cases:
  "fst (unlock owner now w c secs) =
   (if trim c \<noteq> [] \<and> (secs = 60 \<or> secs = 300)
    then hm_insert (key_current owner c) (now + unat secs * nanos_per_sec) w else w)"
  by (simp add: unlock_def parse_duration_secs_def WRITE_UNLOCK_ONE_MINUTE_SECS_def
      WRITE_UNLOCK_FIVE_MINUTES_SECS_def)

lemma history_granted:
  "map_of (history rs) k = Some e \<Longrightarrow>
   \<exists>pre r post. rs = pre @ r # post \<and> grants k e r \<and> list_all (\<lambda>r. \<not> clears k r) post"
proof (induction rs rule: rev_induct)
  case Nil
  then show ?case by (simp add: history_def)
next
  case (snoc r rs)
  have step: "map_of (serve (history rs) r) k = Some e" using snoc.prems by (simp add: history_def)
  show ?case
  proof (cases "grants k e r")
    case True
    then show ?thesis by (intro exI [of _ rs] exI [of _ r] exI [of _ "[]"]) simp
  next
    case False
    then have old: "map_of (history rs) k = Some e \<and> \<not> clears k r"
      using step
      by (cases r) (auto simp: unlock_cases lock_def remaining_ms_from_def hmap_simps grants_def clears_def
          split: if_splits)
    then obtain pre r' post where "rs = pre @ r' # post" "grants k e r'" "list_all (\<lambda>r. \<not> clears k r) post"
      using snoc.IH by blast
    then show ?thesis using old by (intro exI [of _ pre] exI [of _ r'] exI [of _ "post @ [r]"]) simp
  qed
qed

lemma sample_connection_id: "trim ''c'' \<noteq> []"
  by code_simp

lemmas windows_eval = is_active_def remaining_ms_def remaining_read_def remaining_ms_from_def history_def
  unlock_cases sample_connection_id hmap_simps nanos_per_sec_def nanos_per_milli_def

section \<open>Properties\<close>

text \<open>
  C32: a connection is writable only inside a window its own owner opened. Whatever requests were
  served before, in any interleaving, if the check at an instant finds the window active then
  an unlock of 60 or 300 seconds by the same owner for the same connection is in the history, the
  instant is before its end, and the same owner has not locked the connection since.
\<close>
theorem active_only_if_unlocked:
  assumes "snd (is_active owner now (history rs) c)"
  shows "\<exists>pre t secs post r.
    rs = pre @ r # post \<and> grants (key_current owner c) (t + unat secs * nanos_per_sec) r \<and>
    (secs = 60 \<or> secs = (300 :: 64 word)) \<and> now < t + unat secs * nanos_per_sec \<and>
    list_all (\<lambda>r. \<not> clears (key_current owner c) r) post"
proof -
  let ?k = "key_current owner c"
  obtain e where e: "map_of (history rs) ?k = Some e" and now: "now < e"
    using assms by (auto simp: is_active_def remaining_ms_def remaining_read_def remaining_ms_from_def Let_def
        split: option.splits if_splits)
  obtain pre r post where r: "rs = pre @ r # post" "grants ?k e r" "list_all (\<lambda>r. \<not> clears ?k r) post"
    using history_granted [OF e] by blast
  obtain t and secs :: "64 word" where "e = t + unat secs * nanos_per_sec" "secs = 60 \<or> secs = 300"
    using r(2) by (auto simp: grants_def split: request.splits)
  then show ?thesis using r now by blast
qed

theorem active_only_if_unlocked_witness:
  "\<exists>pre t secs post r.
    [Unlock (Some ''u'') 5 ''c'' 60] = pre @ r # post \<and>
    grants (key_current (Some ''u'') ''c'') (t + unat secs * nanos_per_sec) r \<and>
    (secs = 60 \<or> secs = (300 :: 64 word)) \<and> 10 < t + unat secs * nanos_per_sec \<and>
    list_all (\<lambda>r. \<not> clears (key_current (Some ''u'') ''c'') r) post"
  by (rule active_only_if_unlocked) (simp add: windows_eval)


end
