(* ===== verification/Tool_Approval.thy ===== *)
theory Tool_Approval
  imports Prelude
begin

text \<open>
  Interactive approvals: the process-wide registry of
  \<^verbatim>\<open>crates/dbx-core/src/ai/tool_approval.rs\<close> and the request the desktop shows, from
  \<^verbatim>\<open>crates/dbx-mcp/src/approval.rs\<close>. The \<^verbatim>\<open>oneshot\<close> channel of an approval is part of the
  registry state: the value sent, and whether the receiver still exists. The identifier that
  \<^verbatim>\<open>Uuid::new_v4\<close> gives is an argument of \<^verbatim>\<open>register_tool_approval\<close>; a registration step is
  possible only with an identifier that was never used.
\<close>

section \<open>The registry\<close>

record approvals =
  pending :: "(string, string) hmap"
  sent :: "(string, bool) hmap"
  receivers :: "string list"

definition no_approvals :: approvals where
  "no_approvals = \<lparr>pending = [], sent = [], receivers = []\<rparr>"

datatype ToolApprovalWait = Approved | Denied | TimedOut | Cancelled

definition register_tool_approval :: "string \<Rightarrow> string \<Rightarrow> approvals \<Rightarrow> approvals" where
  "register_tool_approval session_id approval_id s =
     s\<lparr>pending := hm_insert approval_id session_id (pending s), receivers := approval_id # receivers s\<rparr>"

definition resolve_tool_approval :: "string \<Rightarrow> string \<Rightarrow> bool \<Rightarrow> approvals \<Rightarrow> approvals \<times> bool" where
  "resolve_tool_approval session_id approval_id approved s =
     (if \<not> is_some_and (\<lambda>entry. entry = session_id) (map_of (pending s) approval_id) then (s, False)
      else
        (let s1 = s\<lparr>pending := hm_remove approval_id (pending s)\<rparr>
         in if approval_id \<in> set (receivers s)
            then (s1\<lparr>sent := hm_insert approval_id approved (sent s1)\<rparr>, True)
            else (s1, False)))"

definition drop_approval :: "string \<Rightarrow> approvals \<Rightarrow> approvals" where
  "drop_approval approval_id s =
     s\<lparr>pending := hm_remove approval_id (pending s), receivers := removeAll approval_id (receivers s)\<rparr>"

text \<open>
  How the race of \<^verbatim>\<open>wait\<close> ends. The answer branch is taken when the channel resolves: with the
  value sent, or because the responder is gone (the entry was removed and nothing was sent).
\<close>

datatype wait_event = WaitCancelled | WaitAnswer | WaitTimeout

definition wait_outcome :: "string \<Rightarrow> approvals \<Rightarrow> wait_event \<Rightarrow> ToolApprovalWait" where
  "wait_outcome approval_id s ev =
     (if approval_id \<notin> set (receivers s) then Denied
      else (case ev of
              WaitCancelled \<Rightarrow> Cancelled
            | WaitAnswer \<Rightarrow> (case map_of (sent s) approval_id of Some True \<Rightarrow> Approved | _ \<Rightarrow> Denied)
            | WaitTimeout \<Rightarrow> TimedOut))"

definition wait :: "string \<Rightarrow> approvals \<Rightarrow> wait_event \<Rightarrow> approvals \<times> ToolApprovalWait" where
  "wait approval_id s ev = (drop_approval approval_id s, wait_outcome approval_id s ev)"

section \<open>The confirmation request\<close>

definition MAX_ARGUMENT_PREVIEW_CHARS :: nat where
  "MAX_ARGUMENT_PREVIEW_CHARS = 4000"

text \<open>A byte that continues a UTF-8 sequence does not start a character.\<close>

definition continuation :: "char \<Rightarrow> bool" where
  "continuation b \<longleftrightarrow> 128 \<le> byte b \<and> byte b < 192"

definition chars_count :: "string \<Rightarrow> nat" where
  "chars_count s = length (filter (\<lambda>b. \<not> continuation b) s)"

fun chars_take :: "nat \<Rightarrow> string \<Rightarrow> string" where
  "chars_take n [] = []"
| "chars_take n (b # s) =
     (if continuation b then b # chars_take n s
      else (case n of 0 \<Rightarrow> [] | Suc m \<Rightarrow> b # chars_take m s))"

definition ellipsis :: string where
  "ellipsis = [CHR 0x0A, CHR 0xE2, CHR 0x80, CHR 0xA6]"

definition preview :: "string \<Rightarrow> string" where
  "preview text =
     (if chars_count text \<le> MAX_ARGUMENT_PREVIEW_CHARS then text
      else chars_take MAX_ARGUMENT_PREVIEW_CHARS text @ ellipsis)"

datatype ToolApprovalKind = PluginTool | RedisCommand | MongoCommand | ProductTool | ConnectionManagement

record ToolApprovalRequest =
  tr_kind :: ToolApprovalKind
  tr_tool :: string
  tr_plugin :: "string option"
  tr_connection_id :: "string option"
  tr_database :: "string option"
  tr_detail :: string

definition request_new :: "ToolApprovalKind \<Rightarrow> string \<Rightarrow> string \<Rightarrow> ToolApprovalRequest" where
  "request_new kind tool detail =
     \<lparr>tr_kind = kind, tr_tool = tool, tr_plugin = None, tr_connection_id = None, tr_database = None,
      tr_detail = preview detail\<rparr>"

definition with_plugin :: "ToolApprovalRequest \<Rightarrow> string \<Rightarrow> ToolApprovalRequest" where
  "with_plugin r plugin = r\<lparr>tr_plugin := Some plugin\<rparr>"

definition with_target :: "ToolApprovalRequest \<Rightarrow> string option \<Rightarrow> string option \<Rightarrow> ToolApprovalRequest" where
  "with_target r connection_id database = r\<lparr>tr_connection_id := connection_id, tr_database := database\<rparr>"

section \<open>Histories of the registry\<close>

datatype approval_event =
    Registered string string
  | Resolved string string bool bool
  | Waited string wait_event ToolApprovalWait
  | Dropped string

definition registers :: "string \<Rightarrow> approval_event \<Rightarrow> bool" where
  "registers i e = (case e of Registered _ j \<Rightarrow> j = i | _ \<Rightarrow> False)"

text \<open>The registry after a history, most recent event first.\<close>

inductive reached :: "approval_event list \<Rightarrow> approvals \<Rightarrow> bool" where
  start: "reached [] no_approvals"
| register: "reached es s \<Longrightarrow> list_all (\<lambda>e. \<not> registers i e) es \<Longrightarrow>
    reached (Registered session i # es) (register_tool_approval session i s)"
| resolve: "reached es s \<Longrightarrow> resolve_tool_approval session i approved s = (s', accepted) \<Longrightarrow>
    reached (Resolved session i approved accepted # es) s'"
| wait: "reached es s \<Longrightarrow> wait i s ev = (s', outcome) \<Longrightarrow> reached (Waited i ev outcome # es) s'"
| drop: "reached es s \<Longrightarrow> reached (Dropped i # es) (drop_approval i s)"

definition accepted_answers :: "string \<Rightarrow> approval_event list \<Rightarrow> approval_event list" where
  "accepted_answers i es = filter (\<lambda>e. case e of Resolved _ j _ True \<Rightarrow> j = i | _ \<Rightarrow> False) es"

definition registry_inv :: "approval_event list \<Rightarrow> approvals \<Rightarrow> bool" where
  "registry_inv es s \<longleftrightarrow>
     (\<forall>i session. map_of (pending s) i = Some session \<longrightarrow>
        Registered session i \<in> set es \<and> accepted_answers i es = []) \<and>
     (\<forall>i. i \<in> set (receivers s) \<longrightarrow> (\<exists>session. Registered session i \<in> set es)) \<and>
     (\<forall>i b. map_of (sent s) i = Some b \<longrightarrow>
        (\<exists>session. accepted_answers i es = [Resolved session i b True] \<and> Registered session i \<in> set es)) \<and>
     (\<forall>i. length (accepted_answers i es) \<le> 1) \<and>
     (\<forall>i. accepted_answers i es \<noteq> [] \<longrightarrow> list_ex (registers i) es)"

lemma accepted_answers_Cons:
  "accepted_answers i (Registered session j # es) = accepted_answers i es"
  "accepted_answers i (Waited j ev w # es) = accepted_answers i es"
  "accepted_answers i (Dropped j # es) = accepted_answers i es"
  "accepted_answers i (Resolved session j b False # es) = accepted_answers i es"
  "accepted_answers i (Resolved session j b True # es) =
     (if j = i then Resolved session j b True # accepted_answers i es else accepted_answers i es)"
  by (simp_all add: accepted_answers_def)

lemma registry_inv_register:
  assumes "registry_inv es s" and "list_all (\<lambda>e. \<not> registers i e) es"
  shows "registry_inv (Registered session i # es) (register_tool_approval session i s)"
proof -
  have "accepted_answers i es = []"
    using assms by (auto simp: registry_inv_def list_all_iff list_ex_iff)
  then show ?thesis
    using assms(1)
    by (simp add: registry_inv_def register_tool_approval_def hmap_simps accepted_answers_Cons registers_def) metis
qed

lemma registry_inv_resolve:
  assumes "registry_inv es s" and "resolve_tool_approval session i b s = (s', ok)"
  shows "registry_inv (Resolved session i b ok # es) s'"
proof (cases "map_of (pending s) i = Some session")
  case False
  then have "s' = s" "\<not> ok"
    using assms(2) by (auto simp: resolve_tool_approval_def is_some_and_def split: option.splits if_splits)
  then show ?thesis using assms(1) by (auto simp: registry_inv_def accepted_answers_Cons registers_def)
next
  case True
  then have reg: "Registered session i \<in> set es" and none: "accepted_answers i es = []"
    using assms(1) by (auto simp: registry_inv_def)
  have "list_ex (registers i) es" using reg by (auto simp: list_ex_iff registers_def intro: bexI [of _ "Registered session i"])
  then show ?thesis
    using True reg none assms
    by (cases ok) (auto simp: resolve_tool_approval_def registry_inv_def hmap_simps accepted_answers_Cons Let_def
        split: if_splits)
qed

lemma registry_inv_drop:
  "registry_inv es s \<Longrightarrow> registry_inv (Dropped i # es) (drop_approval i s)"
  by (auto simp: registry_inv_def drop_approval_def hmap_simps accepted_answers_Cons registers_def split: if_splits)

lemma registry_inv_reached: "reached es s \<Longrightarrow> registry_inv es s"
proof (induction rule: reached.induct)
  case start
  show ?case by (simp add: registry_inv_def no_approvals_def accepted_answers_def)
next
  case (wait es s i ev s' outcome)
  then show ?case
    using registry_inv_drop [of es s i]
    by (auto simp: wait_def registry_inv_def accepted_answers_Cons registers_def)
qed (simp_all add: registry_inv_register registry_inv_resolve registry_inv_drop)

lemma chars_count_take: "chars_count (chars_take n s) \<le> n"
  by (induction n s rule: chars_take.induct) (auto simp: chars_count_def split: nat.splits)

section \<open>Properties\<close>

text \<open>
  C31: a tool call runs only on a user's answer. In any history of registrations, answers, waits and
  drops, a wait that ends approved was preceded by exactly one accepted answer for its identifier;
  that answer approved the call and came from the session that registered the approval.
\<close>
theorem approved_only_by_owner:
  assumes "reached es s" and "wait i s ev = (s', Approved)"
  shows "\<exists>session. accepted_answers i es = [Resolved session i True True] \<and> Registered session i \<in> set es"
proof -
  have "map_of (sent s) i = Some True"
    using assms(2) by (auto simp: wait_def wait_outcome_def split: if_splits wait_event.splits option.splits bool.splits)
  then show ?thesis using registry_inv_reached [OF assms(1)] by (auto simp: registry_inv_def)
qed

definition sample_history :: "approval_event list" where
  "sample_history = [Resolved ''s'' ''a'' True True, Resolved ''t'' ''a'' True False, Registered ''s'' ''a'']"

lemma sample_reached:
  "\<exists>s. reached sample_history s \<and> wait ''a'' s WaitAnswer = (drop_approval ''a'' s, Approved)"
proof -
  let ?s = "register_tool_approval ''s'' ''a'' no_approvals"
  have 1: "reached [Registered ''s'' ''a''] ?s"
    by (rule reached.register [OF reached.start]) simp
  have r2: "resolve_tool_approval ''t'' ''a'' True ?s = (?s, False)"
    by (simp add: resolve_tool_approval_def register_tool_approval_def no_approvals_def hmap_simps)
  obtain s' where s': "resolve_tool_approval ''s'' ''a'' True ?s = (s', True)"
    by (simp add: resolve_tool_approval_def register_tool_approval_def no_approvals_def hmap_simps)
  have "reached sample_history s'"
    unfolding sample_history_def by (rule reached.resolve [OF reached.resolve [OF 1 r2] s'])
  moreover have "wait ''a'' s' WaitAnswer = (drop_approval ''a'' s', Approved)"
    using s' by (auto simp: wait_def wait_outcome_def resolve_tool_approval_def register_tool_approval_def
        no_approvals_def hmap_simps Let_def)
  ultimately show ?thesis by blast
qed

theorem approved_only_by_owner_witness:
  "\<exists>session. accepted_answers ''a'' sample_history = [Resolved session ''a'' True True] \<and>
     Registered session ''a'' \<in> set sample_history"
proof -
  obtain s where "reached sample_history s" "wait ''a'' s WaitAnswer = (drop_approval ''a'' s, Approved)"
    using sample_reached by blast
  then show ?thesis by (rule approved_only_by_owner)
qed

text \<open>
  The argument preview of the confirmation dialog never holds more than 4000 characters of the
  call and its two-character ellipsis, and a call within the limit is shown unchanged.
\<close>
theorem preview_bounded:
  "chars_count (preview t) \<le> MAX_ARGUMENT_PREVIEW_CHARS + 2 \<and>
   (preview t = t \<or> chars_count t > MAX_ARGUMENT_PREVIEW_CHARS \<and>
      preview t = chars_take MAX_ARGUMENT_PREVIEW_CHARS t @ ellipsis)"
proof -
  have "chars_count (chars_take n t @ ellipsis) \<le> n + 2" for n
    using chars_count_take [of n t] by (simp add: chars_count_def ellipsis_def continuation_def)
  then show ?thesis by (auto simp: preview_def)
qed

end
