(* ===== verification/Mcp_Session.thy ===== *)
theory Mcp_Session
  imports Prelude
begin

text \<open>
  The store of MCP sessions, \<^verbatim>\<open>crates/dbx-mcp/src/session.rs\<close>. Every operation holds the store's
  mutex for its whole body, so each is one step. Instants and durations are nanoseconds; the
  clock reading is an argument, and so is the identifier that \<^verbatim>\<open>Uuid::new_v4\<close> gives a new
  session. A transaction owner is represented by a number that names it.
\<close>

section \<open>Operations\<close>

definition SESSION_IDLE_TTL_SECS :: "64 word" where
  "SESSION_IDLE_TTL_SECS = 1800"

text \<open>
  \<^verbatim>\<open>Instant::checked_add\<close> fails beyond a limit of the platform's clock: whether a time to live
  can be added to the current instant is an argument.
\<close>

definition session_idle_ttl_from_value :: "(64 word \<Rightarrow> bool) \<Rightarrow> string option \<Rightarrow> 64 word" where
  "session_idle_ttl_from_value checked_add v =
     unwrap_or SESSION_IDLE_TTL_SECS
       (option_filter checked_add
         (option_filter (\<lambda>seconds. seconds > 0) (Option.bind v (\<lambda>v. parse_u64 (trim v)))))"

definition MAX_SESSIONS :: nat where
  "MAX_SESSIONS = 32"

record McpSession =
  ses_id :: string
  ses_connection_id :: string
  ses_database :: string
  ses_client_session_id :: string
  ses_transaction_owner :: "nat option"
  ses_last_used :: nat

record McpSessionState =
  st_opening :: "(string, McpSession) hmap"
  st_active :: "(string, McpSession) hmap"
  st_closing :: "(string, McpSession) hmap"

definition empty_state :: McpSessionState where
  "empty_state = \<lparr>st_opening = [], st_active = [], st_closing = []\<rparr>"

definition new_session :: "string \<Rightarrow> nat \<Rightarrow> string \<Rightarrow> string \<Rightarrow> McpSession" where
  "new_session uuid now connection_id database =
     (let i = ''mcp-session-'' @ uuid
      in \<lparr>ses_id = i, ses_connection_id = connection_id, ses_database = database,
          ses_client_session_id = ''mcp:'' @ i, ses_transaction_owner = None, ses_last_used = now\<rparr>)"

definition session_count :: "McpSessionState \<Rightarrow> nat" where
  "session_count s = length (st_opening s) + length (st_active s) + length (st_closing s)"

definition expired_ids :: "nat \<Rightarrow> nat \<Rightarrow> McpSessionState \<Rightarrow> string list" where
  "expired_ids now idle_ttl s =
     map fst (filter (\<lambda>(_, session). now - ses_last_used session \<ge> idle_ttl) (st_active s))"

definition expire_one :: "McpSessionState \<times> McpSession list \<Rightarrow> string \<Rightarrow> McpSessionState \<times> McpSession list" where
  "expire_one a i =
     (case map_of (st_active (fst a)) i of
        None \<Rightarrow> a
      | Some session \<Rightarrow>
          ((fst a)\<lparr>st_active := hm_remove i (st_active (fst a)), st_closing := hm_insert i session (st_closing (fst a))\<rparr>,
           snd a @ [session]))"

definition sweep_expired :: "nat \<Rightarrow> nat \<Rightarrow> McpSessionState \<Rightarrow> McpSessionState \<times> McpSession list" where
  "sweep_expired now idle_ttl s = foldl expire_one (s, []) (expired_ids now idle_ttl s)"

definition too_many_sessions :: string where
  "too_many_sessions = ''Too many open MCP sessions (max '' @ show_nat MAX_SESSIONS @
     ''). Close unused sessions with dbx_close_session.''"

type_synonym 'a store_result = "'a \<times> McpSession list"

definition open_session ::
    "nat \<Rightarrow> string \<Rightarrow> nat \<Rightarrow> McpSessionState \<Rightarrow> string \<Rightarrow> string \<Rightarrow>
     McpSessionState \<times> (string + McpSession) store_result" where
  "open_session idle_ttl uuid now s connection_id database =
     (let (s1, expired) = sweep_expired now idle_ttl s
      in if session_count s1 \<ge> MAX_SESSIONS then (s1, (Inl too_many_sessions, expired))
         else (let session = new_session uuid now connection_id database
               in (s1\<lparr>st_active := hm_insert (ses_id session) session (st_active s1)\<rparr>, (Inr session, expired))))"

definition reserve_opening ::
    "nat \<Rightarrow> string \<Rightarrow> nat \<Rightarrow> McpSessionState \<Rightarrow> string \<Rightarrow> string \<Rightarrow>
     McpSessionState \<times> (string + McpSession) store_result" where
  "reserve_opening idle_ttl uuid now s connection_id database =
     (let (s1, expired) = sweep_expired now idle_ttl s
      in if session_count s1 \<ge> MAX_SESSIONS then (s1, (Inl too_many_sessions, expired))
         else (let session = new_session uuid now connection_id database
               in (s1\<lparr>st_opening := hm_insert (ses_id session) session (st_opening s1)\<rparr>, (Inr session, expired))))"

definition promote_opening :: "McpSessionState \<Rightarrow> string \<Rightarrow> nat \<Rightarrow> McpSessionState \<times> (string + McpSession)" where
  "promote_opening s session_id owner =
     (case map_of (st_opening s) session_id of
        None \<Rightarrow> (s, Inl ''MCP session opening was cancelled'')
      | Some session \<Rightarrow>
          (let session1 = session\<lparr>ses_transaction_owner := Some owner\<rparr>
           in (s\<lparr>st_opening := hm_remove session_id (st_opening s),
                 st_active := hm_insert (ses_id session1) session1 (st_active s)\<rparr>, Inr session1)))"

definition cancel_opening :: "McpSessionState \<Rightarrow> string \<Rightarrow> McpSessionState \<times> McpSession option" where
  "cancel_opening s session_id =
     (s\<lparr>st_opening := hm_remove session_id (st_opening s)\<rparr>, map_of (st_opening s) session_id)"

definition attach_transaction_owner :: "McpSessionState \<Rightarrow> string \<Rightarrow> nat \<Rightarrow> McpSessionState \<times> (string + unit)" where
  "attach_transaction_owner s session_id owner =
     (case map_of (st_active s) session_id of
        None \<Rightarrow> (s, Inl ''MCP session is no longer active'')
      | Some session \<Rightarrow>
          (s\<lparr>st_active := hm_insert session_id (session\<lparr>ses_transaction_owner := Some owner\<rparr>) (st_active s)\<rparr>, Inr ()))"

definition resolve_session ::
    "nat \<Rightarrow> nat \<Rightarrow> McpSessionState \<Rightarrow> string \<Rightarrow> McpSessionState \<times> McpSession option store_result" where
  "resolve_session idle_ttl now s session_id =
     (let (s1, expired) = sweep_expired now idle_ttl s
      in case map_of (st_active s1) session_id of
           None \<Rightarrow> (s1, (None, expired))
         | Some session \<Rightarrow>
             (let session1 = session\<lparr>ses_last_used := now\<rparr>
              in (s1\<lparr>st_active := hm_insert session_id session1 (st_active s1)\<rparr>, (Some session1, expired))))"

definition begin_close ::
    "nat \<Rightarrow> nat \<Rightarrow> McpSessionState \<Rightarrow> string \<Rightarrow> McpSessionState \<times> McpSession option store_result" where
  "begin_close idle_ttl now s session_id =
     (let (s1, expired) = sweep_expired now idle_ttl s
      in case map_of (st_active s1) session_id of
           None \<Rightarrow> (s1, (None, expired))
         | Some session \<Rightarrow>
             (s1\<lparr>st_active := hm_remove session_id (st_active s1),
                 st_closing := (if map_of (st_closing s1) (ses_id session) = None
                             then hm_insert (ses_id session) session (st_closing s1) else st_closing s1)\<rparr>,
              (Some session, expired)))"

definition finish_close :: "McpSessionState \<Rightarrow> string \<Rightarrow> McpSessionState" where
  "finish_close s session_id = s\<lparr>st_closing := hm_remove session_id (st_closing s)\<rparr>"

definition restore_after_failed_close :: "nat \<Rightarrow> McpSessionState \<Rightarrow> McpSession \<Rightarrow> McpSessionState" where
  "restore_after_failed_close now s session =
     (case map_of (st_closing s) (ses_id session) of
        None \<Rightarrow> s
      | Some _ \<Rightarrow>
          s\<lparr>st_closing := hm_remove (ses_id session) (st_closing s),
            st_active := hm_insert (ses_id session) (session\<lparr>ses_last_used := now\<rparr>) (st_active s)\<rparr>)"

definition take_all_active :: "McpSessionState \<Rightarrow> McpSessionState \<times> McpSession list" where
  "take_all_active s = (s\<lparr>st_active := []\<rparr>, map snd (st_closing s) @ map snd (st_active s))"

section \<open>The invariant of the store\<close>

definition filed :: "(string, McpSession) hmap \<Rightarrow> bool" where
  "filed m \<longleftrightarrow> hm_wf m \<and> (\<forall>i session. map_of m i = Some session \<longrightarrow> ses_id session = i)"

definition apart :: "McpSessionState \<Rightarrow> bool" where
  "apart s \<longleftrightarrow>
     dom (map_of (st_opening s)) \<inter> dom (map_of (st_active s)) = {} \<and>
     dom (map_of (st_opening s)) \<inter> dom (map_of (st_closing s)) = {} \<and>
     dom (map_of (st_active s)) \<inter> dom (map_of (st_closing s)) = {}"

definition store_ok :: "McpSessionState \<Rightarrow> bool" where
  "store_ok s \<longleftrightarrow> filed (st_opening s) \<and> filed (st_active s) \<and> filed (st_closing s) \<and> apart s \<and> session_count s \<le> MAX_SESSIONS"

definition known :: "McpSessionState \<Rightarrow> string \<Rightarrow> bool" where
  "known s i \<longleftrightarrow> map_of (st_opening s) i \<noteq> None \<or> map_of (st_active s) i \<noteq> None \<or> map_of (st_closing s) i \<noteq> None"

lemma filed_insert [intro]: "filed m \<Longrightarrow> ses_id v = i \<Longrightarrow> filed (hm_insert i v m)"
  by (auto simp: filed_def hmap_simps hmap.invar_insert)

lemma filed_remove [intro]: "filed m \<Longrightarrow> filed (hm_remove i m)"
  by (auto simp: filed_def hmap_simps hmap.invar_remove)

lemma filed_wf: "filed m \<Longrightarrow> hm_wf m"
  by (simp add: filed_def)

lemma expire_one_ok:
  assumes "store_ok (fst a)"
  shows "store_ok (fst (expire_one a i))"
    and "session_count (fst (expire_one a i)) = session_count (fst a)"
    and "known (fst (expire_one a i)) = known (fst a)"
proof -
  let ?s = "fst a"
  have "store_ok (fst (expire_one a i)) \<and> session_count (fst (expire_one a i)) = session_count ?s \<and>
      known (fst (expire_one a i)) = known ?s"
  proof (cases "map_of (st_active ?s) i")
    case None
    then show ?thesis using assms by (simp add: expire_one_def)
  next
    case (Some session)
    have none: "map_of (st_closing ?s) i = None"
      using assms Some by (auto simp: store_ok_def apart_def)
    then have count: "length (hm_remove i (st_active ?s)) + length (hm_insert i session (st_closing ?s)) =
        length (st_active ?s) + length (st_closing ?s)"
      using assms Some by (intro hmap.len_move) (auto simp: store_ok_def filed_wf)
    have "filed (hm_remove i (st_active ?s))" "filed (hm_insert i session (st_closing ?s))"
      using assms Some by (auto simp: store_ok_def filed_def [of "st_active ?s"])
    then show ?thesis
      using assms Some count
      by (auto simp: expire_one_def store_ok_def apart_def session_count_def known_def hmap_simps fun_eq_iff
          split: if_splits)
  qed
  then show "store_ok (fst (expire_one a i))"
    and "session_count (fst (expire_one a i)) = session_count (fst a)"
    and "known (fst (expire_one a i)) = known (fst a)" by blast+
qed

lemma sweep_ok:
  assumes "store_ok s"
  shows "store_ok (fst (sweep_expired now ttl s))"
    and "session_count (fst (sweep_expired now ttl s)) = session_count s"
    and "known (fst (sweep_expired now ttl s)) = known s"
proof -
  have "store_ok (fst (foldl expire_one a js)) \<and> session_count (fst (foldl expire_one a js)) = session_count (fst a) \<and>
      known (fst (foldl expire_one a js)) = known (fst a)" if "store_ok (fst a)" for a js
    using that by (induction js arbitrary: a) (simp_all add: expire_one_ok)
  from this [of "(s, [])"] show "store_ok (fst (sweep_expired now ttl s))"
    and "session_count (fst (sweep_expired now ttl s)) = session_count s"
    and "known (fst (sweep_expired now ttl s)) = known s"
    using assms by (simp_all add: sweep_expired_def)
qed

lemma expire_fold:
  "map_of (st_active (fst (foldl expire_one a js))) i = (if i \<in> set js then None else map_of (st_active (fst a)) i)"
  "map_of (st_closing (fst (foldl expire_one a js))) i =
     (if i \<in> set js \<and> map_of (st_active (fst a)) i \<noteq> None then map_of (st_active (fst a)) i
      else map_of (st_closing (fst a)) i)"
  "set (snd (foldl expire_one a js)) = set (snd a) \<union> {x. \<exists>i \<in> set js. map_of (st_active (fst a)) i = Some x}"
  "st_opening (fst (foldl expire_one a js)) = st_opening (fst a)"
proof (induction js arbitrary: a)
  case (Cons j js)
  have step: "map_of (st_active (fst (expire_one a j))) = (map_of (st_active (fst a)))(j := None)"
    "map_of (st_closing (fst (expire_one a j))) =
      (if map_of (st_active (fst a)) j = None then map_of (st_closing (fst a))
       else (map_of (st_closing (fst a)))(j := map_of (st_active (fst a)) j))"
    "set (snd (expire_one a j)) = set (snd a) \<union> {x. map_of (st_active (fst a)) j = Some x}"
    "st_opening (fst (expire_one a j)) = st_opening (fst a)" for a
    by (auto simp: expire_one_def hmap_simps split: option.splits)
  { case 1 show ?case by (simp add: Cons.IH(1) step)
  next case 2 show ?case by (auto simp: Cons.IH(2) step)
  next case 3 show ?case by (auto simp: Cons.IH(3) step split: if_splits)
  next case 4 show ?case by (simp add: Cons.IH(4) step)
  }
qed simp_all

definition expired_at :: "nat \<Rightarrow> nat \<Rightarrow> McpSession \<Rightarrow> bool" where
  "expired_at now ttl session \<longleftrightarrow> now - ses_last_used session \<ge> ttl"

lemma expired_ids_iff:
  "hm_wf (st_active s) \<Longrightarrow>
   i \<in> set (expired_ids now ttl s) \<longleftrightarrow> (\<exists>x. map_of (st_active s) i = Some x \<and> expired_at now ttl x)"
  by (force simp: expired_ids_def expired_at_def hm_wf_def)

lemma sweep_lookup:
  assumes "store_ok s"
  shows "map_of (st_active (fst (sweep_expired now ttl s))) i =
      option_filter (\<lambda>x. \<not> expired_at now ttl x) (map_of (st_active s) i)"
    and "map_of (st_closing (fst (sweep_expired now ttl s))) i =
      (if is_some_and (expired_at now ttl) (map_of (st_active s) i) then map_of (st_active s) i
       else map_of (st_closing s) i)"
    and "set (snd (sweep_expired now ttl s)) = {x. \<exists>i. map_of (st_active s) i = Some x \<and> expired_at now ttl x}"
proof -
  have ids: "i \<in> set (expired_ids now ttl s) \<longleftrightarrow> (\<exists>x. map_of (st_active s) i = Some x \<and> expired_at now ttl x)" for i
    using assms by (intro expired_ids_iff) (simp add: store_ok_def filed_def)
  show "map_of (st_active (fst (sweep_expired now ttl s))) i =
      option_filter (\<lambda>x. \<not> expired_at now ttl x) (map_of (st_active s) i)"
    and "map_of (st_closing (fst (sweep_expired now ttl s))) i =
      (if is_some_and (expired_at now ttl) (map_of (st_active s) i) then map_of (st_active s) i
       else map_of (st_closing s) i)"
    by (cases "map_of (st_active s) i"; simp add: sweep_expired_def expire_fold ids)+
  show "set (snd (sweep_expired now ttl s)) = {x. \<exists>i. map_of (st_active s) i = Some x \<and> expired_at now ttl x}"
    using ids by (auto simp: sweep_expired_def expire_fold)
qed

section \<open>Runs of the store\<close>

inductive reachable :: "nat \<Rightarrow> McpSessionState \<Rightarrow> bool" for ttl where
  start: "reachable ttl empty_state"
| open_session: "reachable ttl s \<Longrightarrow> \<not> known s (''mcp-session-'' @ uuid) \<Longrightarrow>
    reachable ttl (fst (open_session ttl uuid now s c db))"
| reserve_opening: "reachable ttl s \<Longrightarrow> \<not> known s (''mcp-session-'' @ uuid) \<Longrightarrow>
    reachable ttl (fst (reserve_opening ttl uuid now s c db))"
| promote_opening: "reachable ttl s \<Longrightarrow> reachable ttl (fst (promote_opening s i owner))"
| cancel_opening: "reachable ttl s \<Longrightarrow> reachable ttl (fst (cancel_opening s i))"
| attach: "reachable ttl s \<Longrightarrow> reachable ttl (fst (attach_transaction_owner s i owner))"
| resolve: "reachable ttl s \<Longrightarrow> reachable ttl (fst (resolve_session ttl now s i))"
| begin_close: "reachable ttl s \<Longrightarrow> reachable ttl (fst (begin_close ttl now s i))"
| finish_close: "reachable ttl s \<Longrightarrow> reachable ttl (finish_close s i)"
| restore: "reachable ttl s \<Longrightarrow> reachable ttl (restore_after_failed_close now s session)"
| take_all: "reachable ttl s \<Longrightarrow> reachable ttl (fst (take_all_active s))"

lemma ses_id_new: "ses_id (new_session uuid now c db) = ''mcp-session-'' @ uuid"
  by (simp add: new_session_def Let_def)

lemma store_ok_new_active:
  "store_ok s \<Longrightarrow> \<not> known s i \<Longrightarrow> session_count s < MAX_SESSIONS \<Longrightarrow> ses_id v = i \<Longrightarrow>
   store_ok (s\<lparr>st_active := hm_insert i v (st_active s)\<rparr>)"
  by (auto simp: store_ok_def apart_def known_def session_count_def hmap_simps hmap.len_insert_new filed_wf domIff)

lemma store_ok_new_opening:
  "store_ok s \<Longrightarrow> \<not> known s i \<Longrightarrow> session_count s < MAX_SESSIONS \<Longrightarrow> ses_id v = i \<Longrightarrow>
   store_ok (s\<lparr>st_opening := hm_insert i v (st_opening s)\<rparr>)"
  by (auto simp: store_ok_def apart_def known_def session_count_def hmap_simps hmap.len_insert_new filed_wf domIff)

lemma store_ok_update_active:
  "store_ok s \<Longrightarrow> map_of (st_active s) i \<noteq> None \<Longrightarrow> ses_id v = i \<Longrightarrow>
   store_ok (s\<lparr>st_active := hm_insert i v (st_active s)\<rparr>)"
  by (auto simp: store_ok_def apart_def session_count_def hmap_simps hmap.len_insert_old filed_wf domIff)

lemma store_ok_remove:
  "store_ok s \<Longrightarrow> store_ok (s\<lparr>st_opening := hm_remove i (st_opening s)\<rparr>)"
  "store_ok s \<Longrightarrow> store_ok (s\<lparr>st_closing := hm_remove i (st_closing s)\<rparr>)"
  using hmap.len_remove_le [of "st_opening s" i] hmap.len_remove_le [of "st_closing s" i]
  by (auto simp: store_ok_def apart_def session_count_def hmap_simps filed_wf)

lemma filed_id: "store_ok s \<Longrightarrow> map_of (st_active s) i = Some v \<Longrightarrow> ses_id v = i"
  "store_ok s \<Longrightarrow> map_of (st_opening s) i = Some v \<Longrightarrow> ses_id v = i"
  "store_ok s \<Longrightarrow> map_of (st_closing s) i = Some v \<Longrightarrow> ses_id v = i"
  by (auto simp: store_ok_def filed_def)

lemma apart_lookup:
  "store_ok s \<Longrightarrow> map_of (st_active s) i = Some v \<Longrightarrow> map_of (st_closing s) i = None \<and> map_of (st_opening s) i = None"
  "store_ok s \<Longrightarrow> map_of (st_opening s) i = Some v \<Longrightarrow> map_of (st_active s) i = None \<and> map_of (st_closing s) i = None"
  "store_ok s \<Longrightarrow> map_of (st_closing s) i = Some v \<Longrightarrow> map_of (st_active s) i = None \<and> map_of (st_opening s) i = None"
  by (auto simp: store_ok_def apart_def)

lemma store_ok_promote:
  assumes "store_ok s" and "map_of (st_opening s) i = Some v" and "ses_id w = i"
  shows "store_ok (s\<lparr>st_opening := hm_remove i (st_opening s), st_active := hm_insert i w (st_active s)\<rparr>)"
proof -
  have "map_of (st_active s) i = None" using apart_lookup(2) [OF assms(1,2)] by simp
  then have "length (hm_remove i (st_opening s)) + length (hm_insert i w (st_active s)) = length (st_opening s) + length (st_active s)"
    using assms by (intro hmap.len_move) (auto simp: store_ok_def filed_wf)
  then show ?thesis
    using assms apart_lookup(2) [OF assms(1,2)]
    by (auto simp: store_ok_def apart_def session_count_def hmap_simps)
qed

lemma store_ok_restore:
  assumes "store_ok s" and "map_of (st_closing s) i = Some v" and "ses_id w = i"
  shows "store_ok (s\<lparr>st_closing := hm_remove i (st_closing s), st_active := hm_insert i w (st_active s)\<rparr>)"
proof -
  have "map_of (st_active s) i = None" using apart_lookup(3) [OF assms(1,2)] by simp
  then have "length (hm_remove i (st_closing s)) + length (hm_insert i w (st_active s)) = length (st_closing s) + length (st_active s)"
    using assms by (intro hmap.len_move) (auto simp: store_ok_def filed_wf)
  then show ?thesis
    using assms apart_lookup(3) [OF assms(1,2)]
    by (auto simp: store_ok_def apart_def session_count_def hmap_simps)
qed

lemma store_ok_close:
  assumes "store_ok s" and "map_of (st_active s) i = Some v" and "ses_id w = i"
  shows "store_ok (s\<lparr>st_active := hm_remove i (st_active s), st_closing := hm_insert i w (st_closing s)\<rparr>)"
proof -
  have "map_of (st_closing s) i = None" using apart_lookup(1) [OF assms(1,2)] by simp
  then have "length (hm_remove i (st_active s)) + length (hm_insert i w (st_closing s)) = length (st_active s) + length (st_closing s)"
    using assms by (intro hmap.len_move) (auto simp: store_ok_def filed_wf)
  then show ?thesis
    using assms apart_lookup(1) [OF assms(1,2)]
    by (auto simp: store_ok_def apart_def session_count_def hmap_simps)
qed

lemma store_ok_ops:
  assumes "store_ok s"
  shows "\<not> known s (''mcp-session-'' @ uuid) \<Longrightarrow> store_ok (fst (open_session ttl uuid now s c db))"
    and "\<not> known s (''mcp-session-'' @ uuid) \<Longrightarrow> store_ok (fst (reserve_opening ttl uuid now s c db))"
    and "store_ok (fst (promote_opening s i owner))"
    and "store_ok (fst (cancel_opening s i))"
    and "store_ok (fst (attach_transaction_owner s i owner))"
    and "store_ok (fst (resolve_session ttl now s i))"
    and "store_ok (fst (begin_close ttl now s i))"
    and "store_ok (finish_close s i)"
    and "store_ok (restore_after_failed_close now s session)"
    and "store_ok (fst (take_all_active s))"
proof -
  note sweep = sweep_ok [OF assms]
  show "\<not> known s (''mcp-session-'' @ uuid) \<Longrightarrow> store_ok (fst (open_session ttl uuid now s c db))"
    and "\<not> known s (''mcp-session-'' @ uuid) \<Longrightarrow> store_ok (fst (reserve_opening ttl uuid now s c db))"
    using sweep [of now ttl] store_ok_new_active store_ok_new_opening
    by (auto simp: open_session_def reserve_opening_def Let_def ses_id_new case_prod_beta not_le)
  show "store_ok (fst (promote_opening s i owner))"
    using assms filed_id(2) [OF assms, of i]
    by (auto simp: promote_opening_def Let_def store_ok_promote split: option.split)
  show "store_ok (fst (cancel_opening s i))" "store_ok (finish_close s i)"
    using assms by (simp_all add: cancel_opening_def finish_close_def store_ok_remove)
  show "store_ok (fst (attach_transaction_owner s i owner))"
    using assms filed_id(1) [OF assms, of i]
    by (auto simp: attach_transaction_owner_def store_ok_update_active split: option.split)
  show "store_ok (fst (resolve_session ttl now s i))"
    using sweep(1) [of now ttl] filed_id(1) [OF sweep(1) [of now ttl], of i]
    by (auto simp: resolve_session_def Let_def case_prod_beta store_ok_update_active split: option.split)
  show "store_ok (fst (begin_close ttl now s i))"
    using sweep(1) [of now ttl] filed_id(1) [OF sweep(1) [of now ttl], of i] apart_lookup(1) [OF sweep(1) [of now ttl], of i]
    by (auto simp: begin_close_def Let_def case_prod_beta store_ok_close split: option.split)
  show "store_ok (restore_after_failed_close now s session)"
    using assms by (auto simp: restore_after_failed_close_def store_ok_restore split: option.split)
  show "store_ok (fst (take_all_active s))"
    using assms by (auto simp: take_all_active_def store_ok_def apart_def session_count_def filed_def)
qed

lemma reachable_ok: "reachable ttl s \<Longrightarrow> store_ok s"
proof (induction rule: reachable.induct)
  case start
  show ?case by (simp add: empty_state_def store_ok_def apart_def session_count_def filed_def)
qed (simp_all add: store_ok_ops)

section \<open>Properties\<close>

text \<open>
  C30: in every state the store can reach, at most 32 sessions are open, opening or closing, each is
  filed under its own id, and no id is in two of the three tables: a session whose backend pool is
  still being closed keeps counting against the limit.
\<close>
theorem session_cap: "reachable ttl s \<Longrightarrow> session_count s \<le> 32 \<and> store_ok s"
  using reachable_ok [of ttl s] by (simp add: store_ok_def MAX_SESSIONS_def)

theorem session_cap_witness:
  "session_count (fst (open_session 5 ''u'' 0 empty_state ''c'' ''d'')) \<le> 32 \<and>
   store_ok (fst (open_session 5 ''u'' 0 empty_state ''c'' ''d''))"
  by (rule session_cap [of 5], rule reachable.open_session, rule reachable.start) (simp add: known_def empty_state_def)

text \<open>
  A session that has been idle for the time to live is never handed out again. Resolving an id
  returns the session exactly when it is active and used within the time to live, with its idle
  timer restarted; every session that has expired is removed from the active ones, kept in the
  closing table and returned to the caller to be closed.
\<close>
theorem resolve_session_live:
  assumes "reachable ttl s" and "resolve_session ttl now s i = (s', (found, expired))"
  shows "found = map_option (\<lambda>x. x\<lparr>ses_last_used := now\<rparr>)
           (option_filter (\<lambda>x. \<not> expired_at now ttl x) (map_of (st_active s) i)) \<and>
         set expired = {x. \<exists>j. map_of (st_active s) j = Some x \<and> expired_at now ttl x} \<and>
         (\<forall>x \<in> set expired. map_of (st_closing s') (ses_id x) = Some x \<and> map_of (st_active s') (ses_id x) = None)"
proof -
  have ok: "store_ok s" using assms(1) by (rule reachable_ok)
  let ?s = "fst (sweep_expired now ttl s)"
  have eq: "s' = (case map_of (st_active ?s) i of None \<Rightarrow> ?s
      | Some x \<Rightarrow> ?s\<lparr>st_active := hm_insert i (x\<lparr>ses_last_used := now\<rparr>) (st_active ?s)\<rparr>)"
    "found = map_option (\<lambda>x. x\<lparr>ses_last_used := now\<rparr>) (map_of (st_active ?s) i)"
    "expired = snd (sweep_expired now ttl s)"
    using assms(2) by (auto simp: resolve_session_def Let_def case_prod_beta split: option.splits)
  have "map_of (st_closing s') (ses_id x) = Some x \<and> map_of (st_active s') (ses_id x) = None"
    if x: "x \<in> set expired" for x
  proof -
    obtain j where j: "map_of (st_active s) j = Some x" "expired_at now ttl x"
      using x by (auto simp: eq(3) sweep_lookup [OF ok])
    then have "ses_id x = j" using filed_id(1) [OF ok] by simp
    then show ?thesis
      using j by (cases "i = j") (auto simp: eq(1) sweep_lookup [OF ok] hmap_simps split: option.split)
  qed
  then show ?thesis by (simp add: eq(2) sweep_lookup [OF ok]) (simp add: eq(3) sweep_lookup [OF ok])
qed

definition one_session :: McpSessionState where
  "one_session = fst (open_session 5 ''u'' 0 empty_state ''c'' ''d'')"

theorem resolve_session_live_witness:
  "\<exists>s' expired. resolve_session 5 7 one_session ''mcp-session-u'' = (s', (None, expired)) \<and>
     set expired = {x. \<exists>j. map_of (st_active one_session) j = Some x \<and> expired_at 7 5 x} \<and> expired \<noteq> []"
proof -
  have r: "reachable 5 one_session"
    unfolding one_session_def
    by (rule reachable.open_session, rule reachable.start) (simp add: known_def empty_state_def)
  obtain s' expired where e: "resolve_session 5 7 one_session ''mcp-session-u'' = (s', (None, expired))" "expired \<noteq> []"
  proof -
    have "fst (snd (resolve_session 5 7 one_session ''mcp-session-u'')) = None \<and>
        snd (snd (resolve_session 5 7 one_session ''mcp-session-u'')) \<noteq> []" by code_simp
    then show thesis using that by (metis prod.collapse)
  qed
  then show ?thesis using resolve_session_live [OF r e(1)] by blast
qed

end
