(* ===== verification/Transaction_Owner.thy ===== *)
theory Transaction_Owner
  imports Prelude
begin

text \<open>
  The owner of a pinned MySQL transaction session, \<^verbatim>\<open>crates/dbx-mcp/src/transaction.rs\<close>: the
  handler of one command, the loop that serves commands and cleans up, the handle's operations
  and the registry of owners. The outcome of each \<^verbatim>\<open>select!\<close> race (the database answered, timed
  out, the owner was cancelled, the request was dropped) is an argument, so that every
  interleaving is covered. A query result is a value of an arbitrary type. The driver and the
  character-set policy the MySQL connection uses are arguments.
\<close>

section \<open>Data\<close>

datatype TransactionState = Idle | Active | Unknown

definition state_as_str :: "TransactionState \<Rightarrow> string" where
  "state_as_str s = (case s of Idle \<Rightarrow> ''idle'' | Active \<Rightarrow> ''active'' | Unknown \<Rightarrow> ''unknown'')"

datatype TransactionOutcome = Committed | RolledBack | UnknownOutcome

definition outcome_as_str :: "TransactionOutcome \<Rightarrow> string" where
  "outcome_as_str x =
     (case x of Committed \<Rightarrow> ''committed'' | RolledBack \<Rightarrow> ''rolled_back'' | UnknownOutcome \<Rightarrow> ''unknown'')"

record 'r TransactionIoSuccess =
  io_result :: 'r
  io_in_transaction :: bool

datatype TransactionIoError = Policy string | Server "16 word" string | Transport string

record TransactionStatus =
  st_state :: TransactionState
  st_outcome :: "TransactionOutcome option"

definition default_status :: TransactionStatus where
  "default_status = \<lparr>st_state = Idle, st_outcome = None\<rparr>"

record 'r TransactionResult =
  tr_result :: 'r
  tr_state :: TransactionState
  tr_outcome :: "TransactionOutcome option"

record TransactionFailure =
  tf_code :: string
  tf_message :: string
  tf_mysql_code :: "16 word option"
  tf_state :: TransactionState
  tf_outcome :: "TransactionOutcome option"

datatype Operation = OpBegin | OpQuery string "nat option" | OpCommit | OpRollback

section \<open>The MySQL connection\<close>

datatype MySqlTransactionError = MySqlServer "16 word" string | MySqlTransport string

definition map_mysql_transaction_error :: "MySqlTransactionError \<Rightarrow> TransactionIoError" where
  "map_mysql_transaction_error e =
     (case e of MySqlServer code message \<Rightarrow> Server code message | MySqlTransport message \<Rightarrow> Transport message)"

text \<open>\<open>check_sql\<close> is the statement policy of a connection with a configured data character set.\<close>

definition check_mysql_data_charset_transaction_sql ::
    "(string \<Rightarrow> string \<Rightarrow> string + unit) \<Rightarrow> 'c option \<Rightarrow> string \<Rightarrow> string \<Rightarrow> string + unit" where
  "check_mysql_data_charset_transaction_sql check_sql data_charset sql connection_id =
     (if data_charset \<noteq> None \<and> sql \<notin> {''START TRANSACTION'', ''COMMIT'', ''ROLLBACK''}
      then check_sql sql connection_id else Inr ())"

record 'c MysqlTransactionIo =
  my_connected :: bool
  my_connection_id :: string
  my_data_charset :: "'c option"

definition mysql_execute ::
    "(string \<Rightarrow> string \<Rightarrow> string + unit) \<Rightarrow>
     (string \<Rightarrow> nat option \<Rightarrow> 'c option \<Rightarrow> MySqlTransactionError + 'r TransactionIoSuccess) \<Rightarrow>
     'c MysqlTransactionIo \<Rightarrow> string \<Rightarrow> nat option \<Rightarrow> TransactionIoError + 'r TransactionIoSuccess" where
  "mysql_execute check_sql driver io sql max_rows =
     (case check_mysql_data_charset_transaction_sql check_sql (my_data_charset io) sql (my_connection_id io) of
        Inl message \<Rightarrow> Inl (Policy message)
      | Inr _ \<Rightarrow>
          if \<not> my_connected io then Inl (Transport ''MySQL connection is closed'')
          else (case driver sql max_rows (my_data_charset io) of
                  Inl e \<Rightarrow> Inl (map_mysql_transaction_error e)
                | Inr success \<Rightarrow> Inr success))"

definition mysql_disconnect :: "'c MysqlTransactionIo \<Rightarrow> 'c MysqlTransactionIo" where
  "mysql_disconnect io = io\<lparr>my_connected := False\<rparr>"

section \<open>One command\<close>

datatype 'r exec_event =
    ExecCancelled
  | ExecDropped
  | ExecDone "TransactionIoError + 'r TransactionIoSuccess"
  | ExecTimeout

datatype probe_event = ProbeCancelled | ProbeDropped | ProbeDone "TransactionIoError + bool" | ProbeTimeout

definition failure :: "string \<Rightarrow> string \<Rightarrow> 16 word option \<Rightarrow> TransactionStatus \<Rightarrow> TransactionFailure" where
  "failure code message mysql_code status =
     \<lparr>tf_code = code, tf_message = message, tf_mysql_code = mysql_code,
      tf_state = st_state status, tf_outcome = st_outcome status\<rparr>"

definition set_unknown :: TransactionStatus where
  "set_unknown = \<lparr>st_state = Unknown, st_outcome = Some UnknownOutcome\<rparr>"

definition invalid_command :: "Operation \<Rightarrow> TransactionStatus \<Rightarrow> (string \<times> string) option" where
  "invalid_command op current =
     (case op of
        OpBegin \<Rightarrow>
          if st_state current = Active
          then Some (''TRANSACTION_ALREADY_ACTIVE'', ''A transaction is already active for this session.'') else None
      | OpQuery _ _ \<Rightarrow> None
      | _ \<Rightarrow>
          if st_state current \<noteq> Active
          then Some (''TRANSACTION_NOT_ACTIVE'', ''No active transaction exists for this session.'') else None)"

definition command_sql :: "Operation \<Rightarrow> string \<times> nat option \<times> TransactionOutcome option" where
  "command_sql op =
     (case op of
        OpBegin \<Rightarrow> (''START TRANSACTION'', None, None)
      | OpQuery sql max_rows \<Rightarrow> (sql, max_rows, None)
      | OpCommit \<Rightarrow> (''COMMIT'', None, Some Committed)
      | OpRollback \<Rightarrow> (''ROLLBACK'', None, Some RolledBack))"

text \<open>
  The result of a command: the status afterwards, the response, and whether the worker stops.
\<close>

type_synonym 'r handled = "TransactionStatus \<times> (TransactionFailure + 'r TransactionResult) \<times> bool"

definition to_unknown :: "string \<Rightarrow> string \<Rightarrow> 16 word option \<Rightarrow> 'r handled" where
  "to_unknown code message mysql_code = (set_unknown, Inl (failure code message mysql_code set_unknown), True)"

definition handle_success :: "Operation \<Rightarrow> 'r TransactionIoSuccess \<Rightarrow> 'r handled" where
  "handle_success op success =
     (let success_outcome = snd (snd (command_sql op));
          expected_in_transaction =
            (if success_outcome \<noteq> None then False
             else if op = OpBegin then True else io_in_transaction success)
      in if io_in_transaction success \<noteq> expected_in_transaction
         then to_unknown ''TRANSACTION_STATE_UNKNOWN''
                ''MySQL acknowledged the operation with an unexpected transaction state.'' None
         else (let status = \<lparr>st_state = (if io_in_transaction success then Active else Idle),
                             st_outcome = success_outcome\<rparr>
               in (status,
                   Inr \<lparr>tr_result = io_result success, tr_state = st_state status, tr_outcome = st_outcome status\<rparr>,
                   False)))"

definition handle_server_error ::
    "Operation \<Rightarrow> TransactionStatus \<Rightarrow> 16 word \<Rightarrow> string \<Rightarrow> probe_event \<Rightarrow> 'r handled" where
  "handle_server_error op current code message probe =
     (if op = OpCommit then to_unknown ''TRANSACTION_STATE_UNKNOWN'' message (Some code)
      else (case probe of
              ProbeCancelled \<Rightarrow>
                to_unknown ''TRANSACTION_CANCELLED''
                  ''Transaction operation was cancelled during status verification.'' (Some code)
            | ProbeDropped \<Rightarrow>
                to_unknown ''TRANSACTION_CANCELLED''
                  ''Transaction request was dropped during status verification.'' (Some code)
            | ProbeDone (Inr in_transaction) \<Rightarrow>
                (let status = \<lparr>st_state = (if in_transaction then Active else Idle),
                               st_outcome = (if st_state current = Active \<and> \<not> in_transaction
                                             then Some RolledBack else None)\<rparr>
                 in (status, Inl (failure ''MYSQL_SERVER_ERROR'' message (Some code) status), False))
            | _ \<Rightarrow> to_unknown ''TRANSACTION_STATE_UNKNOWN'' message (Some code)))"

definition handle_command ::
    "nat \<Rightarrow> TransactionStatus \<Rightarrow> Operation \<Rightarrow> 'r exec_event \<Rightarrow> probe_event \<Rightarrow> 'r handled" where
  "handle_command timeout_secs current op exec probe =
     (case invalid_command op current of
        Some (code, message) \<Rightarrow> (current, Inl (failure code message None current), False)
      | None \<Rightarrow>
          (case exec of
             ExecCancelled \<Rightarrow>
               to_unknown ''TRANSACTION_CANCELLED'' ''Transaction operation was cancelled.'' None
           | ExecDropped \<Rightarrow>
               to_unknown ''TRANSACTION_CANCELLED'' ''Transaction request was dropped before completion.'' None
           | ExecDone (Inr success) \<Rightarrow> handle_success op success
           | ExecDone (Inl (Policy message)) \<Rightarrow>
               (current, Inl (failure ''TRANSACTION_SQL_BLOCKED'' message None current), False)
           | ExecDone (Inl (Server code message)) \<Rightarrow> handle_server_error op current code message probe
           | ExecDone (Inl (Transport message)) \<Rightarrow> to_unknown ''TRANSACTION_STATE_UNKNOWN'' message None
           | ExecTimeout \<Rightarrow>
               to_unknown ''TRANSACTION_TIMEOUT''
                 (''Transaction operation timed out after '' @ show_nat timeout_secs @ '' seconds.'') None))"

section \<open>The worker and its handle\<close>

record owner =
  ow_status :: TransactionStatus
  ow_cancelled :: bool
  ow_serving :: bool
  ow_closed :: bool

definition spawn_inner :: owner where
  "spawn_inner = \<lparr>ow_status = default_status, ow_cancelled = False, ow_serving = True, ow_closed = False\<rparr>"

text \<open>The clean-up after the loop: roll back what is active, disconnect, and publish that the owner is closed.\<close>

definition cleanup_status :: "TransactionStatus \<Rightarrow> 'r exec_event \<Rightarrow> TransactionStatus" where
  "cleanup_status status cleanup =
     (if st_state status = Active then
        (case cleanup of
           ExecDone (Inr success) \<Rightarrow>
             if \<not> io_in_transaction success then \<lparr>st_state = Idle, st_outcome = Some RolledBack\<rparr> else set_unknown
         | _ \<Rightarrow> set_unknown)
      else status)"

definition owner_cleanup :: "'r exec_event \<Rightarrow> owner \<Rightarrow> owner" where
  "owner_cleanup cleanup ow =
     ow\<lparr>ow_status := cleanup_status (ow_status ow) cleanup, ow_serving := False, ow_closed := True\<rparr>"

definition terminal_failure :: "owner \<Rightarrow> string \<Rightarrow> string \<Rightarrow> TransactionFailure" where
  "terminal_failure ow code message = failure code message None (ow_status ow)"

text \<open>
  \<^verbatim>\<open>acquire\<close>: the permit of the gate is granted, or the wait ends because the gate was closed or the
  owner cancelled.
\<close>

definition acquire :: "owner \<Rightarrow> bool \<Rightarrow> TransactionFailure + unit" where
  "acquire ow permit =
     (if \<not> permit \<or> ow_closed ow \<or> ow_cancelled ow
      then Inl (terminal_failure ow ''TRANSACTION_CLOSED'' ''Transaction session is closed.'')
      else if st_state (ow_status ow) = Unknown
      then Inl (terminal_failure ow ''TRANSACTION_OUTCOME_UNKNOWN''
                  ''Transaction outcome is unknown; this session cannot execute more SQL.'')
      else Inr ())"

text \<open>\<^verbatim>\<open>run_ref\<close>: a worker that no longer serves drops the command.\<close>

definition run_ref ::
    "nat \<Rightarrow> owner \<Rightarrow> Operation \<Rightarrow> 'r exec_event \<Rightarrow> probe_event \<Rightarrow> owner \<times> (TransactionFailure + 'r TransactionResult)" where
  "run_ref timeout_secs ow op exec probe =
     (if \<not> ow_serving ow
      then (ow, Inl (terminal_failure ow ''TRANSACTION_CLOSED'' ''Transaction session is closed.''))
      else (let (status, response, terminal) = handle_command timeout_secs (ow_status ow) op exec probe
            in (ow\<lparr>ow_status := status, ow_serving := \<not> terminal\<rparr>, response)))"

fun batch ::
    "nat \<Rightarrow> owner \<Rightarrow> nat option \<Rightarrow> bool \<Rightarrow> (string \<times> 'r exec_event \<times> probe_event) list \<Rightarrow>
     owner \<times> (TransactionFailure + 'r TransactionResult) list" where
  "batch timeout_secs ow max_rows continue_on_error [] = (ow, [])"
| "batch timeout_secs ow max_rows continue_on_error ((statement, exec, probe) # rest) =
     (let (ow1, result) = run_ref timeout_secs ow (OpQuery statement max_rows) exec probe;
          stop = (case result of
                    Inr _ \<Rightarrow> False
                  | Inl error \<Rightarrow> tf_state error = Unknown \<or> \<not> continue_on_error)
      in if stop then (ow1, [result])
         else (let (ow2, results) = batch timeout_secs ow1 max_rows continue_on_error rest
               in (ow2, result # results)))"

definition invalidate :: "owner \<Rightarrow> owner" where
  "invalidate ow = ow\<lparr>ow_cancelled := True\<rparr>"

definition close_timeout_millis :: "nat \<Rightarrow> nat" where
  "close_timeout_millis cleanup_timeout_millis = cleanup_timeout_millis * 2 + 100"

text \<open>\<^verbatim>\<open>close\<close>: \<open>closed_in_time\<close> is whether the worker closed before the timeout.\<close>

definition close_owner :: "owner \<Rightarrow> bool \<Rightarrow> TransactionStatus + TransactionStatus" where
  "close_owner ow closed_in_time =
     (if \<not> ow_closed ow \<and> \<not> closed_in_time then Inl (ow_status ow) else Inr (ow_status ow))"

section \<open>The registry of owners\<close>

type_synonym registry = "(string, nat list) hmap"

text \<open>A weak reference upgrades while some strong reference to its owner exists.\<close>

definition register_owner :: "(nat \<Rightarrow> bool) \<Rightarrow> registry \<Rightarrow> string \<Rightarrow> nat \<Rightarrow> registry" where
  "register_owner alive owners connection_id ow =
     hm_insert connection_id (filter alive (unwrap_or [] (map_of owners connection_id)) @ [ow]) owners"

definition invalidate_connection :: "(nat \<Rightarrow> bool) \<Rightarrow> registry \<Rightarrow> (nat \<Rightarrow> owner) \<Rightarrow> string \<Rightarrow> registry \<times> (nat \<Rightarrow> owner)" where
  "invalidate_connection alive owners heap connection_id =
     (hm_remove connection_id owners,
      foldl (\<lambda>h ow. h(ow := invalidate (h ow))) heap
        (filter alive (unwrap_or [] (map_of owners connection_id))))"

definition invalidate_all :: "(nat \<Rightarrow> bool) \<Rightarrow> registry \<Rightarrow> (nat \<Rightarrow> owner) \<Rightarrow> registry \<times> (nat \<Rightarrow> owner)" where
  "invalidate_all alive owners heap =
     ([], foldl (\<lambda>h ow. h(ow := invalidate (h ow))) heap (filter alive (concat (map snd owners))))"

section \<open>Runs against a server\<close>

text \<open>
  What a truthful server says of its session, where \<open>srv\<close> is whether the session has an open
  transaction: an acknowledged statement and a status probe report the state after them; a
  statement that was not sent changes nothing; a failed or interrupted one leaves anything.
\<close>

definition truthful :: "TransactionStatus \<Rightarrow> Operation \<Rightarrow> 'r exec_event \<Rightarrow> probe_event \<Rightarrow> bool \<Rightarrow> bool \<Rightarrow> bool" where
  "truthful current op exec probe srv srv' \<longleftrightarrow>
     (if invalid_command op current \<noteq> None then srv' = srv
      else (case exec of
              ExecDone (Inr success) \<Rightarrow> srv' = io_in_transaction success
            | ExecDone (Inl (Policy _)) \<Rightarrow> srv' = srv
            | ExecDone (Inl (Server _ _)) \<Rightarrow>
                (case probe of ProbeDone (Inr in_transaction) \<Rightarrow> srv' = in_transaction | _ \<Rightarrow> True)
            | _ \<Rightarrow> True))"

definition truthful_cleanup :: "TransactionStatus \<Rightarrow> 'r exec_event \<Rightarrow> bool \<Rightarrow> bool \<Rightarrow> bool" where
  "truthful_cleanup status cleanup srv srv' \<longleftrightarrow>
     (if st_state status \<noteq> Active then srv' = srv
      else (case cleanup of ExecDone (Inr success) \<Rightarrow> srv' = io_in_transaction success | _ \<Rightarrow> True))"

text \<open>The runs of an owner, with the server's session and the responses sent so far, newest first.\<close>

inductive tx_run :: "nat \<Rightarrow> owner \<Rightarrow> bool \<Rightarrow> (TransactionFailure + 'r TransactionResult) list \<Rightarrow> bool" for timeout_secs where
  spawned: "tx_run timeout_secs spawn_inner False []"
| command: "tx_run timeout_secs ow srv log \<Longrightarrow> ow_serving ow \<Longrightarrow>
    truthful (ow_status ow) op exec probe srv srv' \<Longrightarrow> run_ref timeout_secs ow op exec probe = (ow', response) \<Longrightarrow>
    tx_run timeout_secs ow' srv' (response # log)"
| cancelled: "tx_run timeout_secs ow srv log \<Longrightarrow> tx_run timeout_secs (invalidate ow) srv log"
| stopped: "tx_run timeout_secs ow srv log \<Longrightarrow> tx_run timeout_secs (ow\<lparr>ow_serving := False\<rparr>) srv log"
| cleaned: "tx_run timeout_secs ow srv log \<Longrightarrow> \<not> ow_serving ow \<Longrightarrow> \<not> ow_closed ow \<Longrightarrow>
    truthful_cleanup (ow_status ow) (cleanup :: 'r exec_event) srv srv' \<Longrightarrow>
    tx_run timeout_secs (owner_cleanup cleanup ow) srv' log"

definition tx_inv :: "owner \<Rightarrow> bool \<Rightarrow> bool" where
  "tx_inv ow srv \<longleftrightarrow>
     (st_state (ow_status ow) = Unknown \<longleftrightarrow> st_outcome (ow_status ow) = Some UnknownOutcome) \<and>
     (st_state (ow_status ow) = Unknown \<or> (st_state (ow_status ow) = Active \<longleftrightarrow> srv)) \<and>
     (st_state (ow_status ow) = Unknown \<longrightarrow> \<not> ow_serving ow) \<and>
     (ow_closed ow \<longrightarrow> \<not> ow_serving ow \<and> st_state (ow_status ow) \<noteq> Active)"

lemmas handled_defs = to_unknown_def set_unknown_def handle_success_def handle_server_error_def command_sql_def Let_def

lemma handle_command_status:
  fixes exec :: "'r exec_event"
  assumes "handle_command timeout_secs current op exec probe = (status, response, terminal)"
    and "truthful current op exec probe srv srv'"
    and "st_state current = Active \<longleftrightarrow> srv" and "st_state current \<noteq> Unknown"
    and "st_outcome current \<noteq> Some UnknownOutcome"
  shows "(st_state status = Unknown \<longleftrightarrow> st_outcome status = Some UnknownOutcome) \<and>
    (st_state status = Unknown \<longleftrightarrow> terminal) \<and> (st_state status = Unknown \<or> (st_state status = Active \<longleftrightarrow> srv'))"
proof (cases "invalid_command op current")
  case (Some cm)
  then show ?thesis using assms by (cases cm) (auto simp: handle_command_def truthful_def)
next
  case None
  note command = assms(1) [unfolded handle_command_def None option.case]
  note server = assms(2) [unfolded truthful_def None]
  show ?thesis
  proof (cases exec)
    case (ExecDone result)
    show ?thesis
    proof (cases result)
      case (Inr success)
      then show ?thesis
        using command server ExecDone by (cases op) (auto simp: handled_defs split: if_splits)
    next
      case (Inl e)
      then show ?thesis
        using command server ExecDone assms(3-5)
        by (cases e; cases op) (auto simp: handled_defs split: probe_event.splits sum.splits if_splits)
    qed
  qed (use command in \<open>auto simp: handled_defs\<close>)
qed

lemma tx_run_inv: "tx_run timeout_secs ow srv log \<Longrightarrow> tx_inv ow srv"
proof (induction rule: tx_run.induct)
  case spawned
  show ?case by (simp add: tx_inv_def spawn_inner_def default_status_def)
next
  case (command ow srv log op exec probe srv' ow' response)
  obtain status terminal where
    h: "handle_command timeout_secs (ow_status ow) op exec probe = (status, response, terminal)"
    and ow': "ow' = ow\<lparr>ow_status := status, ow_serving := \<not> terminal\<rparr>"
    using command.hyps by (auto simp: run_ref_def Let_def split: prod.splits)
  have "(st_state status = Unknown \<longleftrightarrow> st_outcome status = Some UnknownOutcome) \<and>
    (st_state status = Unknown \<longleftrightarrow> terminal) \<and> (st_state status = Unknown \<or> (st_state status = Active \<longleftrightarrow> srv'))"
    using command by (intro handle_command_status [OF h]) (auto simp: tx_inv_def)
  then show ?case using command by (auto simp: ow' tx_inv_def)
next
  case (cleaned ow srv log cleanup srv')
  then show ?case
    by (auto simp: tx_inv_def owner_cleanup_def cleanup_status_def truthful_cleanup_def set_unknown_def
        split: exec_event.splits sum.splits)
qed (auto simp: tx_inv_def invalidate_def)

section \<open>Properties\<close>

text \<open>
  C3: against a server that reports its transaction state truthfully, in every state a transaction
  owner can reach: unless its status is unknown it says active exactly when the server's session
  has an open transaction; once the status is unknown the worker no longer serves commands; and
  an owner that has closed does not claim an active transaction.
\<close>
theorem status_tracks_server:
  assumes "tx_run timeout_secs ow srv log"
  shows "(st_state (ow_status ow) = Unknown \<or> (st_state (ow_status ow) = Active \<longleftrightarrow> srv)) \<and>
    (st_state (ow_status ow) = Unknown \<longrightarrow> \<not> ow_serving ow \<and> (\<forall>permit. isl (acquire ow permit))) \<and>
    (ow_closed ow \<longrightarrow> st_state (ow_status ow) \<noteq> Active)"
  using tx_run_inv [OF assms] by (auto simp: tx_inv_def acquire_def)

definition begun :: "owner \<times> (TransactionFailure + unit TransactionResult)" where
  "begun = run_ref 300 spawn_inner OpBegin (ExecDone (Inr \<lparr>io_result = (), io_in_transaction = True\<rparr>)) ProbeTimeout"

theorem status_tracks_server_witness:
  "st_state (ow_status (fst begun)) = Active \<and> st_state (ow_status (fst begun)) \<noteq> Unknown \<and> \<not> ow_closed (fst begun)"
proof -
  have "tx_run 300 (fst begun) True [snd begun]"
    by (rule tx_run.command [OF tx_run.spawned])
      (auto simp: begun_def spawn_inner_def truthful_def invalid_command_def default_status_def)
  from status_tracks_server [OF this] show ?thesis
    by (auto simp: begun_def run_ref_def spawn_inner_def handle_command_def invalid_command_def default_status_def handled_defs)
qed

text \<open>
  C13: a commit is reported only when the server acknowledged it outside any transaction, and a
  commit that was sent and not acknowledged so leaves the status unknown and stops the worker; the
  only other outcome of a commit of an active transaction is a statement blocked before it was sent.
\<close>
theorem commit_outcome:
  "(\<forall>status res terminal.
      handle_command timeout_secs current op exec probe = (status, Inr res, terminal) \<and> tr_outcome res = Some Committed \<longrightarrow>
        op = OpCommit \<and> st_state current = Active \<and> st_state status = Idle \<and>
        (\<exists>success. exec = ExecDone (Inr success) \<and> \<not> io_in_transaction success)) \<and>
   (op = OpCommit \<and> st_state current = Active \<longrightarrow>
      (case handle_command timeout_secs current op exec probe of
         (status, response, terminal) \<Rightarrow>
           (\<exists>success. exec = ExecDone (Inr success) \<and> \<not> io_in_transaction success \<and>
              status = \<lparr>st_state = Idle, st_outcome = Some Committed\<rparr> \<and> \<not> terminal) \<or>
           (\<exists>message. exec = ExecDone (Inl (Policy message)) \<and> status = current \<and> \<not> terminal) \<or>
           status = set_unknown \<and> terminal \<and> isl response))"
proof -
  have first: "op = OpCommit \<and> st_state current = Active \<and> st_state status = Idle \<and>
      (\<exists>success. exec = ExecDone (Inr success) \<and> \<not> io_in_transaction success)"
    if h: "handle_command timeout_secs current op exec probe = (status, Inr res, terminal)"
      and c: "tr_outcome res = Some Committed" for status res terminal
  proof -
    obtain success where s: "exec = ExecDone (Inr success)" "handle_success op success = (status, Inr res, terminal)"
      and valid: "invalid_command op current = None"
      using h
      by (auto simp: handle_command_def to_unknown_def handle_server_error_def Let_def
          split: option.splits exec_event.splits sum.splits TransactionIoError.splits probe_event.splits if_splits)
    then show ?thesis
      using c valid by (cases op) (auto simp: handled_defs invalid_command_def split: if_splits)
  qed
  have second: "case handle_command timeout_secs current OpCommit exec probe of
         (status, response, terminal) \<Rightarrow>
           (\<exists>success. exec = ExecDone (Inr success) \<and> \<not> io_in_transaction success \<and>
              status = \<lparr>st_state = Idle, st_outcome = Some Committed\<rparr> \<and> \<not> terminal) \<or>
           (\<exists>message. exec = ExecDone (Inl (Policy message)) \<and> status = current \<and> \<not> terminal) \<or>
           status = set_unknown \<and> terminal \<and> isl response" if "st_state current = Active"
    using that
    by (auto simp: handle_command_def invalid_command_def handled_defs
        split: exec_event.split sum.split TransactionIoError.split)
  show ?thesis
  proof (intro conjI impI)
    assume "op = OpCommit \<and> st_state current = Active"
    then show "case handle_command timeout_secs current op exec probe of
         (status, response, terminal) \<Rightarrow>
           (\<exists>success. exec = ExecDone (Inr success) \<and> \<not> io_in_transaction success \<and>
              status = \<lparr>st_state = Idle, st_outcome = Some Committed\<rparr> \<and> \<not> terminal) \<or>
           (\<exists>message. exec = ExecDone (Inl (Policy message)) \<and> status = current \<and> \<not> terminal) \<or>
           status = set_unknown \<and> terminal \<and> isl response"
      using second by simp
  qed (use first in blast)
qed

theorem commit_outcome_witness:
  "case handle_command 300 \<lparr>st_state = Active, st_outcome = None\<rparr> OpCommit (ExecTimeout :: unit exec_event) ProbeTimeout of
     (status, response, terminal) \<Rightarrow> status = set_unknown \<and> terminal \<and> isl response"
  using commit_outcome [of 300 "\<lparr>st_state = Active, st_outcome = None\<rparr>" OpCommit "ExecTimeout :: unit exec_event" ProbeTimeout]
  by auto

text \<open>
  A batch stops at the first statement that fails when it must not continue, and always at a
  failure that leaves the transaction state unknown: every result before the last is a success or a
  failure with a known state in a batch that continues, and a batch that returns fewer results than
  statements ended with a failure that stops it.
\<close>
theorem batch_stops:
  assumes "batch timeout_secs ow max_rows continue_on_error stmts = (ow', results)"
  shows "length results \<le> length stmts \<and>
    (\<forall>error. Inl error \<in> set (butlast results) \<longrightarrow> continue_on_error \<and> tf_state error \<noteq> Unknown) \<and>
    (length results < length stmts \<longrightarrow>
       (\<exists>error. results \<noteq> [] \<and> last results = Inl error \<and> (tf_state error = Unknown \<or> \<not> continue_on_error)))"
  using assms
proof (induction stmts arbitrary: ow ow' results)
  case Nil
  then show ?case by simp
next
  case (Cons stmt stmts)
  obtain statement exec probe where stmt: "stmt = (statement, exec, probe)" by (metis prod_cases3)
  obtain ow1 result where r: "run_ref timeout_secs ow (OpQuery statement max_rows) exec probe = (ow1, result)" by fastforce
  obtain ow2 rs where b: "batch timeout_secs ow1 max_rows continue_on_error stmts = (ow2, rs)" by fastforce
  note ih = Cons.IH [OF b]
  show ?case
  proof (cases "\<exists>error. result = Inl error \<and> (tf_state error = Unknown \<or> \<not> continue_on_error)")
    case True
    then have "results = [result]" using Cons.prems by (auto simp: stmt r)
    then show ?thesis using True by auto
  next
    case False
    then have "results = result # rs" using Cons.prems b by (cases result) (auto simp: stmt r)
    then show ?thesis using False ih by (cases rs) (auto split: if_splits)
  qed
qed

theorem batch_stops_witness:
  "length (snd (batch 300 spawn_inner None True
     [(''A'', ExecTimeout :: unit exec_event, ProbeTimeout), (''B'', ExecTimeout, ProbeTimeout)])) = 1 \<and>
   (\<exists>error. last (snd (batch 300 spawn_inner None True
     [(''A'', ExecTimeout :: unit exec_event, ProbeTimeout), (''B'', ExecTimeout, ProbeTimeout)])) = Inl error \<and>
     (tf_state error = Unknown \<or> \<not> True))"
proof -
  let ?b = "batch 300 spawn_inner None True
     [(''A'', ExecTimeout :: unit exec_event, ProbeTimeout), (''B'', ExecTimeout, ProbeTimeout)]"
  have l: "length (snd ?b) = 1"
    by (simp add: run_ref_def spawn_inner_def default_status_def handle_command_def invalid_command_def handled_defs failure_def)
  obtain ow results where b: "?b = (ow, results)" by fastforce
  from batch_stops [OF b] l b show ?thesis by auto
qed

text \<open>
  Invalidating a connection cancels every live transaction owner registered for it, so that none
  of them hands out another lease, and leaves no owner registered for the connection; owners that
  are registered only for other connections are untouched.
\<close>
theorem invalidate_connection_cancels:
  assumes "invalidate_connection alive owners heap c = (owners', heap')"
  shows "map_of owners' c = None \<and>
    (\<forall>ow permit. ow \<in> set (unwrap_or [] (map_of owners c)) \<and> alive ow \<longrightarrow>
       ow_cancelled (heap' ow) \<and> isl (acquire (heap' ow) permit)) \<and>
    (\<forall>ow. ow \<notin> set (unwrap_or [] (map_of owners c)) \<longrightarrow> heap' ow = heap ow)"
proof -
  have fold: "foldl (\<lambda>h ow. h(ow := invalidate (h ow))) heap xs ow =
      (if ow \<in> set xs then invalidate (heap ow) else heap ow)" for xs heap ow
    by (induction xs arbitrary: heap) (auto simp: invalidate_def)
  have cancelled: "ow_cancelled (invalidate x)" "isl (acquire (invalidate x) permit)" for x permit
    by (simp_all add: invalidate_def acquire_def)
  show ?thesis
    using assms by (auto simp: invalidate_connection_def hmap_simps fold cancelled)
qed

theorem invalidate_connection_cancels_witness:
  "ow_cancelled (snd (invalidate_connection (\<lambda>_. True) (register_owner (\<lambda>_. True) [] ''c'' 1) (\<lambda>_. spawn_inner) ''c'') 1)"
proof -
  obtain o' h' where i: "invalidate_connection (\<lambda>_. True) (register_owner (\<lambda>_. True) [] ''c'' 1) (\<lambda>_. spawn_inner) ''c'' = (o', h')"
    by fastforce
  from invalidate_connection_cancels [OF i] show ?thesis unfolding i by (simp add: register_owner_def hmap_simps)
qed

end
