(* ===== verification/Agent_Recovery.thy ===== *)
theory Agent_Recovery
  imports Prelude
begin

text \<open>
  Failures of the out-of-process JDBC agents and what is done about them:
  \<^verbatim>\<open>crates/dbx-driver-agent/src/agent_driver.rs\<close> (the typed error, its contract and its decoding),
  \<^verbatim>\<open>agent_recovery.rs\<close> (the recovery decision) and, from
  \<^verbatim>\<open>crates/dbx-core/src/query/query_cancel.rs\<close>, the test whether a result proves that a statement
  is no longer running. JSON values belong to \<^verbatim>\<open>serde_json\<close>: their type is a type variable and
  the accessors that the decoder calls are the fields of \<open>json_api\<close>.
\<close>

section \<open>The typed error\<close>

datatype AgentSessionDisposition = Keep | Quarantine | DispReplaceRuntime

datatype AgentErrorCategory = CatConnection | CatSql | CatResource | CatProtocol | CatTimeout | CatCanceled

datatype AgentErrorStage = StRequest | StCheckout | StConnect | StValidate | StExecute | StFetch | StCancel | StClose

datatype AgentOperationOutcome = NotStarted | OutcomeUnknown

record AgentErrorContext =
  contract_version :: "8 word"
  ctx_category :: AgentErrorCategory
  ctx_retryable :: bool
  ctx_session_disposition :: AgentSessionDisposition
  ctx_stage :: AgentErrorStage
  ctx_operation_outcome :: AgentOperationOutcome
  ctx_agent_session_id :: "string option"
  sql_state :: "string option"
  vendor_code :: "32 word option"
  exception_class :: "string option"

record LegacyAgentHints =
  hint_category :: "AgentErrorCategory option"
  hint_retryable :: "bool option"
  hint_session_disposition :: "AgentSessionDisposition option"
  hint_stage :: "AgentErrorStage option"
  hint_operation_outcome :: "AgentOperationOutcome option"
  hint_agent_session_id :: "string option"

definition default_hints :: LegacyAgentHints where
  "default_hints = \<lparr>hint_category = None, hint_retryable = None, hint_session_disposition = None,
     hint_stage = None, hint_operation_outcome = None, hint_agent_session_id = None\<rparr>"

datatype ContractViolationReason =
  MissingContractVersion | UnsupportedContractVersion | InvalidDataShape | InvalidSessionId |
  InvalidCombination | MissingResultOrError | InvalidResult

datatype AgentCallError =
    AceStructured "64 word" string AgentErrorContext
  | AceLegacy "64 word option" string LegacyAgentHints
  | AceContractViolation "64 word option" string ContractViolationReason
  | AceTransport string
  | AceTimeout AgentErrorStage AgentOperationOutcome
  | AceCanceled AgentErrorStage AgentOperationOutcome

definition ace_session_id :: "AgentCallError \<Rightarrow> string option" where
  "ace_session_id e = (case e of
     AceStructured _ _ context \<Rightarrow> ctx_agent_session_id context
   | AceLegacy _ _ hints \<Rightarrow> hint_agent_session_id hints
   | _ \<Rightarrow> None)"

definition ace_session_disposition :: "AgentCallError \<Rightarrow> AgentSessionDisposition option" where
  "ace_session_disposition e = (case e of
     AceStructured _ _ context \<Rightarrow> Some (ctx_session_disposition context)
   | AceLegacy _ _ hints \<Rightarrow> hint_session_disposition hints
   | _ \<Rightarrow> None)"

definition ace_category :: "AgentCallError \<Rightarrow> AgentErrorCategory option" where
  "ace_category e = (case e of
     AceStructured _ _ context \<Rightarrow> Some (ctx_category context)
   | AceLegacy _ _ hints \<Rightarrow> hint_category hints
   | AceTimeout _ _ \<Rightarrow> Some CatTimeout
   | AceCanceled _ _ \<Rightarrow> Some CatCanceled
   | AceContractViolation _ _ _ \<Rightarrow> None
   | AceTransport _ \<Rightarrow> None)"

definition ace_operation_outcome :: "AgentCallError \<Rightarrow> AgentOperationOutcome" where
  "ace_operation_outcome e = (case e of
     AceStructured _ _ context \<Rightarrow> ctx_operation_outcome context
   | AceLegacy _ _ hints \<Rightarrow> unwrap_or OutcomeUnknown (hint_operation_outcome hints)
   | AceTimeout _ operation_outcome \<Rightarrow> operation_outcome
   | AceCanceled _ operation_outcome \<Rightarrow> operation_outcome
   | AceContractViolation _ _ _ \<Rightarrow> OutcomeUnknown
   | AceTransport _ \<Rightarrow> OutcomeUnknown)"

definition with_legacy_session_id :: "AgentCallError \<Rightarrow> string option \<Rightarrow> AgentCallError" where
  "with_legacy_session_id e sid = (case (e, sid) of
     (AceLegacy code message hints, Some agent_session_id) \<Rightarrow>
       AceLegacy code message (hints\<lparr>hint_agent_session_id :=
         Some (unwrap_or agent_session_id (hint_agent_session_id hints))\<rparr>)
   | _ \<Rightarrow> e)"

section \<open>The error contract\<close>

definition is_ascii_graphic :: "char \<Rightarrow> bool" where
  "is_ascii_graphic c \<longleftrightarrow> 33 \<le> byte c \<and> byte c \<le> 126"

definition valid_ascii_diagnostic :: "string option \<Rightarrow> nat \<Rightarrow> bool" where
  "valid_ascii_diagnostic v max_length =
     is_none_or (\<lambda>v. v \<noteq> [] \<and> length v \<le> max_length \<and> list_all is_ascii_graphic v) v"

definition valid_ascii_identifier :: "string \<Rightarrow> bool" where
  "valid_ascii_identifier v \<longleftrightarrow> v \<noteq> [] \<and> list_all is_ascii_graphic v"

definition valid_agent_error_diagnostics :: "AgentErrorContext \<Rightarrow> bool" where
  "valid_agent_error_diagnostics context \<longleftrightarrow>
     valid_ascii_diagnostic (sql_state context) 16 \<and>
     valid_ascii_diagnostic (exception_class context) 160 \<and>
     is_none_or valid_ascii_identifier (ctx_agent_session_id context)"

definition expected_outcome :: "AgentErrorStage \<Rightarrow> AgentOperationOutcome" where
  "expected_outcome stage = (case stage of
     StRequest \<Rightarrow> NotStarted | StCheckout \<Rightarrow> NotStarted | StConnect \<Rightarrow> NotStarted | StValidate \<Rightarrow> NotStarted
   | StExecute \<Rightarrow> OutcomeUnknown | StFetch \<Rightarrow> OutcomeUnknown | StCancel \<Rightarrow> OutcomeUnknown
   | StClose \<Rightarrow> OutcomeUnknown)"

definition valid_disposition :: "AgentErrorContext \<Rightarrow> bool" where
  "valid_disposition context = (case ctx_category context of
     CatConnection \<Rightarrow> ctx_session_disposition context \<noteq> DispReplaceRuntime
   | CatSql \<Rightarrow> ctx_stage context \<in> {StExecute, StFetch, StCancel, StClose} \<and>
       ctx_session_disposition context \<noteq> DispReplaceRuntime
   | CatResource \<Rightarrow> ctx_session_disposition context = DispReplaceRuntime \<or>
       ctx_operation_outcome context = NotStarted
   | CatProtocol \<Rightarrow> ctx_session_disposition context \<noteq> DispReplaceRuntime \<or>
       ctx_operation_outcome context = OutcomeUnknown
   | CatTimeout \<Rightarrow> ctx_session_disposition context = Quarantine
   | CatCanceled \<Rightarrow> ctx_session_disposition context = Quarantine)"

definition valid_agent_error_combination :: "AgentErrorContext \<Rightarrow> bool" where
  "valid_agent_error_combination context =
     (if ctx_operation_outcome context \<noteq> expected_outcome (ctx_stage context) then False
      else if \<not> valid_disposition context then False
      else valid_agent_error_diagnostics context)"

section \<open>Decoding\<close>

record 'v json_api =
  j_get :: "'v \<Rightarrow> string \<Rightarrow> 'v option"
  j_is_object :: "'v \<Rightarrow> bool"
  j_as_u64 :: "'v \<Rightarrow> 64 word option"
  j_as_i64 :: "'v \<Rightarrow> 64 word option"
  j_as_str :: "'v \<Rightarrow> string option"
  j_as_bool :: "'v \<Rightarrow> bool option"
  j_context :: "'v \<Rightarrow> AgentErrorContext option"
  j_category :: "'v \<Rightarrow> AgentErrorCategory option"
  j_stage :: "'v \<Rightarrow> AgentErrorStage option"
  j_outcome :: "'v \<Rightarrow> AgentOperationOutcome option"

definition parse_structured_error_context ::
  "'v json_api \<Rightarrow> 'v \<Rightarrow> string option \<Rightarrow> ContractViolationReason + AgentErrorContext" where
  "parse_structured_error_context J data expected_session_id = (case j_get J data ''contractVersion'' of
     None \<Rightarrow> Inl MissingContractVersion
   | Some v \<Rightarrow> (case j_as_u64 J v of
       None \<Rightarrow> Inl InvalidDataShape
     | Some version \<Rightarrow>
         if version \<noteq> 1 then Inl UnsupportedContractVersion
         else (case j_context J data of
           None \<Rightarrow> Inl InvalidDataShape
         | Some context \<Rightarrow>
             if contract_version context \<noteq> 1 then Inl UnsupportedContractVersion
             else if expected_session_id \<noteq> None \<and> ctx_agent_session_id context \<noteq> expected_session_id
             then Inl InvalidSessionId
             else if \<not> valid_agent_error_combination context then Inl InvalidCombination
             else Inr context)))"

definition legacy_agent_hints :: "'v json_api \<Rightarrow> 'v \<Rightarrow> LegacyAgentHints" where
  "legacy_agent_hints J data =
     \<lparr>hint_category = Option.bind (j_get J data ''category'') (j_category J),
      hint_retryable = Option.bind (j_get J data ''retryable'') (j_as_bool J),
      hint_session_disposition = (case Option.bind (j_get J data ''sessionDisposition'') (j_as_str J) of
         Some s \<Rightarrow> if s = ''keep'' then Some Keep
                   else if s = ''quarantine'' then Some Quarantine
                   else if s = ''replace_runtime'' then Some DispReplaceRuntime else None
       | None \<Rightarrow> None),
      hint_stage = Option.bind (j_get J data ''stage'') (j_stage J),
      hint_operation_outcome = Option.bind (j_get J data ''operationOutcome'') (j_outcome J),
      hint_agent_session_id = Option.bind (j_get J data ''agentSessionId'') (j_as_str J)\<rparr>"

definition parse_agent_call_error :: "'v json_api \<Rightarrow> 'v \<Rightarrow> bool \<Rightarrow> string option \<Rightarrow> AgentCallError" where
  "parse_agent_call_error J error strict_structured_errors expected_session_id =
     (let rpc_code = Option.bind (j_get J error ''code'') (j_as_i64 J);
          message = unwrap_or ''Unknown agent error'' (Option.bind (j_get J error ''message'') (j_as_str J));
          data = j_get J error ''data''
      in if \<not> strict_structured_errors
         then AceLegacy rpc_code message (unwrap_or default_hints (map_option (legacy_agent_hints J) data))
         else (case option_filter (j_is_object J) data of
             None \<Rightarrow> AceContractViolation rpc_code message MissingContractVersion
           | Some data \<Rightarrow> (case parse_structured_error_context J data expected_session_id of
               Inr context \<Rightarrow> AceStructured (unwrap_or (- 1) rpc_code) message context
             | Inl reason \<Rightarrow> AceContractViolation rpc_code message reason)))"

definition quoted :: "string \<Rightarrow> string" where
  "quoted s = [CHR 0x27] @ s @ [CHR 0x27]"

definition decode_agent_response ::
  "'v json_api \<Rightarrow> ('v \<Rightarrow> string + 't) \<Rightarrow> 'v \<Rightarrow> bool \<Rightarrow> string option \<Rightarrow> AgentCallError + 't" where
  "decode_agent_response J from_value response strict_structured_errors expected_session_id =
     (case j_get J response ''error'' of
        Some err \<Rightarrow> Inl (parse_agent_call_error J err strict_structured_errors expected_session_id)
      | None \<Rightarrow> (case j_get J response ''result'' of
          None \<Rightarrow> Inl (AceContractViolation None
            (''Agent response missing both '' @ quoted ''result'' @ '' and '' @ quoted ''error'')
            MissingResultOrError)
        | Some result \<Rightarrow> (case from_value result of
            Inl e \<Rightarrow> Inl (AceContractViolation None (''Failed to deserialize agent result: '' @ e) InvalidResult)
          | Inr v \<Rightarrow> Inr v)))"

definition agent_error_stage :: "string \<Rightarrow> AgentErrorStage" where
  "agent_error_stage method =
     (if method = ''handshake'' then StRequest
      else if method \<in> {''connect'', ''open_session'', ''test_connection''} then StConnect
      else if method \<in> {''validate_connection'', ''validate_session''} then StValidate
      else if method = ''cancel_session'' then StCancel
      else if method \<in> {''close_session'', ''disconnect'', ''shutdown'', ''close_query_session'',
                        ''close_table_read_session''} then StClose
      else if method \<in> {''fetch_query_page'', ''fetch_table_read_page''} then StFetch
      else StExecute)"

definition agent_operation_outcome :: "string \<Rightarrow> AgentOperationOutcome" where
  "agent_operation_outcome method = (case agent_error_stage method of
     StRequest \<Rightarrow> NotStarted | StCheckout \<Rightarrow> NotStarted | StConnect \<Rightarrow> NotStarted | StValidate \<Rightarrow> NotStarted
   | _ \<Rightarrow> OutcomeUnknown)"

section \<open>Recovery decision\<close>

datatype RecoveryScope = UserOperation | ReadOnlyMetadata bool | Keepalive | ConnectionOpen

datatype RecoveryDecision = KeepSession | RetryReadOnlyMetadata | QuarantineSession | ReplaceRuntime

definition discards_session :: "RecoveryDecision \<Rightarrow> bool" where
  "discards_session d \<longleftrightarrow> d \<noteq> KeepSession"

definition replaces_runtime :: "RecoveryDecision \<Rightarrow> bool" where
  "replaces_runtime d \<longleftrightarrow> d = ReplaceRuntime"

definition from_disposition ::
  "AgentSessionDisposition option \<Rightarrow> AgentErrorCategory option \<Rightarrow> RecoveryScope \<Rightarrow> RecoveryDecision" where
  "from_disposition disposition category scope = (case disposition of
     Some DispReplaceRuntime \<Rightarrow> ReplaceRuntime
   | Some Quarantine \<Rightarrow>
       if category = Some CatConnection \<and> scope = ReadOnlyMetadata False
       then RetryReadOnlyMetadata else QuarantineSession
   | Some Keep \<Rightarrow> KeepSession
   | None \<Rightarrow> KeepSession)"

definition recovery_decide :: "AgentCallError \<Rightarrow> RecoveryScope \<Rightarrow> RecoveryDecision" where
  "recovery_decide error scope = (case error of
     AceContractViolation _ _ _ \<Rightarrow> QuarantineSession
   | AceTransport _ \<Rightarrow> ReplaceRuntime
   | AceTimeout _ _ \<Rightarrow> QuarantineSession
   | AceCanceled _ _ \<Rightarrow> QuarantineSession
   | AceStructured _ _ context \<Rightarrow>
       if ctx_category context \<in> {CatTimeout, CatCanceled} then QuarantineSession
       else from_disposition (Some (ctx_session_disposition context)) (Some (ctx_category context)) scope
   | AceLegacy _ _ hints \<Rightarrow> from_disposition (hint_session_disposition hints) (hint_category hints) scope)"

section \<open>Results of a query\<close>

record SqlErrorPosition =
  pos_line :: "32 word"
  pos_column :: "32 word"
  pos_offset :: "32 word"

datatype QueryExecutionError =
    QeAgent AgentCallError
  | QeDuckDb string string
  | QeCanceled AgentErrorStage AgentOperationOutcome
  | QeTimeout string
  | QeSql string
  | QeSqlWithPosition string SqlErrorPosition
  | QeLegacy string

text \<open>The proof of termination that \<^verbatim>\<open>finish_with_database_result\<close> reads off a result.\<close>

definition database_terminal_of :: "QueryExecutionError + 't \<Rightarrow> bool" where
  "database_terminal_of result = (case result of
     Inr _ \<Rightarrow> True
   | Inl (QeAgent (AceStructured _ _ context)) \<Rightarrow>
       ctx_operation_outcome context = NotStarted \<or>
       (ctx_category context = CatSql \<and> ctx_stage context = StExecute)
   | Inl (QeCanceled _ NotStarted) \<Rightarrow> True
   | Inl _ \<Rightarrow> False)"

section \<open>Laws\<close>

lemmas ace_defs = ace_session_id_def ace_session_disposition_def ace_category_def ace_operation_outcome_def

lemma parse_context_valid:
  assumes "parse_structured_error_context J data sid = Inr context"
  shows "valid_agent_error_combination context" and "contract_version context = 1"
    and "sid = None \<or> ctx_agent_session_id context = sid"
  using assms by (auto simp: parse_structured_error_context_def split: option.splits if_splits)

lemma parse_error_cases:
  assumes "parse_agent_call_error J err True sid = AceStructured code message context"
  shows "valid_agent_error_combination context" and "sid = None \<or> ctx_agent_session_id context = sid"
  using assms
  by (auto simp: parse_agent_call_error_def Let_def split: option.splits sum.splits dest: parse_context_valid)

lemma valid_outcome:
  "valid_agent_error_combination context \<Longrightarrow> ctx_operation_outcome context = expected_outcome (ctx_stage context)"
  by (auto simp: valid_agent_error_combination_def split: if_splits)

lemma expected_not_started:
  "expected_outcome stage = NotStarted \<longleftrightarrow> stage \<in> {StRequest, StCheckout, StConnect, StValidate}"
  by (cases stage) (auto simp: expected_outcome_def)

lemma from_disposition_retry:
  "from_disposition d c scope = RetryReadOnlyMetadata \<longleftrightarrow>
     d = Some Quarantine \<and> c = Some CatConnection \<and> scope = ReadOnlyMetadata False"
  by (auto simp: from_disposition_def split: option.splits AgentSessionDisposition.splits)



text \<open>
  An agent failure counts as proof that the statement is no longer running only on good
  evidence. When the response was decoded under the error contract and the decoded failure is taken
  as such a proof, the agent sent a well-formed context for the session that was asked, and either
  the failure happened before execution began (while requesting, checking out, connecting or
  validating) or the database itself rejected the statement during execution.
\<close>

theorem database_proof_sound:
  assumes "e = parse_agent_call_error J err True sid"
    and "database_terminal_of (Inl (QeAgent e) :: QueryExecutionError + 't)"
  shows "\<exists>code message context. e = AceStructured code message context \<and>
           (sid = None \<or> ctx_agent_session_id context = sid) \<and>
           (ctx_stage context \<in> {StRequest, StCheckout, StConnect, StValidate} \<or>
            (ctx_category context = CatSql \<and> ctx_stage context = StExecute))"
proof -
  obtain code message ctx where e: "e = AceStructured code message ctx"
    and proof_of: "ctx_operation_outcome ctx = NotStarted \<or>
      (ctx_category ctx = CatSql \<and> ctx_stage ctx = StExecute)"
    using assms(2) by (auto simp: database_terminal_of_def split: AgentCallError.splits)
  note valid = parse_error_cases [OF assms(1) [unfolded e, symmetric]]
  show ?thesis
    using e proof_of valid(2) valid_outcome [OF valid(1)] by (auto simp: expected_not_started)
qed

text \<open>A response whose error data carries a rejected statement, decoded with concrete accessors.\<close>

definition sample_context :: AgentErrorContext where
  "sample_context = \<lparr>contract_version = 1, ctx_category = CatSql, ctx_retryable = False,
     ctx_session_disposition = Keep, ctx_stage = StExecute, ctx_operation_outcome = OutcomeUnknown,
     ctx_agent_session_id = Some ''s1'', sql_state = Some ''42601'', vendor_code = None,
     exception_class = None\<rparr>"

definition sample_json :: "nat json_api" where
  "sample_json = \<lparr>j_get = (\<lambda>v k. if k = ''data'' then Some 1 else if k = ''contractVersion'' then Some 2 else None),
     j_is_object = (\<lambda>v. v = 1), j_as_u64 = (\<lambda>v. if v = 2 then Some 1 else None), j_as_i64 = (\<lambda>_. None),
     j_as_str = (\<lambda>_. None), j_as_bool = (\<lambda>_. None), j_context = (\<lambda>v. if v = 1 then Some sample_context else None),
     j_category = (\<lambda>_. None), j_stage = (\<lambda>_. None), j_outcome = (\<lambda>_. None)\<rparr>"

lemma sample_decoded:
  "parse_agent_call_error sample_json 0 True (Some ''s1'') =
     AceStructured (- 1) ''Unknown agent error'' sample_context"
  by code_simp

theorem database_proof_sound_witness:
  "\<exists>code message context.
     parse_agent_call_error sample_json 0 True (Some ''s1'') = AceStructured code message context \<and>
     (Some ''s1'' = (None :: string option) \<or> ctx_agent_session_id context = Some ''s1'') \<and>
     (ctx_stage context \<in> {StRequest, StCheckout, StConnect, StValidate} \<or>
      (ctx_category context = CatSql \<and> ctx_stage context = StExecute))"
  by (rule database_proof_sound [OF refl, where 't = unit])
    (simp add: sample_decoded database_terminal_of_def sample_context_def)

end
