(* ===== verification/Running_Queries.thy ===== *)
theory Running_Queries
  imports Agent_Recovery
begin

text \<open>
  The registry of running queries, \<^verbatim>\<open>crates/dbx-core/src/query/query_cancel.rs\<close>: registrations
  that can be cancelled by id, by connection, by client session or by owner, driver interrupts, and
  the receipts that prove after a timeout that a statement has ended.

  Each body between taking and releasing the registry's mutex is one step. Cancellation tokens,
  completion channels and interrupt closures belong to the runtime: they are represented by numbers
  that name them, and an operation returns the calls it makes on them as a list of effects, in the
  order of the calls. What the runtime answers (whether a token is cancelled) and the clock reading
  in nanoseconds are arguments; so are the state changes that other tasks make while a caller waits.
\<close>

section \<open>State\<close>

type_synonym token = nat
type_synonym channel = nat
type_synonym interrupt = nat

datatype effect = CancelToken token | SendComplete channel | RunInterrupt interrupt

datatype RunningTaskKind = RtQuery | RtCount | RtExplain | RtExport | RtUnknown

record RunningTaskMetadata =
  md_kind :: RunningTaskKind
  md_connection_id :: "string option"
  md_database :: "string option"
  md_client_session_id :: "string option"
  md_owner_scope :: "string option"

definition default_metadata :: RunningTaskMetadata where
  "default_metadata = \<lparr>md_kind = RtUnknown, md_connection_id = None, md_database = None,
     md_client_session_id = None, md_owner_scope = None\<rparr>"

record RunningTask =
  rt_registration_id :: "64 word"
  rt_token :: token
  rt_completion :: channel
  rt_remember_completion :: bool
  rt_metadata :: RunningTaskMetadata
  rt_pool_key :: "string option"
  rt_interrupt :: "interrupt option"

record CancellationWaitResult =
  cw_requested :: bool
  cw_terminal :: bool
  cw_database_terminal :: "bool option"

record RunningQueries =
  rq_inner :: "(string, RunningTask) hmap"
  rq_completed :: "(string, nat \<times> bool) hmap"
  rq_next_registration_id :: "64 word"

definition empty_queries :: RunningQueries where
  "empty_queries = \<lparr>rq_inner = [], rq_completed = [], rq_next_registration_id = 0\<rparr>"

record RegisteredQuery =
  rg_execution_id :: string
  rg_registration_id :: "64 word"
  rg_token :: token
  rg_detached :: bool
  rg_database_terminal :: bool

definition DETACHED_REGISTRATION_GRACE_PERIOD :: nat where
  "DETACHED_REGISTRATION_GRACE_PERIOD = 30 * 60 * 1000000000"

section \<open>Metadata\<close>

definition task_kind_from_client_session_id :: "string option \<Rightarrow> RunningTaskKind" where
  "task_kind_from_client_session_id client_session_id = (case client_session_id of
     None \<Rightarrow> RtQuery
   | Some session_id \<Rightarrow>
       (let session_id = to_ascii_lowercase (trim session_id)
        in if ends_with session_id '':count'' then RtCount
           else if ends_with session_id '':explain'' then RtExplain
           else if ends_with session_id '':export'' then RtExport
           else RtQuery))"

definition owner_scope_from_client_session_id :: "string \<Rightarrow> string option" where
  "owner_scope_from_client_session_id client_session_id =
     (let own = trim (split_first CHR '':'' (trim client_session_id))
      in if own \<noteq> [] then Some own else None)"

definition metadata_query :: "string \<Rightarrow> string \<Rightarrow> string option \<Rightarrow> RunningTaskMetadata" where
  "metadata_query connection_id database client_session_id =
     \<lparr>md_kind = task_kind_from_client_session_id client_session_id,
      md_connection_id = Some connection_id, md_database = Some database,
      md_client_session_id = client_session_id,
      md_owner_scope = Option.bind client_session_id owner_scope_from_client_session_id\<rparr>"

definition with_owner_scope :: "RunningTaskMetadata \<Rightarrow> string \<Rightarrow> RunningTaskMetadata" where
  "with_owner_scope md owner_scope = md\<lparr>md_owner_scope := Some owner_scope\<rparr>"

section \<open>Operations\<close>

definition fresh_receipts :: "nat \<Rightarrow> (string, nat \<times> bool) hmap \<Rightarrow> (string, nat \<times> bool) hmap" where
  "fresh_receipts now = hm_retain (\<lambda>_ (completed_at, _). now - completed_at < DETACHED_REGISTRATION_GRACE_PERIOD)"

definition interrupt_effect :: "interrupt option \<Rightarrow> effect list" where
  "interrupt_effect i = (case i of Some i \<Rightarrow> [RunInterrupt i] | None \<Rightarrow> [])"

definition register_task_with_token ::
  "nat \<Rightarrow> string \<Rightarrow> RunningTaskMetadata \<Rightarrow> bool \<Rightarrow> token \<Rightarrow> channel \<Rightarrow> RunningQueries \<Rightarrow>
     RunningQueries \<times> RegisteredQuery \<times> effect list" where
  "register_task_with_token now execution_id metadata remember_completion token completion s =
     (let registration_id = rq_next_registration_id s + 1;
          previous = map_of (rq_inner s) execution_id;
          s' = \<lparr>rq_inner = hm_insert execution_id
                   \<lparr>rt_registration_id = registration_id, rt_token = token, rt_completion = completion,
                    rt_remember_completion = remember_completion, rt_metadata = metadata,
                    rt_pool_key = None, rt_interrupt = None\<rparr> (rq_inner s),
                 rq_completed = hm_remove execution_id (fresh_receipts now (rq_completed s)),
                 rq_next_registration_id = registration_id\<rparr>;
          effects = (case previous of
             None \<Rightarrow> []
           | Some p \<Rightarrow> [CancelToken (rt_token p), SendComplete (rt_completion p)] @ interrupt_effect (rt_interrupt p))
      in (s', \<lparr>rg_execution_id = execution_id, rg_registration_id = registration_id, rg_token = token,
               rg_detached = False, rg_database_terminal = False\<rparr>, effects))"

text \<open>
  The public variants differ in the metadata, in whether the completion is remembered, and in the token:
  a new one, or a child of the connection's own token, as \<^verbatim>\<open>child_token\<close> makes it.
\<close>

definition register_task_with_completion_tracking ::
  "nat \<Rightarrow> string \<Rightarrow> RunningTaskMetadata \<Rightarrow> bool \<Rightarrow> token \<Rightarrow> channel \<Rightarrow> RunningQueries \<Rightarrow>
     RunningQueries \<times> RegisteredQuery \<times> effect list" where
  "register_task_with_completion_tracking now execution_id metadata remember_completion new_token =
     register_task_with_token now execution_id metadata remember_completion new_token"

definition register_task ::
  "nat \<Rightarrow> string \<Rightarrow> RunningTaskMetadata \<Rightarrow> token \<Rightarrow> channel \<Rightarrow> RunningQueries \<Rightarrow>
     RunningQueries \<times> RegisteredQuery \<times> effect list" where
  "register_task now execution_id metadata = register_task_with_completion_tracking now execution_id metadata False"

definition register_query ::
  "nat \<Rightarrow> string \<Rightarrow> token \<Rightarrow> channel \<Rightarrow> RunningQueries \<Rightarrow> RunningQueries \<times> RegisteredQuery \<times> effect list" where
  "register_query now execution_id = register_task now execution_id default_metadata"

definition register_task_for_terminal_confirmation ::
  "nat \<Rightarrow> string \<Rightarrow> RunningTaskMetadata \<Rightarrow> token \<Rightarrow> channel \<Rightarrow> RunningQueries \<Rightarrow>
     RunningQueries \<times> RegisteredQuery \<times> effect list" where
  "register_task_for_terminal_confirmation now execution_id metadata =
     register_task_with_completion_tracking now execution_id metadata True"

definition register_task_for_terminal_confirmation_with_parent ::
  "(token \<Rightarrow> token) \<Rightarrow> nat \<Rightarrow> string \<Rightarrow> RunningTaskMetadata \<Rightarrow> token \<Rightarrow> channel \<Rightarrow> RunningQueries \<Rightarrow>
     RunningQueries \<times> RegisteredQuery \<times> effect list" where
  "register_task_for_terminal_confirmation_with_parent child_token now execution_id metadata parent =
     register_task_with_token now execution_id metadata True (child_token parent)"

definition completed_execution_result ::
  "nat \<Rightarrow> string \<Rightarrow> RunningQueries \<Rightarrow> RunningQueries \<times> CancellationWaitResult" where
  "completed_execution_result now execution_id s =
     (if map_of (rq_inner s) execution_id \<noteq> None
      then (s, \<lparr>cw_requested = False, cw_terminal = False, cw_database_terminal = Some False\<rparr>)
      else (let completed = fresh_receipts now (rq_completed s)
            in (s\<lparr>rq_completed := completed\<rparr>,
                \<lparr>cw_requested = False, cw_terminal = map_of completed execution_id \<noteq> None,
                 cw_database_terminal =
                   Some (is_some_and (\<lambda>(_, proven). proven) (map_of completed execution_id))\<rparr>)))"

definition wait_for_completion ::
  "(RunningQueries \<Rightarrow> RunningQueries) \<Rightarrow> nat \<Rightarrow> string \<Rightarrow> RunningQueries \<Rightarrow> RunningQueries \<times> CancellationWaitResult" where
  "wait_for_completion during now execution_id s =
     completed_execution_result now execution_id
       (if map_of (rq_inner s) execution_id \<noteq> None then during s else s)"

definition register_interrupt ::
  "(token \<Rightarrow> bool) \<Rightarrow> string \<Rightarrow> interrupt \<Rightarrow> RunningQueries \<Rightarrow> RunningQueries \<times> effect list" where
  "register_interrupt is_cancelled execution_id i s = (case map_of (rq_inner s) execution_id of
     Some task \<Rightarrow>
       if \<not> is_cancelled (rt_token task)
       then (s\<lparr>rq_inner := hm_insert execution_id (task\<lparr>rt_interrupt := Some i\<rparr>) (rq_inner s)\<rparr>, [])
       else (s, [RunInterrupt i])
   | None \<Rightarrow> (s, [RunInterrupt i]))"

definition cancel :: "string \<Rightarrow> RunningQueries \<Rightarrow> RunningQueries \<times> effect list \<times> bool" where
  "cancel execution_id s = (case map_of (rq_inner s) execution_id of
     None \<Rightarrow> (s, [], False)
   | Some task \<Rightarrow>
       if rt_remember_completion task
       then (s\<lparr>rq_inner := hm_insert execution_id (task\<lparr>rt_interrupt := None\<rparr>) (rq_inner s)\<rparr>,
             CancelToken (rt_token task) # interrupt_effect (rt_interrupt task), True)
       else (s\<lparr>rq_inner := hm_remove execution_id (rq_inner s)\<rparr>,
             CancelToken (rt_token task) # interrupt_effect (rt_interrupt task) @ [SendComplete (rt_completion task)],
             True))"

definition cancel_and_wait ::
  "(RunningQueries \<Rightarrow> RunningQueries) \<Rightarrow> (RunningQueries \<Rightarrow> RunningQueries) \<Rightarrow> bool \<Rightarrow> nat \<Rightarrow> string \<Rightarrow>
     RunningQueries \<Rightarrow> RunningQueries \<times> effect list \<times> CancellationWaitResult" where
  "cancel_and_wait before during completed_in_time now execution_id s =
     (if map_of (rq_inner s) execution_id = None
      then (let (s', res) = completed_execution_result now execution_id s in (s', [], res))
      else (case cancel execution_id (before s) of
          (s1, effects, False) \<Rightarrow>
            (let (s', res) = completed_execution_result now execution_id s1 in (s', effects, res))
        | (s1, effects, True) \<Rightarrow>
            (let (s', res) = completed_execution_result now execution_id (during s1)
             in (s', effects, \<lparr>cw_requested = True, cw_terminal = completed_in_time,
                               cw_database_terminal = cw_database_terminal res\<rparr>))))"

fun cancel_each :: "string list \<Rightarrow> RunningQueries \<Rightarrow> RunningQueries \<times> effect list \<times> nat" where
  "cancel_each [] s = (s, [], 0)"
| "cancel_each (i # ids) s =
     (let (s1, e1, cancelled) = cancel i s; (s2, e2, n) = cancel_each ids s1
      in (s2, e1 @ e2, (if cancelled then Suc n else n)))"

definition cancel_matching ::
  "(RunningTask \<Rightarrow> bool) \<Rightarrow> RunningQueries \<Rightarrow> RunningQueries \<times> effect list \<times> nat" where
  "cancel_matching p s = cancel_each (map fst (filter (\<lambda>(_, task). p task) (rq_inner s))) s"

definition cancel_connection :: "string \<Rightarrow> RunningQueries \<Rightarrow> RunningQueries \<times> effect list \<times> nat" where
  "cancel_connection connection_id =
     cancel_matching (\<lambda>task. md_connection_id (rt_metadata task) = Some connection_id)"

definition cancel_client_session :: "string \<Rightarrow> RunningQueries \<Rightarrow> RunningQueries \<times> effect list \<times> nat" where
  "cancel_client_session client_session_id =
     cancel_matching (\<lambda>task. md_client_session_id (rt_metadata task) = Some client_session_id)"

definition cancel_owner_scope :: "string \<Rightarrow> RunningQueries \<Rightarrow> RunningQueries \<times> effect list \<times> nat" where
  "cancel_owner_scope owner_scope =
     cancel_matching (\<lambda>task. md_owner_scope (rt_metadata task) = Some owner_scope)"

definition cancel_all :: "RunningQueries \<Rightarrow> RunningQueries \<times> effect list \<times> nat" where
  "cancel_all = cancel_matching (\<lambda>_. True)"

definition set_pool_key :: "string \<Rightarrow> string \<Rightarrow> RunningQueries \<Rightarrow> RunningQueries" where
  "set_pool_key execution_id pool_key s = (case map_of (rq_inner s) execution_id of
     None \<Rightarrow> s
   | Some task \<Rightarrow>
       s\<lparr>rq_inner := hm_insert execution_id (task\<lparr>rt_pool_key := Some pool_key\<rparr>) (rq_inner s)\<rparr>)"

definition is_pool_active :: "string \<Rightarrow> RunningQueries \<Rightarrow> bool" where
  "is_pool_active pool_key s \<longleftrightarrow> list_ex (\<lambda>(_, task). rt_pool_key task = Some pool_key) (rq_inner s)"

definition rq_remove ::
  "nat \<Rightarrow> string \<Rightarrow> 64 word \<Rightarrow> bool \<Rightarrow> RunningQueries \<Rightarrow> RunningQueries \<times> effect list" where
  "rq_remove now execution_id registration_id database_terminal s =
     (case map_of (rq_inner s) execution_id of
        None \<Rightarrow> (s, [])
      | Some task \<Rightarrow>
          if rt_registration_id task \<noteq> registration_id then (s, [])
          else (s\<lparr>rq_inner := hm_remove execution_id (rq_inner s),
                  rq_completed := (if rt_remember_completion task
                    then hm_insert execution_id (now, database_terminal) (rq_completed s)
                    else rq_completed s)\<rparr>,
                [SendComplete (rt_completion task)]))"

definition drop_guard :: "nat \<Rightarrow> RegisteredQuery \<Rightarrow> RunningQueries \<Rightarrow> RunningQueries \<times> effect list" where
  "drop_guard now g s =
     (if \<not> rg_detached g
      then rq_remove now (rg_execution_id g) (rg_registration_id g) (rg_database_terminal g) s else (s, []))"

definition finish_with_database_result ::
  "nat \<Rightarrow> RegisteredQuery \<Rightarrow> QueryExecutionError + 't \<Rightarrow> RunningQueries \<Rightarrow> RunningQueries \<times> effect list \<times> bool" where
  "finish_with_database_result now g result s =
     (let g' = g\<lparr>rg_database_terminal := database_terminal_of result\<rparr>; (s', effects) = drop_guard now g' s
      in (s', effects, rg_database_terminal g'))"

text \<open>
  A detached guard leaves its registration in place; the task it spawns removes the registration when
  the grace period is over. The pair is the id and the registration that task will remove.
\<close>

definition detach :: "RegisteredQuery \<Rightarrow> RegisteredQuery \<times> string \<times> 64 word" where
  "detach g = (g\<lparr>rg_detached := True\<rparr>, rg_execution_id g, rg_registration_id g)"

definition detach_expired :: "nat \<Rightarrow> string \<times> 64 word \<Rightarrow> RunningQueries \<Rightarrow> RunningQueries \<times> effect list" where
  "detach_expired now timer s = rq_remove now (fst timer) (snd timer) False s"

definition finish_with_late_cancel ::
  "nat \<Rightarrow> RegisteredQuery \<Rightarrow> QueryExecutionError + 't \<Rightarrow> bool \<Rightarrow> RunningQueries \<Rightarrow>
     RunningQueries \<times> effect list \<times> (string \<times> 64 word) option" where
  "finish_with_late_cancel now g result keep_timeout_reachable s =
     (if keep_timeout_reachable \<and> (case result of Inl (QeTimeout _) \<Rightarrow> True | _ \<Rightarrow> False)
      then (let (g', timer) = detach g; (s', effects) = drop_guard now g' s in (s', effects, Some timer))
      else (let (s', effects) = drop_guard now g s in (s', effects, None)))"

definition finish ::
  "nat \<Rightarrow> RegisteredQuery \<Rightarrow> QueryExecutionError + 't \<Rightarrow> RunningQueries \<Rightarrow>
     RunningQueries \<times> effect list \<times> (string \<times> 64 word) option" where
  "finish now g result = finish_with_late_cancel now g result True"

record RunningQueryDiagnostics =
  active_execution_ids :: "string list"
  active_by_connection :: "(string, nat) hmap"
  interrupt_registrations :: nat

definition count_task :: "(string, nat) hmap \<times> nat \<Rightarrow> RunningTask \<Rightarrow> (string, nat) hmap \<times> nat" where
  "count_task acc task =
     (let (by_connection, interrupts) = acc
      in ((case md_connection_id (rt_metadata task) of
             None \<Rightarrow> by_connection
           | Some c \<Rightarrow> hm_insert c (unwrap_or 0 (map_of by_connection c) + 1) by_connection),
          (if rt_interrupt task \<noteq> None then interrupts + 1 else interrupts)))"

definition diagnostics :: "RunningQueries \<Rightarrow> RunningQueryDiagnostics" where
  "diagnostics s =
     (let (by_connection, interrupts) = foldl count_task ([], 0) (map snd (rq_inner s))
      in \<lparr>active_execution_ids = sort (map fst (rq_inner s)), active_by_connection = by_connection,
          interrupt_registrations = interrupts\<rparr>)"

end
