(* ===== verification/Running_Queries_Laws.thy ===== *)
theory Running_Queries_Laws
  imports Running_Queries
begin

text \<open>
  Histories of the registry of running queries and what holds in every state they reach: a receipt
  belongs to the latest registration of its id, a superseded guard changes nothing, a cancelled
  task holds no interrupt, and cancelling by connection reaches every task of the connection.
\<close>

section \<open>Histories\<close>

text \<open>The events of a history that the laws speak of, newest first.\<close>

datatype rq_event = EvRegister string "64 word" bool token | EvFinish string "64 word" bool nat

fun registrations :: "rq_event list \<Rightarrow> (string \<times> 64 word \<times> bool \<times> token) list" where
  "registrations [] = []"
| "registrations (EvRegister e r m t # h) = (e, r, m, t) # registrations h"
| "registrations (EvFinish _ _ _ _ # h) = registrations h"

definition reg_id :: "string \<times> 64 word \<times> bool \<times> token \<Rightarrow> 64 word" where
  "reg_id x = fst (snd x)"

definition reg_token :: "string \<times> 64 word \<times> bool \<times> token \<Rightarrow> token" where
  "reg_token x = snd (snd (snd x))"

lemma reg_id_tuple [simp]: "reg_id (e, r, m, t) = r"
  by (simp add: reg_id_def)

lemma reg_token_tuple [simp]: "reg_token (e, r, m, t) = t"
  by (simp add: reg_token_def)

definition latest :: "string \<Rightarrow> rq_event list \<Rightarrow> (64 word \<times> bool \<times> token) option" where
  "latest e h = map_of (registrations h) e"

definition since :: "string \<Rightarrow> rq_event list \<Rightarrow> rq_event list" where
  "since e h = takeWhile (\<lambda>ev. case ev of EvRegister e' _ _ _ \<Rightarrow> e' \<noteq> e | _ \<Rightarrow> True) h"

text \<open>
  A registration gets a token that no earlier one had. Reading whether a token is cancelled answers
  yes at least for the tokens that were cancelled through the registry.
\<close>

inductive rq_run :: "rq_event list \<Rightarrow> RegisteredQuery list \<Rightarrow> effect list \<Rightarrow> RunningQueries \<Rightarrow> bool" where
  rq_start: "rq_run [] [] [] empty_queries"
| rq_register: "rq_run h gs E s \<Longrightarrow> t \<notin> reg_token ` set (registrations h) \<Longrightarrow> CancelToken t \<notin> set E \<Longrightarrow>
    register_task_with_token now e md m t c s = (s', g, E') \<Longrightarrow>
    rq_run (EvRegister e (rg_registration_id g) m t # h) (g # gs) (E @ E') s'"
| rq_interrupt: "rq_run h gs E s \<Longrightarrow> (\<And>t. CancelToken t \<in> set E \<Longrightarrow> is_cancelled t) \<Longrightarrow>
    register_interrupt is_cancelled e i s = (s', E') \<Longrightarrow> rq_run h gs (E @ E') s'"
| rq_cancel: "rq_run h gs E s \<Longrightarrow> cancel e s = (s', E', b) \<Longrightarrow> rq_run h gs (E @ E') s'"
| rq_finish: "rq_run h gs E s \<Longrightarrow> g \<in> set gs \<Longrightarrow>
    rq_remove now (rg_execution_id g) (rg_registration_id g) d s = (s', E') \<Longrightarrow>
    rq_run (EvFinish (rg_execution_id g) (rg_registration_id g) d now # h) (remove1 g gs) (E @ E') s'"
| rq_lookup: "rq_run h gs E s \<Longrightarrow> completed_execution_result now e s = (s', res) \<Longrightarrow> rq_run h gs E s'"
| rq_pool_key: "rq_run h gs E s \<Longrightarrow> rq_run h gs E (set_pool_key e k s)"

section \<open>Invariant\<close>

definition task_ok :: "rq_event list \<Rightarrow> effect list \<Rightarrow> string \<Rightarrow> RunningTask \<Rightarrow> bool" where
  "task_ok h E e task \<longleftrightarrow>
     latest e h = Some (rt_registration_id task, rt_remember_completion task, rt_token task) \<and>
     (CancelToken (rt_token task) \<in> set E \<longrightarrow> rt_interrupt task = None)"

definition receipt_ok :: "rq_event list \<Rightarrow> string \<Rightarrow> nat \<times> bool \<Rightarrow> bool" where
  "receipt_ok h e rc \<longleftrightarrow> (\<exists>r t. latest e h = Some (r, True, t) \<and> EvFinish e r (snd rc) (fst rc) \<in> set (since e h))"

definition tokens_ok :: "rq_event list \<Rightarrow> bool" where
  "tokens_ok h \<longleftrightarrow> inj_on reg_token (set (registrations h))"

definition rq_inv :: "rq_event list \<Rightarrow> RegisteredQuery list \<Rightarrow> effect list \<Rightarrow> RunningQueries \<Rightarrow> bool" where
  "rq_inv h gs E s \<longleftrightarrow>
     hm_wf (rq_inner s) \<and> hm_wf (rq_completed s) \<and> tokens_ok h \<and>
     (\<forall>e task. map_of (rq_inner s) e = Some task \<longrightarrow> task_ok h E e task) \<and>
     (\<forall>e rc. map_of (rq_completed s) e = Some rc \<longrightarrow> receipt_ok h e rc) \<and>
     rq_next_registration_id s = of_nat (length (registrations h)) \<and>
     map reg_id (registrations h) =
       rev (map (\<lambda>i. of_nat (Suc i)) [0..<length (registrations h)]) \<and>
     (\<forall>g\<in>set gs. \<exists>m t. (rg_execution_id g, rg_registration_id g, m, t) \<in> set (registrations h))"

lemmas rq_inv_defs = rq_inv_def task_ok_def receipt_ok_def

lemma latest_register: "latest e (EvRegister e' r m t # h) = (if e = e' then Some (r, m, t) else latest e h)"
  by (simp add: latest_def)

lemma latest_finish [simp]: "latest e (EvFinish e' r d n # h) = latest e h"
  by (simp add: latest_def)

lemma since_register: "since e (EvRegister e' r m t # h) = (if e = e' then [] else EvRegister e' r m t # since e h)"
  by (simp add: since_def)

lemma since_finish [simp]: "since e (EvFinish e' r d n # h) = EvFinish e' r d n # since e h"
  by (simp add: since_def)

lemma latest_mem: "latest e h = Some (r, m, t) \<Longrightarrow> (e, r, m, t) \<in> set (registrations h)"
  by (simp add: latest_def map_of_SomeD)

lemma tokens_ok_owner:
  assumes "tokens_ok h" and "latest e h = Some (r, m, t)" and "latest e' h = Some (r', m', t)"
  shows "e' = e"
  using inj_onD [OF assms(1) [unfolded tokens_ok_def], of "(e', r', m', t)" "(e, r, m, t)"]
    latest_mem [OF assms(2)] latest_mem [OF assms(3)] by simp

lemma wf_fresh: "hm_wf m \<Longrightarrow> hm_wf (fresh_receipts now m)"
  by (simp add: fresh_receipts_def hm_wf_retain)

lemma fresh_subset: "hm_wf m \<Longrightarrow> map_of (fresh_receipts now m) e = Some rc \<Longrightarrow>
    map_of m e = Some rc \<and> now - fst rc < DETACHED_REGISTRATION_GRACE_PERIOD"
  by (auto simp: fresh_receipts_def map_of_hm_retain split: option.splits if_splits)

lemmas wf_ops = hmap.invar_insert hmap.invar_remove wf_fresh

lemma interrupt_no_cancel [simp]: "CancelToken t \<notin> set (interrupt_effect i)"
  by (simp add: interrupt_effect_def split: option.split)

lemma rq_inv_start: "rq_inv [] [] [] empty_queries"
  by (simp add: rq_inv_def empty_queries_def tokens_ok_def)

lemma task_token_owner:
  assumes inv: "rq_inv h gs E s" and p: "map_of (rq_inner s) e = Some p" and task: "task_ok h E e' task"
    and same: "rt_token task = rt_token p"
  shows "e' = e"
proof -
  have "tokens_ok h" and "task_ok h E e p" using inv p by (simp_all add: rq_inv_def)
  then show ?thesis using task same unfolding task_ok_def by (metis tokens_ok_owner)
qed

lemma rq_inv_register:
  assumes inv: "rq_inv h gs E s" and t: "t \<notin> reg_token ` set (registrations h)" "CancelToken t \<notin> set E"
    and reg: "register_task_with_token now e md m t c s = (s', g, E')"
  shows "rq_inv (EvRegister e (rg_registration_id g) m t # h) (g # gs) (E @ E') s'"
proof -
  let ?r = "of_nat (Suc (length (registrations h))) :: 64 word"
  have g: "rg_execution_id g = e" "rg_registration_id g = ?r"
    and inner: "map_of (rq_inner s') = (map_of (rq_inner s))(e \<mapsto>
      \<lparr>rt_registration_id = ?r, rt_token = t, rt_completion = c, rt_remember_completion = m,
       rt_metadata = md, rt_pool_key = None, rt_interrupt = None\<rparr>)"
    and completed: "map_of (rq_completed s') = (map_of (fresh_receipts now (rq_completed s)))(e := None)"
    and next_id: "rq_next_registration_id s' = ?r"
    and wf: "hm_wf (rq_inner s')" "hm_wf (rq_completed s')"
    using inv reg by (auto simp: rq_inv_def register_task_with_token_def Let_def hmap_simps add.commute wf_ops)
  have E': "\<exists>p. map_of (rq_inner s) e = Some p \<and> t' = rt_token p" if "CancelToken t' \<in> set E'" for t'
    using reg that by (auto simp: register_task_with_token_def Let_def split: option.splits)
  have tasks: "task_ok (EvRegister e ?r m t # h) (E @ E') e' task" if h: "map_of (rq_inner s') e' = Some task" for e' task
  proof (cases "e' = e")
    case True
    then show ?thesis using h by (auto simp: inner task_ok_def latest_register)
  next
    case False
    then have old: "task_ok h E e' task" using h inv by (auto simp: inner rq_inv_def)
    have "CancelToken (rt_token task) \<notin> set E'"
      using E' [of "rt_token task"] False task_token_owner [OF inv _ old] by blast
    then show ?thesis using old False by (auto simp: task_ok_def latest_register)
  qed
  have receipts: "receipt_ok (EvRegister e ?r m t # h) e' rc" if h: "map_of (rq_completed s') e' = Some rc" for e' rc
  proof -
    have e': "e' \<noteq> e" "map_of (fresh_receipts now (rq_completed s)) e' = Some rc"
      using h by (auto simp: completed split: if_splits)
    have "hm_wf (rq_completed s)" using inv by (simp add: rq_inv_def)
    then have "map_of (rq_completed s) e' = Some rc" using fresh_subset e'(2) by blast
    then have "receipt_ok h e' rc" using inv unfolding rq_inv_def by blast
    then show ?thesis using e'(1) by (auto simp: receipt_ok_def latest_register since_register)
  qed
  have toks: "tokens_ok (EvRegister e ?r m t # h)"
  proof -
    have "inj_on reg_token (set (registrations h))" using inv by (simp add: rq_inv_def tokens_ok_def)
    moreover have "reg_token (e, ?r, m, t) \<notin> reg_token ` (set (registrations h) - {(e, ?r, m, t)})"
      using t(1) by auto
    ultimately show ?thesis unfolding tokens_ok_def registrations.simps list.set inj_on_insert by blast
  qed
  have ids: "map reg_id (registrations h) =
      rev (map (\<lambda>i. of_nat (Suc i)) [0..<length (registrations h)])"
    and guards: "\<forall>g\<in>set gs. \<exists>m t. (rg_execution_id g, rg_registration_id g, m, t) \<in> set (registrations h)"
    using inv unfolding rq_inv_def by blast+
  have guards': "\<forall>g'\<in>set (g # gs). \<exists>m' t'. (rg_execution_id g', rg_registration_id g', m', t') \<in>
      set (registrations (EvRegister e ?r m t # h))"
    unfolding registrations.simps list.set
    using guards g by (metis insertCI insertE)
  have ids': "map reg_id (registrations (EvRegister e ?r m t # h)) =
      rev (map (\<lambda>i. of_nat (Suc i)) [0..<length (registrations (EvRegister e ?r m t # h))])"
    by (simp add: ids)
  show ?thesis
    unfolding rq_inv_def g(2) using wf toks tasks receipts next_id ids' guards' by simp
qed

lemma rq_inv_interrupt:
  assumes inv: "rq_inv h gs E s" and c: "\<And>t. CancelToken t \<in> set E \<Longrightarrow> is_cancelled t"
    and reg: "register_interrupt is_cancelled e i s = (s', E')"
  shows "rq_inv h gs (E @ E') s'"
  using inv reg c
  by (auto simp: rq_inv_defs register_interrupt_def hmap_simps wf_ops split: option.splits if_splits)

definition after_cancel :: "RunningTask \<Rightarrow> RunningTask option" where
  "after_cancel task = (if rt_remember_completion task then Some (task\<lparr>rt_interrupt := None\<rparr>) else None)"

lemma cancel_effects: "cancel e s = (s', E', b) \<Longrightarrow> CancelToken t \<in> set E' \<Longrightarrow>
    \<exists>task. map_of (rq_inner s) e = Some task \<and> t = rt_token task"
  by (auto simp: cancel_def split: option.splits if_splits)

lemma cancel_inner: "cancel e s = (s', E', b) \<Longrightarrow> map_of (rq_inner s') e' =
    (if e' = e then Option.bind (map_of (rq_inner s) e) after_cancel else map_of (rq_inner s) e')"
  by (auto simp: cancel_def after_cancel_def hmap_simps split: option.splits if_splits)

lemma cancel_frame: "cancel e s = (s', E', b) \<Longrightarrow> rq_completed s' = rq_completed s \<and>
    rq_next_registration_id s' = rq_next_registration_id s \<and> (hm_wf (rq_inner s) \<longrightarrow> hm_wf (rq_inner s'))"
  by (auto simp: cancel_def wf_ops split: option.splits if_splits)

lemma rq_inv_cancel:
  assumes inv: "rq_inv h gs E s" and c: "cancel e s = (s', E', b)"
  shows "rq_inv h gs (E @ E') s'"
proof -
  have tasks: "task_ok h (E @ E') e' task" if h: "map_of (rq_inner s') e' = Some task" for e' task
  proof (cases "e' = e")
    case True
    then show ?thesis using h inv
      by (auto simp: cancel_inner [OF c] after_cancel_def rq_inv_defs bind_eq_Some_conv split: if_splits)
  next
    case False
    then have old: "map_of (rq_inner s) e' = Some task" "task_ok h E e' task"
      using h inv by (auto simp: cancel_inner [OF c] rq_inv_def)
    have "CancelToken (rt_token task) \<notin> set E'"
      using cancel_effects [OF c, of "rt_token task"] False task_token_owner [OF inv _ old(2)] by blast
    then show ?thesis using old by (simp add: task_ok_def)
  qed
  show ?thesis using inv tasks cancel_frame [OF c] by (simp add: rq_inv_def)
qed

lemma rq_inv_finish:
  assumes inv: "rq_inv h gs E s" and r: "rq_remove now e r d s = (s', E')"
  shows "rq_inv (EvFinish e r d now # h) (remove1 g gs) (E @ E') s'"
proof -
  have E': "CancelToken t \<notin> set E'" for t
    using r by (auto simp: rq_remove_def split: option.splits if_splits)
  have wf: "hm_wf (rq_inner s')" "hm_wf (rq_completed s')"
    and next_id: "rq_next_registration_id s' = rq_next_registration_id s"
    using inv r by (auto simp: rq_inv_def rq_remove_def wf_ops split: option.splits if_splits)
  have tasks: "task_ok (EvFinish e r d now # h) (E @ E') e' task" if h: "map_of (rq_inner s') e' = Some task" for e' task
    using h r inv E' by (auto simp: rq_inv_def task_ok_def rq_remove_def hmap_simps split: option.splits if_splits)
  have receipts: "receipt_ok (EvFinish e r d now # h) e' rc" if h: "map_of (rq_completed s') e' = Some rc" for e' rc
  proof (cases "map_of (rq_completed s) e' = Some rc")
    case True
    then have "receipt_ok h e' rc" using inv unfolding rq_inv_def by blast
    then show ?thesis by (auto simp: receipt_ok_def)
  next
    case False
    then obtain task where "e' = e" "rc = (now, d)" "map_of (rq_inner s) e = Some task"
      "rt_registration_id task = r" "rt_remember_completion task"
      using h r by (auto simp: rq_remove_def hmap_simps split: option.splits if_splits)
    then show ?thesis using inv by (auto simp: rq_inv_def receipt_ok_def task_ok_def)
  qed
  have guards: "\<forall>g'\<in>set (remove1 g gs). \<exists>m t.
      (rg_execution_id g', rg_registration_id g', m, t) \<in> set (registrations (EvFinish e r d now # h))"
    using inv set_remove1_subset [of g gs] by (auto simp: rq_inv_def)
  show ?thesis
    using inv wf next_id tasks receipts guards by (simp add: rq_inv_def tokens_ok_def)
qed

lemma rq_inv_lookup:
  assumes "rq_inv h gs E s" and "completed_execution_result now e s = (s', res)"
  shows "rq_inv h gs E s'"
  using assms fresh_subset [of "rq_completed s" now]
  by (auto simp: rq_inv_def completed_execution_result_def Let_def wf_ops split: if_splits)

lemma rq_inv_pool_key: "rq_inv h gs E s \<Longrightarrow> rq_inv h gs E (set_pool_key e k s)"
  by (auto simp: rq_inv_defs set_pool_key_def hmap_simps wf_ops split: option.splits if_splits)

lemma rq_run_inv: "rq_run h gs E s \<Longrightarrow> rq_inv h gs E s"
  by (induction rule: rq_run.induct)
    (blast intro: rq_inv_start rq_inv_register rq_inv_interrupt rq_inv_cancel rq_inv_finish rq_inv_lookup
      rq_inv_pool_key)+

section \<open>Properties\<close>

lemma rids_distinct:
  assumes "map reg_id xs = rev (map (\<lambda>i. of_nat (Suc i) :: 64 word) [0..<length xs])"
    and "length xs < 2 ^ 64"
  shows "distinct (map reg_id xs)"
proof -
  have "inj_on (\<lambda>i. of_nat (Suc i) :: 64 word) {0..<length xs}"
  proof (rule inj_onI)
    fix i j assume "i \<in> {0..<length xs}" "j \<in> {0..<length xs}" "(of_nat (Suc i) :: 64 word) = of_nat (Suc j)"
    then have same: "unat (of_nat (Suc i) :: 64 word) = unat (of_nat (Suc j) :: 64 word)" by simp
    have k: "unat (of_nat k :: 64 word) = k" if "k < 2 ^ 64" for k
      using that by (simp add: unsigned_of_nat take_bit_nat_eq_self)
    have "Suc i < 2 ^ 64" "Suc j < 2 ^ 64"
      using assms(2) \<open>i \<in> _\<close> \<open>j \<in> _\<close> by simp_all
    then show "i = j" using same unfolding k [OF \<open>Suc i < _\<close>] k [OF \<open>Suc j < _\<close>] by blast
  qed
  then show ?thesis unfolding assms(1) by (simp add: distinct_map)
qed

lemma latest_split:
  assumes "latest e h = Some (r, m, t)"
  obtains h1 h2 where "h = h1 @ EvRegister e r m t # h2" and "since e h = h1" and "e \<notin> fst ` set (registrations h1)"
proof -
  have "\<exists>h1 h2. h = h1 @ EvRegister e r m t # h2 \<and> since e h = h1 \<and> e \<notin> fst ` set (registrations h1)"
    using assms
  proof (induction h rule: registrations.induct)
    case 1
    then show ?case by (simp add: latest_def)
  next
    case (2 e' r' m' t' h)
    show ?case
    proof (cases "e' = e")
      case True
      then show ?thesis using 2(2)
        by (intro exI [of _ "[]"] exI [of _ h]) (auto simp: latest_register since_register)
    next
      case False
      then obtain h1 h2 where "h = h1 @ EvRegister e r m t # h2" "since e h = h1" "e \<notin> fst ` set (registrations h1)"
        using 2 by (auto simp: latest_register)
      then show ?thesis using False
        by (intro exI [of _ "EvRegister e' r' m' t' # h1"] exI [of _ h2]) (auto simp: since_register)
    qed
  next
    case (3 e' r' d n h)
    then obtain h1 h2 where "h = h1 @ EvRegister e r m t # h2" "since e h = h1" "e \<notin> fst ` set (registrations h1)"
      by auto
    then show ?case by (intro exI [of _ "EvFinish e' r' d n # h1"] exI [of _ h2]) auto
  qed
  then show ?thesis using that by blast
qed

lemma registrations_append [simp]: "registrations (a @ b) = registrations a @ registrations b"
  by (induction a rule: registrations.induct) simp_all

lemma latest_append:
  assumes "latest e (h1 @ EvRegister e r m t # h2) = Some (r', m', t')"
  shows "(e, r', m', t') \<in> set (registrations h1 @ [(e, r, m, t)])"
proof (cases "map_of (registrations h1) e")
  case None
  then show ?thesis using assms by (simp add: latest_def map_add_def)
next
  case (Some x)
  then show ?thesis using assms map_of_SomeD [OF Some] by (simp add: latest_def map_add_def)
qed

lemma registrations_disjoint:
  assumes "distinct (map reg_id (registrations (h1 @ EvRegister e r m t # h2)))"
  shows "reg_id ` set (registrations h1 @ [(e, r, m, t)]) \<inter> reg_id ` set (registrations h2) = {}"
proof -
  have "distinct (map reg_id (registrations h1 @ [(e, r, m, t)]) @ map reg_id (registrations h2))"
    using assms by simp
  then show ?thesis unfolding distinct_append set_map by blast
qed

text \<open>
  C21: a statement is reported as ended in the database only on a receipt of its own. If, in any
  history of registrations, interrupts, cancellations, lookups and finished guards, a lookup reports
  that the database statement of an execution id has ended, then the latest registration of that id
  asked for its completion to be remembered, its own guard has finished since with a result that
  proves the end, and did so less than the grace period ago.
\<close>

theorem terminal_proof_of_latest:
  assumes "rq_run h gs E s"
    and "cw_database_terminal (snd (completed_execution_result now e s)) = Some True"
  shows "\<exists>h1 h2 r t finished. h = h1 @ EvRegister e r True t # h2 \<and> e \<notin> fst ` set (registrations h1) \<and>
           EvFinish e r True finished \<in> set h1 \<and> now - finished < DETACHED_REGISTRATION_GRACE_PERIOD"
proof -
  note inv = rq_run_inv [OF assms(1)]
  obtain finished where f: "map_of (fresh_receipts now (rq_completed s)) e = Some (finished, True)"
    using assms(2)
    by (auto simp: completed_execution_result_def Let_def is_some_and_def split: if_splits option.splits)
  have "hm_wf (rq_completed s)" using inv by (simp add: rq_inv_def)
  note fresh = fresh_subset [OF this f]
  then have "receipt_ok h e (finished, True)" using inv unfolding rq_inv_def by blast
  then obtain r t where l: "latest e h = Some (r, True, t)" and "EvFinish e r True finished \<in> set (since e h)"
    by (auto simp: receipt_ok_def)
  then show ?thesis using latest_split [OF l] fresh by (metis fst_conv)
qed

text \<open>
  The guard of a superseded registration is harmless. After an execution id has been registered
  again, ending the old guard, or the expiry of its detached registration, changes nothing, whatever
  result it ends with: the new registration stays reachable and no receipt is written for it. This
  holds as long as fewer than \<open>2\<^sup>6\<^sup>4\<close> registrations have been made, when the counter wraps around.
\<close>

theorem superseded_guard_harmless:
  assumes "rq_run h gs E s" and "length (registrations h) < 2 ^ 64" and "g \<in> set gs"
    and "h = newer @ EvRegister (rg_execution_id g) r m t # older"
    and "(rg_execution_id g, rg_registration_id g, m', t') \<in> set (registrations older)"
  shows "rq_remove now (rg_execution_id g) (rg_registration_id g) d s = (s, [])"
proof -
  note inv = rq_run_inv [OF assms(1)]
  have "map reg_id (registrations h) = rev (map (\<lambda>i. of_nat (Suc i)) [0..<length (registrations h)])"
    using inv unfolding rq_inv_def by blast
  then have "distinct (map reg_id (registrations h))" by (rule rids_distinct [OF _ assms(2)])
  then have disj: "reg_id ` set (registrations newer @ [(rg_execution_id g, r, m, t)]) \<inter> reg_id ` set (registrations older) = {}"
    unfolding assms(4) by (rule registrations_disjoint)
  have "rt_registration_id task \<noteq> rg_registration_id g" if h: "map_of (rq_inner s) (rg_execution_id g) = Some task" for task
  proof -
    have "latest (rg_execution_id g) h = Some (rt_registration_id task, rt_remember_completion task, rt_token task)"
      using inv h by (simp add: rq_inv_def task_ok_def)
    then have "rt_registration_id task \<in> reg_id ` set (registrations newer @ [(rg_execution_id g, r, m, t)])"
      unfolding assms(4) by (rule latest_append [THEN imageI [of _ _ reg_id], unfolded reg_id_tuple])
    moreover have "rg_registration_id g \<in> reg_id ` set (registrations older)"
      using imageI [OF assms(5), of reg_id] by simp
    ultimately show ?thesis using disjoint_iff [THEN iffD1, OF disj] by metis
  qed
  then show ?thesis by (auto simp: rq_remove_def split: option.split)
qed

text \<open>
  No interrupt is left behind on a cancelled query. In every state a history reaches, a task
  whose token has been cancelled through the registry holds no interrupt; handing over an interrupt
  for a cancelled or unknown query runs it at once instead of storing it.
\<close>

theorem cancelled_holds_no_interrupt:
  assumes "rq_run h gs E s"
  shows "(\<forall>e task. map_of (rq_inner s) e = Some task \<longrightarrow> CancelToken (rt_token task) \<in> set E \<longrightarrow> rt_interrupt task = None) \<and>
    (\<forall>e i is_cancelled. (\<forall>task. map_of (rq_inner s) e = Some task \<longrightarrow> is_cancelled (rt_token task)) \<longrightarrow>
       register_interrupt is_cancelled e i s = (s, [RunInterrupt i]))"
  using rq_run_inv [OF assms] by (auto simp: rq_inv_def task_ok_def register_interrupt_def split: option.split)

subsection \<open>Cancelling a group of tasks\<close>

lemma interrupt_effect_run: "i = Some x \<Longrightarrow> RunInterrupt x \<in> set (interrupt_effect i)"
  by (simp add: interrupt_effect_def)

lemma cancel_each_inner:
  assumes "distinct ids" and "cancel_each ids s = (s', E, n)"
  shows "map_of (rq_inner s') e =
    (if e \<in> set ids then Option.bind (map_of (rq_inner s) e) after_cancel else map_of (rq_inner s) e)"
  using assms
proof (induction ids arbitrary: s s' E n)
  case (Cons i ids)
  obtain s1 e1 b where c: "cancel i s = (s1, e1, b)" by (cases "cancel i s") auto
  obtain s2 e2 k where r: "cancel_each ids s1 = (s2, e2, k)" by (cases "cancel_each ids s1") auto
  have "s' = s2" using Cons.prems(2) by (simp add: c r)
  then show ?case
    using Cons.IH [OF _ r] Cons.prems(1) cancel_inner [OF c]
    by auto
qed simp

lemma cancel_each_effects:
  assumes "distinct ids" and "\<forall>i\<in>set ids. map_of (rq_inner s) i \<noteq> None" and "cancel_each ids s = (s', E, n)"
  shows "n = length ids \<and> (\<forall>e task. e \<in> set ids \<longrightarrow> map_of (rq_inner s) e = Some task \<longrightarrow>
    CancelToken (rt_token task) \<in> set E \<and> set (interrupt_effect (rt_interrupt task)) \<subseteq> set E)"
  using assms
proof (induction ids arbitrary: s s' E n)
  case (Cons i ids)
  obtain s1 e1 b where c: "cancel i s = (s1, e1, b)" by (cases "cancel i s") auto
  obtain s2 e2 k where r: "cancel_each ids s1 = (s2, e2, k)" by (cases "cancel_each ids s1") auto
  obtain task where t: "map_of (rq_inner s) i = Some task" using Cons.prems(2) by auto
  have e1: b "CancelToken (rt_token task) \<in> set e1" "set (interrupt_effect (rt_interrupt task)) \<subseteq> set e1"
    using c t by (auto simp: cancel_def split: if_splits)
  have same: "map_of (rq_inner s1) j = map_of (rq_inner s) j" if "j \<in> set ids" for j
    using that Cons.prems(1) by (auto simp: cancel_inner [OF c])
  have "k = length ids \<and> (\<forall>e task. e \<in> set ids \<longrightarrow> map_of (rq_inner s1) e = Some task \<longrightarrow>
      CancelToken (rt_token task) \<in> set e2 \<and> set (interrupt_effect (rt_interrupt task)) \<subseteq> set e2)"
    using Cons.IH [OF _ _ r] Cons.prems(1,2) same by simp
  moreover have "n = Suc k" "E = e1 @ e2" using Cons.prems(3) e1(1) by (simp_all add: c r)
  ultimately show ?case using e1(2,3) t same by (simp add: le_supI1 le_supI2)
qed simp

lemma cancel_matching_complete:
  assumes wf: "hm_wf (rq_inner s)" and c: "cancel_matching p s = (s', E, n)"
  shows "n = length (filter (\<lambda>(_, task). p task) (rq_inner s))"
    and "map_of (rq_inner s) e = None \<Longrightarrow> map_of (rq_inner s') e = None"
    and "map_of (rq_inner s) e = Some task \<Longrightarrow>
      map_of (rq_inner s') e = (if p task then after_cancel task else Some task)"
    and "map_of (rq_inner s) e = Some task \<Longrightarrow> p task \<Longrightarrow>
      CancelToken (rt_token task) \<in> set E \<and> set (interrupt_effect (rt_interrupt task)) \<subseteq> set E"
proof -
  let ?ids = "map fst (filter (\<lambda>(_, task). p task) (rq_inner s))"
  have d: "distinct ?ids" using wf by (simp add: hm_wf_def distinct_map_filter)
  have mem: "e \<in> set ?ids \<longleftrightarrow> p task" if "map_of (rq_inner s) e = Some task" for e task
  proof -
    have "x = task" if "(e, x) \<in> set (rq_inner s)" for x
      using that \<open>map_of (rq_inner s) e = Some task\<close> map_of_is_SomeI [OF wf [unfolded hm_wf_def]] by fastforce
    moreover have "e \<in> set ?ids \<longleftrightarrow> (\<exists>x. (e, x) \<in> set (rq_inner s) \<and> p x)" by force
    ultimately show ?thesis using map_of_SomeD [OF that] by blast
  qed
  have present: "\<forall>i\<in>set ?ids. map_of (rq_inner s) i \<noteq> None"
    using map_of_eq_Some_iff [OF wf [unfolded hm_wf_def]] by auto
  note e = cancel_each_effects [OF d present c [unfolded cancel_matching_def]]
  note i = cancel_each_inner [OF d c [unfolded cancel_matching_def]]
  show "n = length (filter (\<lambda>(_, task). p task) (rq_inner s))" using e by simp
  show "map_of (rq_inner s') e = None" if "map_of (rq_inner s) e = None" using i [of e] that by simp
  show "map_of (rq_inner s') e = (if p task then after_cancel task else Some task)"
    if "map_of (rq_inner s) e = Some task" using i [of e] that mem [OF that] by simp
  show "CancelToken (rt_token task) \<in> set E \<and> set (interrupt_effect (rt_interrupt task)) \<subseteq> set E"
    if "map_of (rq_inner s) e = Some task" "p task" using e that mem [OF that(1)] by blast
qed

text \<open>
  Closing a connection stops all of its queries and no other. Cancelling by connection id
  returns the number of tasks registered for the connection, cancels the token of each of them and
  runs each stored interrupt; afterwards a task of the connection is gone, or waits for its
  confirmation without an interrupt, and the tasks of other connections are as they were.
\<close>

theorem cancel_connection_complete:
  assumes "hm_wf (rq_inner s)" and "cancel_connection c s = (s', E, n)"
  shows "n = length (filter (\<lambda>(_, task). md_connection_id (rt_metadata task) = Some c) (rq_inner s)) \<and>
    (\<forall>e task. map_of (rq_inner s) e = Some task \<longrightarrow>
       (if md_connection_id (rt_metadata task) = Some c
        then CancelToken (rt_token task) \<in> set E \<and>
             (\<forall>i. rt_interrupt task = Some i \<longrightarrow> RunInterrupt i \<in> set E) \<and>
             map_of (rq_inner s') e =
               (if rt_remember_completion task then Some (task\<lparr>rt_interrupt := None\<rparr>) else None)
        else map_of (rq_inner s') e = Some task))"
  using cancel_matching_complete [OF assms(1) assms(2) [unfolded cancel_connection_def]]
  by (simp add: after_cancel_def) (metis interrupt_effect_run subsetD)

subsection \<open>Sample histories\<close>

definition confirmed_history :: "rq_event list" where
  "confirmed_history = [EvFinish ''q'' 1 True 5, EvRegister ''q'' 1 True 7]"

definition confirmed_state :: RunningQueries where
  "confirmed_state = \<lparr>rq_inner = [], rq_completed = [(''q'', (5, True))], rq_next_registration_id = 1\<rparr>"

lemma confirmed_run: "rq_run confirmed_history [] [SendComplete 3] confirmed_state"
proof -
  obtain s g E where r: "register_task_with_token 0 ''q'' default_metadata True 7 3 empty_queries = (s, g, E)"
    by (cases "register_task_with_token 0 ''q'' default_metadata True 7 3 empty_queries") auto
  then have g: "rg_registration_id g = 1" "rg_execution_id g = ''q''" "E = []"
    and s: "rq_remove 5 ''q'' 1 True s = (confirmed_state, [SendComplete 3])"
    by (auto simp: register_task_with_token_def empty_queries_def Let_def rq_remove_def confirmed_state_def
      fresh_receipts_def hm_retain_def hm_insert_def hm_remove_def)
  have "rq_run [EvRegister ''q'' 1 True 7] [g] [] s"
    using rq_register [OF rq_start _ _ r] g by simp
  from rq_finish [OF this, of g 5 True] s g show ?thesis by (simp add: confirmed_history_def)
qed

theorem terminal_proof_of_latest_witness:
  "\<exists>h1 h2 r t finished. confirmed_history = h1 @ EvRegister ''q'' r True t # h2 \<and>
     ''q'' \<notin> fst ` set (registrations h1) \<and> EvFinish ''q'' r True finished \<in> set h1 \<and>
     6 - finished < DETACHED_REGISTRATION_GRACE_PERIOD"
  by (rule terminal_proof_of_latest [OF confirmed_run])
    (simp add: completed_execution_result_def confirmed_state_def fresh_receipts_def hm_retain_def
      DETACHED_REGISTRATION_GRACE_PERIOD_def is_some_and_def)

definition old_guard :: RegisteredQuery where
  "old_guard = \<lparr>rg_execution_id = ''q'', rg_registration_id = 1, rg_token = 7, rg_detached = False,
     rg_database_terminal = False\<rparr>"

definition twice_registered :: RunningQueries where
  "twice_registered = fst (register_task_with_token 0 ''q'' default_metadata True 8 4
     (fst (register_task_with_token 0 ''q'' default_metadata True 7 3 empty_queries)))"

lemma twice_registered_run:
  "\<exists>g E. rq_run [EvRegister ''q'' 2 True 8, EvRegister ''q'' 1 True 7] [g, old_guard] E twice_registered"
proof -
  obtain s g E where r: "register_task_with_token 0 ''q'' default_metadata True 7 3 empty_queries = (s, g, E)"
    by (cases "register_task_with_token 0 ''q'' default_metadata True 7 3 empty_queries") auto
  then have g: "g = old_guard" "rg_registration_id g = 1" "E = []" and s: "rq_next_registration_id s = 1"
    by (auto simp: register_task_with_token_def empty_queries_def Let_def old_guard_def)
  have run: "rq_run [EvRegister ''q'' 1 True 7] [old_guard] [] s"
    using rq_register [OF rq_start _ _ r] g by simp
  obtain s2 g2 E2 where r2: "register_task_with_token 0 ''q'' default_metadata True 8 4 s = (s2, g2, E2)"
    by (cases "register_task_with_token 0 ''q'' default_metadata True 8 4 s") auto
  then have "rg_registration_id g2 = 2"
    using s by (auto simp: register_task_with_token_def Let_def)
  then show ?thesis using rq_register [OF run _ _ r2] r r2 by (auto simp: twice_registered_def)
qed

theorem superseded_guard_harmless_witness:
  "rq_remove 9 (rg_execution_id old_guard) (rg_registration_id old_guard) True twice_registered = (twice_registered, [])"
proof -
  obtain g E where run: "rq_run [EvRegister ''q'' 2 True 8, EvRegister ''q'' 1 True 7] [g, old_guard] E twice_registered"
    using twice_registered_run by blast
  show ?thesis
    by (rule superseded_guard_harmless [OF run, where newer = "[]" and r = 2 and m = True and t = 8
        and older = "[EvRegister ''q'' 1 True 7]" and m' = True and t' = 7])
      (simp_all add: old_guard_def)
qed

definition one_task :: RunningTask where
  "one_task = \<lparr>rt_registration_id = 1, rt_token = 7, rt_completion = 3, rt_remember_completion = True,
     rt_metadata = metadata_query ''c1'' ''db'' None, rt_pool_key = None, rt_interrupt = Some 9\<rparr>"

theorem cancelled_holds_no_interrupt_witness:
  "register_interrupt (\<lambda>_. False) ''q'' 9 confirmed_state = (confirmed_state, [RunInterrupt 9])"
  using cancelled_holds_no_interrupt [OF confirmed_run] by (simp add: confirmed_state_def)

theorem cancel_connection_complete_witness:
  "\<exists>s' E. cancel_connection ''c1'' \<lparr>rq_inner = [(''q'', one_task)], rq_completed = [], rq_next_registration_id = 1\<rparr>
       = (s', E, 1) \<and> CancelToken 7 \<in> set E \<and> RunInterrupt 9 \<in> set E"
proof -
  let ?s = "\<lparr>rq_inner = [(''q'', one_task)], rq_completed = [], rq_next_registration_id = 1\<rparr>"
  obtain s' E n where c: "cancel_connection ''c1'' ?s = (s', E, n)" by (cases "cancel_connection ''c1'' ?s") auto
  have "hm_wf (rq_inner ?s)" by (simp add: hm_wf_def)
  note all = cancel_connection_complete [OF this c]
  have "n = 1" using all by (simp add: one_task_def metadata_query_def)
  moreover have "CancelToken 7 \<in> set E \<and> RunInterrupt 9 \<in> set E"
    using conjunct2 [OF all, rule_format, of "''q''" one_task] by (simp add: one_task_def metadata_query_def)
  ultimately show ?thesis using c by blast
qed

end
