(* ===== verification/Type_Receipts.thy ===== *)
theory Type_Receipts
  imports Running_Queries
begin

text \<open>
  Durable receipts of TYPE statements: \<^verbatim>\<open>crates/dbx-core/src/persistence/storage/type_execution_receipts.rs\<close>
  and the two functions of \<^verbatim>\<open>query_cancel.rs\<close> that join them to the registry of running queries,
  \<^verbatim>\<open>finish_conditional_update\<close> and \<^verbatim>\<open>observe_type_execution\<close>.

  The table \<^verbatim>\<open>app_state\<close> maps keys to JSON texts, with the key as its primary key. JSON is written
  and read by \<^verbatim>\<open>serde_json\<close>: the writer and the reader are arguments, and the laws assume of them
  only that reading a written receipt gives it back. Whether SQLite fails is an argument as well.
\<close>

section \<open>Receipts\<close>

record TypeRecoveryContext =
  plan_id :: string
  step_id :: string

record TypeExecutionBinding =
  tb_execution_id :: string
  tb_context :: TypeRecoveryContext
  tb_connection_id :: string
  tb_database :: string
  tb_schema :: "string option"
  tb_sql :: string

record Receipt =
  rc_binding :: TypeExecutionBinding
  rc_database_terminal :: bool

type_synonym app_state = "(string, string) hmap"
type_synonym writer = "Receipt \<Rightarrow> string + string"
type_synonym reader = "string \<Rightarrow> string + Receipt"

definition receipt_key :: "string \<Rightarrow> string" where
  "receipt_key execution_id = ''type_execution_receipt:'' @ execution_id"

definition claim_type_execution ::
  "writer \<Rightarrow> string option \<Rightarrow> TypeExecutionBinding \<Rightarrow> app_state \<Rightarrow> app_state \<times> (string + unit)" where
  "claim_type_execution to_string db_error b t =
     (if list_ex (\<lambda>v. trim v = []) [tb_execution_id b, plan_id (tb_context b), step_id (tb_context b), tb_connection_id b]
      then (t, Inl ''TYPE recovery binding is incomplete; execution outcome is unknown'')
      else (case to_string \<lparr>rc_binding = b, rc_database_terminal = False\<rparr> of
          Inl e \<Rightarrow> (t, Inl e)
        | Inr v \<Rightarrow> (case db_error of
            Some e \<Rightarrow> (t, Inl e)
          | None \<Rightarrow>
              if map_of t (receipt_key (tb_execution_id b)) \<noteq> None
              then (t, Inl ''TYPE execution ID already has a recovery record; inspect the original outcome, do not replay'')
              else (hm_insert (receipt_key (tb_execution_id b)) v t, Inr ()))))"

definition type_execution_terminal ::
  "reader \<Rightarrow> string option \<Rightarrow> TypeExecutionBinding \<Rightarrow> app_state \<Rightarrow> string + bool option" where
  "type_execution_terminal from_str db_error b t = (case db_error of
     Some e \<Rightarrow> Inl e
   | None \<Rightarrow> (case map_of t (receipt_key (tb_execution_id b)) of
       None \<Rightarrow> Inr None
     | Some json \<Rightarrow> (case from_str json of
         Inl e \<Rightarrow> Inl e
       | Inr receipt \<Rightarrow>
           if rc_binding receipt \<noteq> b
           then Inl ''TYPE execution recovery binding does not match the original request''
           else Inr (Some (rc_database_terminal receipt)))))"

definition finish_type_execution ::
  "writer \<Rightarrow> string option \<Rightarrow> TypeExecutionBinding \<Rightarrow> app_state \<Rightarrow> app_state \<times> (string + unit)" where
  "finish_type_execution to_string db_error b t =
     (case to_string \<lparr>rc_binding = b, rc_database_terminal = False\<rparr> of
        Inl e \<Rightarrow> (t, Inl e)
      | Inr pending \<Rightarrow> (case to_string \<lparr>rc_binding = b, rc_database_terminal = True\<rparr> of
          Inl e \<Rightarrow> (t, Inl e)
        | Inr terminal \<Rightarrow> (case db_error of
            Some e \<Rightarrow> (t, Inl e)
          | None \<Rightarrow>
              if map_of t (receipt_key (tb_execution_id b)) = Some pending
              then (hm_insert (receipt_key (tb_execution_id b)) terminal t, Inr ())
              else (t, Inl ''TYPE terminal receipt could not be saved for the original request; do not replay''))))"

section \<open>Texts of errors\<close>

definition stage_name :: "AgentErrorStage \<Rightarrow> string" where
  "stage_name stage = (case stage of
     StRequest \<Rightarrow> ''request'' | StCheckout \<Rightarrow> ''checkout'' | StConnect \<Rightarrow> ''connect'' | StValidate \<Rightarrow> ''validate''
   | StExecute \<Rightarrow> ''execute'' | StFetch \<Rightarrow> ''fetch'' | StCancel \<Rightarrow> ''cancel'' | StClose \<Rightarrow> ''close'')"

definition ace_display :: "AgentCallError \<Rightarrow> string" where
  "ace_display e = (case e of
     AceStructured _ message _ \<Rightarrow> message
   | AceLegacy _ message _ \<Rightarrow> message
   | AceContractViolation _ message _ \<Rightarrow> ''Agent error contract violation: '' @ message
   | AceTransport message \<Rightarrow> message
   | AceTimeout stage _ \<Rightarrow> ''Agent RPC call timed out at '' @ stage_name stage
   | AceCanceled _ _ \<Rightarrow> ''Query canceled'')"

definition QUERY_CANCELED :: string where
  "QUERY_CANCELED = ''Query canceled''"

definition qe_display :: "QueryExecutionError \<Rightarrow> string" where
  "qe_display e = (case e of
     QeAgent error \<Rightarrow> ace_display error
   | QeDuckDb _ message \<Rightarrow> message
   | QeCanceled _ _ \<Rightarrow> QUERY_CANCELED
   | QeTimeout error \<Rightarrow> error
   | QeSql error \<Rightarrow> error
   | QeSqlWithPosition message _ \<Rightarrow> message
   | QeLegacy error \<Rightarrow> error)"

section \<open>Joining the registry and the receipts\<close>

text \<open>
  The two conversions into the error of the backend interface, from a text and from a query error,
  are arguments.
\<close>

definition finish_conditional_update ::
  "(string \<Rightarrow> 'e) \<Rightarrow> (QueryExecutionError \<Rightarrow> 'e) \<Rightarrow> writer \<Rightarrow> string option \<Rightarrow> nat \<Rightarrow> RegisteredQuery \<Rightarrow>
     TypeExecutionBinding option \<Rightarrow> QueryExecutionError + 't \<Rightarrow> RunningQueries \<times> app_state \<Rightarrow>
     (RunningQueries \<times> app_state) \<times> effect list \<times> ('e + 't)" where
  "finish_conditional_update from_legacy_backend into_backend_error to_string db_error now g binding result st =
     (let (s', effects, terminal) = finish_with_database_result now g result (fst st);
          answer = (case result of Inl e \<Rightarrow> Inl (into_backend_error e) | Inr v \<Rightarrow> Inr v)
      in case binding of
           None \<Rightarrow> ((s', snd st), effects, answer)
         | Some b \<Rightarrow>
             if terminal
             then (case finish_type_execution to_string db_error b (snd st) of
                 (t', Inl error) \<Rightarrow> ((s', t'), effects, Inl (from_legacy_backend
                    (''TYPE terminal receipt was not saved: '' @ error @ ''. Keep the recovery plan; do not replay.'')))
               | (t', Inr _) \<Rightarrow> ((s', t'), effects, answer))
             else ((s', snd st), effects,
                   (case result of Inl e \<Rightarrow> Inl (from_legacy_backend (qe_display e)) | Inr v \<Rightarrow> Inr v)))"

definition observe_type_execution ::
  "reader \<Rightarrow> string option \<Rightarrow> string option \<Rightarrow> (RunningQueries \<times> app_state \<Rightarrow> RunningQueries \<times> app_state) \<Rightarrow> nat \<Rightarrow>
     TypeExecutionBinding \<Rightarrow> RunningQueries \<times> app_state \<Rightarrow>
     (RunningQueries \<times> app_state) \<times> (string + CancellationWaitResult)" where
  "observe_type_execution from_str db_error db_error' during now b st =
     (let answer = (\<lambda>terminal. \<lparr>cw_requested = False, cw_terminal = (terminal = Some True),
                                 cw_database_terminal = Some (terminal = Some True)\<rparr>)
      in case type_execution_terminal from_str db_error b (snd st) of
           Inl e \<Rightarrow> (st, Inl e)
         | Inr terminal \<Rightarrow>
             if terminal = Some False
             then (let waited = (if map_of (rq_inner (fst st)) (tb_execution_id b) \<noteq> None then during st else st);
                       st' = (fst (completed_execution_result now (tb_execution_id b) (fst waited)), snd waited)
                   in case type_execution_terminal from_str db_error' b (snd st') of
                        Inl e \<Rightarrow> (st', Inl e)
                      | Inr terminal \<Rightarrow> (st', Inr (answer terminal)))
             else (st, Inr (answer terminal)))"

section \<open>Histories of receipts\<close>

text \<open>
  The changes that the program makes to the table: claims and saved endings, newest first. Other
  parts of the program write other keys. In a history, what a statement returns is represented by a
  text, and so is the error of the backend interface.
\<close>

datatype receipt_event = Claimed TypeExecutionBinding | Ended TypeExecutionBinding

inductive receipts_run :: "writer \<Rightarrow> receipt_event list \<Rightarrow> app_state \<Rightarrow> bool" for to_string where
  receipts_start: "receipts_run to_string [] []"
| receipts_claim: "receipts_run to_string h t \<Longrightarrow> claim_type_execution to_string db_error b t = (t', Inr ()) \<Longrightarrow>
    receipts_run to_string (Claimed b # h) t'"
| receipts_finish: "receipts_run to_string h t \<Longrightarrow>
    finish_conditional_update legacy into to_string db_error now g (Some b) result (s, t)
      = ((s', t'), E, answer :: string + string) \<Longrightarrow>
    receipts_run to_string
      (if database_terminal_of result \<and> snd (finish_type_execution to_string db_error b t) = Inr ()
       then Ended b # h else h) t'"
| receipts_other: "receipts_run to_string h t \<Longrightarrow> \<forall>e. k \<noteq> receipt_key e \<Longrightarrow> receipts_run to_string h (hm_insert k v t)"

definition claims :: "string \<Rightarrow> receipt_event list \<Rightarrow> receipt_event list" where
  "claims e h = filter (\<lambda>ev. case ev of Claimed b \<Rightarrow> tb_execution_id b = e | Ended _ \<Rightarrow> False) h"

definition ended_after_claim :: "TypeExecutionBinding \<Rightarrow> receipt_event list \<Rightarrow> bool" where
  "ended_after_claim b h \<longleftrightarrow> (\<exists>later earlier. h = later @ Ended b # earlier \<and> Claimed b \<in> set earlier)"

definition row_ok :: "writer \<Rightarrow> receipt_event list \<Rightarrow> string \<Rightarrow> string option \<Rightarrow> bool" where
  "row_ok to_string h e row = (case row of
     None \<Rightarrow> claims e h = []
   | Some v \<Rightarrow> \<exists>b d. to_string \<lparr>rc_binding = b, rc_database_terminal = d\<rparr> = Inr v \<and>
       tb_execution_id b = e \<and> claims e h = [Claimed b] \<and> (d \<longrightarrow> ended_after_claim b h))"

lemma receipt_key_inject [simp]: "receipt_key e = receipt_key e' \<longleftrightarrow> e = e'"
  by (simp add: receipt_key_def)

lemma claims_simps [simp]:
  "claims e [] = []"
  "claims e (Claimed b # h) = (if tb_execution_id b = e then Claimed b # claims e h else claims e h)"
  "claims e (Ended b # h) = claims e h"
  by (simp_all add: claims_def)

lemma ended_after_claim_mono: "ended_after_claim b h \<Longrightarrow> ended_after_claim b (ev # h)"
  unfolding ended_after_claim_def by (metis append_Cons)

lemma claims_mem: "claims e h = [Claimed b] \<Longrightarrow> Claimed b \<in> set h"
  unfolding claims_def by (metis filter_is_subset list.set_intros(1) subsetD)

lemma ended_after_claimI: "Claimed b \<in> set h \<Longrightarrow> ended_after_claim b (Ended b # h)"
  unfolding ended_after_claim_def by (metis append_Nil)

definition json_round_trip :: "writer \<Rightarrow> reader \<Rightarrow> bool" where
  "json_round_trip to_string from_str \<longleftrightarrow> (\<forall>r v. to_string r = Inr v \<longrightarrow> from_str v = Inr r)"

lemma round_trip_inj:
  assumes "json_round_trip to_string from_str" and "to_string r = Inr v" and "to_string r' = Inr v"
  shows "r = r'"
  using assms unfolding json_round_trip_def by (metis sum.inject(2))

lemma row_ok_claim:
  assumes "row_ok to_string h e (map_of t (receipt_key e))"
    and "claim_type_execution to_string db_error b t = (t', Inr ())"
  shows "row_ok to_string (Claimed b # h) e (map_of t' (receipt_key e))"
  using assms
  by (auto simp: claim_type_execution_def row_ok_def hmap_simps dest: ended_after_claim_mono
      split: if_splits sum.splits option.splits)

lemma finish_saved:
  assumes "finish_type_execution to_string db_error b t = (t', Inr ())"
  obtains pending terminal where "to_string \<lparr>rc_binding = b, rc_database_terminal = False\<rparr> = Inr pending"
    and "to_string \<lparr>rc_binding = b, rc_database_terminal = True\<rparr> = Inr terminal"
    and "map_of t (receipt_key (tb_execution_id b)) = Some pending"
    and "t' = hm_insert (receipt_key (tb_execution_id b)) terminal t"
  using assms by (auto simp: finish_type_execution_def split: sum.splits option.splits if_splits)

lemma finish_failed: "finish_type_execution to_string db_error b t = (t', Inl e) \<Longrightarrow> t' = t"
  by (auto simp: finish_type_execution_def split: sum.splits option.splits if_splits)

lemma row_ok_finish:
  assumes rt: "json_round_trip to_string from_str"
    and rows: "\<forall>e. row_ok to_string h e (map_of t (receipt_key e))"
    and saved: "finish_type_execution to_string db_error b t = (t', Inr ())"
  shows "row_ok to_string (Ended b # h) e (map_of t' (receipt_key e))"
proof -
  obtain pending terminal where f: "to_string \<lparr>rc_binding = b, rc_database_terminal = False\<rparr> = Inr pending"
    "to_string \<lparr>rc_binding = b, rc_database_terminal = True\<rparr> = Inr terminal"
    "map_of t (receipt_key (tb_execution_id b)) = Some pending"
    "t' = hm_insert (receipt_key (tb_execution_id b)) terminal t"
    using finish_saved [OF saved] .
  show ?thesis
  proof (cases "e = tb_execution_id b")
    case True
    have "row_ok to_string h e (Some pending)" using rows f(3) True by metis
    then obtain b0 d0 where b0: "to_string \<lparr>rc_binding = b0, rc_database_terminal = d0\<rparr> = Inr pending"
      "claims e h = [Claimed b0]"
      by (auto simp: row_ok_def)
    have "b0 = b" using round_trip_inj [OF rt b0(1) f(1)] by simp
    then have c: "claims e h = [Claimed b]" using b0(2) by simp
    then show ?thesis using True f(2,4) ended_after_claimI [OF claims_mem [OF c]]
      by (auto simp: row_ok_def hmap_simps)
  next
    case False
    then have "map_of t' (receipt_key e) = map_of t (receipt_key e)" by (simp add: f(4) hmap_simps)
    then show ?thesis using spec [OF rows, of e] by (auto simp: row_ok_def dest: ended_after_claim_mono split: option.splits)
  qed
qed

lemma finish_conditional_table:
  assumes "finish_conditional_update legacy into to_string db_error now g (Some b) result (s, t) = ((s', t'), E, answer)"
  shows "t' = (if database_terminal_of result then fst (finish_type_execution to_string db_error b t) else t)"
  using assms
  by (auto simp: finish_conditional_update_def finish_with_database_result_def Let_def
      split: prod.splits sum.splits if_splits)

lemma receipts_rows:
  assumes "receipts_run to_string h t" and rt: "json_round_trip to_string from_str"
  shows "\<forall>e. row_ok to_string h e (map_of t (receipt_key e))"
  using assms(1)
proof (induction rule: receipts_run.induct)
  case receipts_start
  show ?case by (simp add: row_ok_def)
next
  case (receipts_claim h t db_error b t')
  then show ?case using row_ok_claim by blast
next
  case (receipts_finish h t legacy into db_error now g b result s s' t' E answer)
  obtain t1 res where f: "finish_type_execution to_string db_error b t = (t1, res)" by fastforce
  show ?case
  proof (cases "database_terminal_of result \<and> res = Inr ()")
    case True
    then show ?thesis
      using row_ok_finish [OF rt receipts_finish.IH] finish_conditional_table [OF receipts_finish.hyps(2)] f by auto
  next
    case False
    then have "t' = t"
      using finish_conditional_table [OF receipts_finish.hyps(2)] f finish_failed [of to_string db_error b t t1]
      by (cases res) auto
    then show ?thesis using False receipts_finish.IH f by auto
  qed
next
  case (receipts_other h t k v)
  then show ?case by (auto simp: hmap_simps)
qed

section \<open>Properties\<close>

text \<open>
  C22: a TYPE statement is reported as ended only after its own end was recorded. Given a JSON writer
  and reader that round-trip, whatever claims, endings and other writes the table has seen and
  whatever other tasks do while the observer waits: if the observer reports that the statement has
  ended, then that very request, with its plan, step, connection, database and text, was claimed and
  a result that proves its end was saved afterwards; and the execution id was never claimed twice.
\<close>

theorem observed_end_was_recorded:
  assumes "json_round_trip to_string from_str"
    and "observe_type_execution from_str db_error db_error' during now b st = (st', Inr res)"
    and "receipts_run to_string h (snd st')" and "cw_terminal res \<or> cw_database_terminal res = Some True"
  shows "ended_after_claim b h \<and> claims (tb_execution_id b) h = [Claimed b]"
proof -
  obtain e where r: "type_execution_terminal from_str e b (snd st') = Inr (Some True)"
    using assms(2,4) by (auto simp: observe_type_execution_def Let_def split: sum.splits if_splits)
  then obtain v receipt where v: "map_of (snd st') (receipt_key (tb_execution_id b)) = Some v"
    "from_str v = Inr receipt" "rc_binding receipt = b" "rc_database_terminal receipt"
    by (auto simp: type_execution_terminal_def split: option.splits sum.splits if_splits)
  have "row_ok to_string h (tb_execution_id b) (Some v)"
    using receipts_rows [OF assms(3,1)] v(1) by metis
  then obtain b' d where b': "to_string \<lparr>rc_binding = b', rc_database_terminal = d\<rparr> = Inr v"
    "claims (tb_execution_id b) h = [Claimed b']" "d \<longrightarrow> ended_after_claim b' h"
    by (auto simp: row_ok_def)
  have "receipt = \<lparr>rc_binding = b', rc_database_terminal = d\<rparr>"
    using assms(1) b'(1) v(2) unfolding json_round_trip_def by (metis sum.inject(2))
  then show ?thesis using b' v(3,4) by simp
qed

text \<open>
  A caller that updates under a TYPE binding hears of success only when the success is durable.
  If finishing a bound statement returns its value, the statement itself succeeded and an observer
  that reads the table afterwards finds the end recorded for that very binding.
\<close>

theorem success_is_durable:
  assumes "json_round_trip to_string from_str"
    and "finish_conditional_update legacy into to_string db_error now g (Some b) result (s, t) = ((s', t'), E, Inr v)"
  shows "result = Inr v \<and> type_execution_terminal from_str None b t' = Inr (Some True)"
proof -
  have result: "result = Inr v"
    using assms(2)
    by (auto simp: finish_conditional_update_def finish_with_database_result_def Let_def database_terminal_of_def
        split: prod.splits sum.splits if_splits)
  then have "finish_type_execution to_string db_error b t = (t', Inr ())"
    using assms(2)
    by (auto simp: finish_conditional_update_def finish_with_database_result_def Let_def database_terminal_of_def
        split: prod.splits sum.splits if_splits)
  then obtain pending terminal where "to_string \<lparr>rc_binding = b, rc_database_terminal = True\<rparr> = Inr terminal"
    "t' = hm_insert (receipt_key (tb_execution_id b)) terminal t"
    using finish_saved by metis
  then show ?thesis using result assms(1)
    by (simp add: type_execution_terminal_def json_round_trip_def hmap_simps)
qed

subsection \<open>A sample request\<close>

text \<open>A writer that spells a receipt of one fixed binding, with its reader.\<close>

definition sample_binding :: TypeExecutionBinding where
  "sample_binding = \<lparr>tb_execution_id = ''x1'', tb_context = \<lparr>plan_id = ''p'', step_id = ''s''\<rparr>,
     tb_connection_id = ''c1'', tb_database = ''db'', tb_schema = None, tb_sql = ''create type t''\<rparr>"

definition sample_writer :: writer where
  "sample_writer r = (if rc_binding r = sample_binding
     then Inr (if rc_database_terminal r then ''terminal'' else ''pending'') else Inl ''unsupported'')"

definition sample_reader :: reader where
  "sample_reader v = (if v = ''terminal'' then Inr \<lparr>rc_binding = sample_binding, rc_database_terminal = True\<rparr>
     else if v = ''pending'' then Inr \<lparr>rc_binding = sample_binding, rc_database_terminal = False\<rparr>
     else Inl ''unsupported'')"

lemma sample_round_trip: "json_round_trip sample_writer sample_reader"
  by (auto simp: json_round_trip_def sample_writer_def sample_reader_def split: if_splits)

definition sample_guard :: RegisteredQuery where
  "sample_guard = \<lparr>rg_execution_id = ''x1'', rg_registration_id = 1, rg_token = 7, rg_detached = False,
     rg_database_terminal = False\<rparr>"

definition pending_table :: app_state where
  "pending_table = [(receipt_key ''x1'', ''pending'')]"

definition terminal_table :: app_state where
  "terminal_table = [(receipt_key ''x1'', ''terminal'')]"

lemma sample_claim: "claim_type_execution sample_writer None sample_binding [] = (pending_table, Inr ())"
  by code_simp

lemma sample_finish:
  "finish_conditional_update (\<lambda>e. e) qe_display sample_writer None 5 sample_guard (Some sample_binding)
     (Inr ''done'') (empty_queries, pending_table) = ((empty_queries, terminal_table), [], Inr ''done'')"
  by code_simp

lemma sample_receipts: "receipts_run sample_writer [Ended sample_binding, Claimed sample_binding] terminal_table"
proof -
  have saved: "snd (finish_type_execution sample_writer None sample_binding pending_table) = Inr ()" by code_simp
  from receipts_finish [OF receipts_claim [OF receipts_start sample_claim] sample_finish] saved
  show ?thesis by (simp add: database_terminal_of_def)
qed

theorem observed_end_was_recorded_witness:
  "ended_after_claim sample_binding [Ended sample_binding, Claimed sample_binding] \<and>
   claims (tb_execution_id sample_binding) [Ended sample_binding, Claimed sample_binding] = [Claimed sample_binding]"
proof (rule observed_end_was_recorded [OF sample_round_trip, where st = "(empty_queries, terminal_table)"])
  show "observe_type_execution sample_reader None None (\<lambda>st. st) 9 sample_binding (empty_queries, terminal_table)
    = ((empty_queries, terminal_table),
       Inr \<lparr>cw_requested = False, cw_terminal = True, cw_database_terminal = Some True\<rparr>)"
    by code_simp
qed (simp_all add: sample_receipts)

theorem success_is_durable_witness:
  "(Inr ''done'' :: QueryExecutionError + string) = Inr ''done'' \<and>
   type_execution_terminal sample_reader None sample_binding terminal_table = Inr (Some True)"
  by (rule success_is_durable [OF sample_round_trip sample_finish])

end
