(* ===== verification/State_Machine.thy ===== *)
theory State_Machine
  imports Prelude
begin

text \<open>
  Persisted state machines: the table \<^verbatim>\<open>state_store\<close> of \<^verbatim>\<open>crates/dbx-core/src/persistence/storage.rs\<close>,
  the backend interface with its SQLite implementation, and the state machine with optimistic locking of
  \<^verbatim>\<open>crates/dbx-core/src/persistence/state_persistence.rs\<close>.

  A backend is a record of functions over its own state, so that a client is a function of the
  backend. JSON entries are written and read by \<^verbatim>\<open>serde_json\<close>; writer and reader are the fields
  of a codec, and the type of JSON values is a type variable. Version counters start at one and grow
  by one with every write of a row; they are natural numbers, which they differ from only after
  \<open>2\<^sup>6\<^sup>3\<close> writes to one row.
\<close>

section \<open>The table\<close>

record state_row =
  sr_value :: string
  sr_content_type :: string
  sr_version :: nat

type_synonym state_table = "(string, state_row) hmap"

definition save_state ::
  "string option \<Rightarrow> string \<Rightarrow> string \<Rightarrow> string \<Rightarrow> state_table \<Rightarrow> state_table \<times> (string + unit)" where
  "save_state db_error key v content_type t = (case db_error of
     Some e \<Rightarrow> (t, Inl e)
   | None \<Rightarrow> (hm_insert key
       \<lparr>sr_value = v, sr_content_type = content_type,
        sr_version = (case map_of t key of None \<Rightarrow> 1 | Some row \<Rightarrow> sr_version row + 1)\<rparr> t, Inr ()))"

definition load_state :: "string option \<Rightarrow> string \<Rightarrow> state_table \<Rightarrow> string + (string \<times> string) option" where
  "load_state db_error key t = (case db_error of
     Some e \<Rightarrow> Inl e
   | None \<Rightarrow> Inr (map_option (\<lambda>row. (sr_value row, sr_content_type row)) (map_of t key)))"

definition delete_row :: "string option \<Rightarrow> string \<Rightarrow> state_table \<Rightarrow> state_table \<times> (string + unit)" where
  "delete_row db_error key t = (case db_error of
     Some e \<Rightarrow> (t, Inl e) | None \<Rightarrow> (hm_remove key t, Inr ()))"

definition state_exists :: "string option \<Rightarrow> string \<Rightarrow> state_table \<Rightarrow> string + bool" where
  "state_exists db_error key t = (case db_error of Some e \<Rightarrow> Inl e | None \<Rightarrow> Inr (map_of t key \<noteq> None))"

definition get_state_version :: "string option \<Rightarrow> string \<Rightarrow> state_table \<Rightarrow> string + nat option" where
  "get_state_version db_error key t = (case db_error of
     Some e \<Rightarrow> Inl e | None \<Rightarrow> Inr (map_option sr_version (map_of t key)))"

definition compare_and_swap_row ::
  "string option \<Rightarrow> string \<Rightarrow> nat option \<Rightarrow> string \<Rightarrow> string \<Rightarrow> state_table \<Rightarrow> state_table \<times> (string + bool)" where
  "compare_and_swap_row db_error key expected_version new_value content_type t = (case db_error of
     Some e \<Rightarrow> (t, Inl e)
   | None \<Rightarrow> (case (map_option sr_version (map_of t key), expected_version) of
       (None, None) \<Rightarrow>
         (hm_insert key \<lparr>sr_value = new_value, sr_content_type = content_type, sr_version = 1\<rparr> t, Inr True)
     | (Some v, Some expected) \<Rightarrow>
         if v = expected
         then (hm_insert key \<lparr>sr_value = new_value, sr_content_type = content_type, sr_version = v + 1\<rparr> t, Inr True)
         else (t, Inr False)
     | _ \<Rightarrow> (t, Inr False)))"

section \<open>States and transitions\<close>

datatype StateTransition =
  Created | Running | Paused | OscSyncing | Completed | Failed | Cancelled | RollingBack |
  FullyRolledBack | PartiallyRolledBack | RecoveryRequired

definition transition_as_str :: "StateTransition \<Rightarrow> string" where
  "transition_as_str s = (case s of
     Created \<Rightarrow> ''created'' | Running \<Rightarrow> ''running'' | Paused \<Rightarrow> ''paused'' | OscSyncing \<Rightarrow> ''osc_syncing''
   | Completed \<Rightarrow> ''completed'' | Failed \<Rightarrow> ''failed'' | Cancelled \<Rightarrow> ''cancelled'' | RollingBack \<Rightarrow> ''rolling_back''
   | FullyRolledBack \<Rightarrow> ''fully_rolled_back'' | PartiallyRolledBack \<Rightarrow> ''partially_rolled_back''
   | RecoveryRequired \<Rightarrow> ''recovery_required'')"

definition transition_from_str :: "string \<Rightarrow> StateTransition option" where
  "transition_from_str s =
     (if s = ''created'' then Some Created
      else if s = ''running'' then Some Running
      else if s = ''paused'' then Some Paused
      else if s = ''osc_syncing'' then Some OscSyncing
      else if s = ''completed'' then Some Completed
      else if s = ''failed'' then Some Failed
      else if s = ''cancelled'' then Some Cancelled
      else if s = ''rolling_back'' then Some RollingBack
      else if s = ''fully_rolled_back'' then Some FullyRolledBack
      else if s = ''partially_rolled_back'' then Some PartiallyRolledBack
      else if s = ''recovery_required'' then Some RecoveryRequired
      else None)"

definition ALLOWED_TRANSITIONS :: "(StateTransition \<times> StateTransition list) list" where
  "ALLOWED_TRANSITIONS =
     [(Created, [Running, Cancelled]),
      (Running, [Paused, OscSyncing, Completed, Failed]),
      (Paused, [Running, Cancelled]),
      (OscSyncing, [Completed, Failed]),
      (Completed, [RollingBack, FullyRolledBack]),
      (Failed, [Running, Cancelled, RollingBack, RecoveryRequired]),
      (Cancelled, []),
      (RollingBack, [FullyRolledBack, PartiallyRolledBack, RecoveryRequired]),
      (FullyRolledBack, []),
      (PartiallyRolledBack, [RecoveryRequired]),
      (RecoveryRequired, [])]"

definition is_valid_transition :: "StateTransition \<Rightarrow> StateTransition \<Rightarrow> bool" where
  "is_valid_transition from to \<longleftrightarrow>
     list_ex (\<lambda>(state, allowed). state = from \<and> to \<in> set allowed) ALLOWED_TRANSITIONS"

section \<open>Backends\<close>

record 'j StateEntry =
  se_key :: string
  se_current_state :: string
  se_version :: nat
  se_metadata :: 'j

record 'j entry_codec =
  to_vec :: "'j StateEntry \<Rightarrow> string + string"
  from_slice :: "string \<Rightarrow> string + 'j StateEntry"
  json_null :: 'j

record 'b state_backend =
  be_save :: "string \<Rightarrow> string \<Rightarrow> 'b \<Rightarrow> 'b \<times> (string + unit)"
  be_save_with_content_type :: "string \<Rightarrow> string \<Rightarrow> string \<Rightarrow> 'b \<Rightarrow> 'b \<times> (string + unit)"
  be_load :: "string \<Rightarrow> 'b \<Rightarrow> string + string option"
  be_delete :: "string \<Rightarrow> 'b \<Rightarrow> 'b \<times> (string + unit)"
  be_exists :: "string \<Rightarrow> 'b \<Rightarrow> string + bool"
  be_compare_and_swap :: "string \<Rightarrow> string option \<Rightarrow> string \<Rightarrow> 'b \<Rightarrow> 'b \<times> (string + bool)"

text \<open>The interface's own \<^verbatim>\<open>compare_and_swap\<close>, which the Redis, Postgres and S3 backends inherit.\<close>

definition default_compare_and_swap :: "string \<Rightarrow> string option \<Rightarrow> string \<Rightarrow> 'b \<Rightarrow> 'b \<times> (string + bool)" where
  "default_compare_and_swap key old new b = (b, Inl ''CAS not supported by this backend'')"

definition local_compare_and_swap ::
  "'j entry_codec \<Rightarrow> string option \<Rightarrow> string \<Rightarrow> string option \<Rightarrow> string \<Rightarrow> state_table \<Rightarrow> state_table \<times> (string + bool)" where
  "local_compare_and_swap J db_error key old new t = (case old of
     Some data \<Rightarrow> (case from_slice J data of
         Inl e \<Rightarrow> (t, Inl (''CAS deserialize error: '' @ e))
       | Inr entry \<Rightarrow> compare_and_swap_row db_error key (Some (se_version entry)) new ''application/json'' t)
   | None \<Rightarrow> compare_and_swap_row db_error key None new ''application/json'' t)"

definition LocalBackend :: "'j entry_codec \<Rightarrow> string option \<Rightarrow> state_table state_backend" where
  "LocalBackend J db_error =
     \<lparr>be_save = (\<lambda>key v. save_state db_error key v ''application/octet-stream''),
      be_save_with_content_type = save_state db_error,
      be_load = (\<lambda>key t. map_sum id (map_option fst) (load_state db_error key t)),
      be_delete = delete_row db_error,
      be_exists = state_exists db_error,
      be_compare_and_swap = local_compare_and_swap J db_error\<rparr>"

section \<open>The state machine\<close>

definition STATE_KEY_PREFIX :: string where
  "STATE_KEY_PREFIX = ''state:''"

definition create_state ::
  "'b state_backend \<Rightarrow> 'j entry_codec \<Rightarrow> string \<Rightarrow> 'j \<Rightarrow> 'b \<Rightarrow> 'b \<times> (string + 'j StateEntry)" where
  "create_state B J key metadata b =
     (let entry = \<lparr>se_key = key, se_current_state = transition_as_str Created, se_version = 1,
                   se_metadata = metadata\<rparr>
      in case to_vec J entry of
           Inl e \<Rightarrow> (b, Inl e)
         | Inr data \<Rightarrow> (case be_save B (STATE_KEY_PREFIX @ key) data b of
             (b', Inl e) \<Rightarrow> (b', Inl e)
           | (b', Inr _) \<Rightarrow> (b', Inr entry)))"

definition get_state :: "'b state_backend \<Rightarrow> 'j entry_codec \<Rightarrow> string \<Rightarrow> 'b \<Rightarrow> string + 'j StateEntry option" where
  "get_state B J key b = (case be_load B (STATE_KEY_PREFIX @ key) b of
     Inl e \<Rightarrow> Inl e
   | Inr None \<Rightarrow> Inr None
   | Inr (Some data) \<Rightarrow> (case from_slice J data of Inl e \<Rightarrow> Inl e | Inr entry \<Rightarrow> Inr (Some entry)))"

definition compare_and_swap_state ::
  "'b state_backend \<Rightarrow> 'j entry_codec \<Rightarrow> string \<Rightarrow> nat \<Rightarrow> 'j StateEntry \<Rightarrow> 'b \<Rightarrow> 'b \<times> (string + bool)" where
  "compare_and_swap_state B J key expected_version new_state b =
     (let old_entry = \<lparr>se_key = key, se_current_state = [], se_version = expected_version,
                       se_metadata = json_null J\<rparr>
      in case to_vec J old_entry of
           Inl e \<Rightarrow> (b, Inl e)
         | Inr old_data \<Rightarrow> (case to_vec J new_state of
             Inl e \<Rightarrow> (b, Inl e)
           | Inr new_data \<Rightarrow> be_compare_and_swap B (STATE_KEY_PREFIX @ key) (Some old_data) new_data b))"

text \<open>
  An attempt of \<^verbatim>\<open>transition\<close> reads and checks the entry, and then swaps in the new one. Other
  tasks may use the backend before and between the two: what they do is an argument.
\<close>

definition read_transition ::
  "'b state_backend \<Rightarrow> 'j entry_codec \<Rightarrow> string \<Rightarrow> StateTransition \<Rightarrow> 'b \<Rightarrow> string + 'j StateEntry" where
  "read_transition B J key to b = (case be_load B (STATE_KEY_PREFIX @ key) b of
     Inl e \<Rightarrow> Inl e
   | Inr None \<Rightarrow> Inl (''State not found: '' @ key)
   | Inr (Some data) \<Rightarrow> (case from_slice J data of
       Inl e \<Rightarrow> Inl e
     | Inr entry \<Rightarrow> (case transition_from_str (se_current_state entry) of
         None \<Rightarrow> Inl (''Invalid current state: '' @ se_current_state entry)
       | Some current \<Rightarrow>
           if \<not> is_valid_transition current to
           then Inl (''Invalid transition: '' @ transition_as_str current @ '' -> '' @ transition_as_str to)
           else Inr entry)))"

definition moved :: "StateTransition \<Rightarrow> 'j StateEntry \<Rightarrow> 'j StateEntry" where
  "moved to entry = entry\<lparr>se_current_state := transition_as_str to, se_version := se_version entry + 1\<rparr>"

fun transition_attempts ::
  "'b state_backend \<Rightarrow> 'j entry_codec \<Rightarrow> (nat \<Rightarrow> 'b \<Rightarrow> 'b) \<Rightarrow> string \<Rightarrow> StateTransition \<Rightarrow> nat list \<Rightarrow> 'b \<Rightarrow>
     'b \<times> (string + 'j StateEntry)" where
  "transition_attempts B J interfere key to [] b =
     (b, Inl (''CAS failed after '' @ show_nat 3 @ '' retries for state key: '' @ key))"
| "transition_attempts B J interfere key to (attempt # attempts) b =
     (let b0 = interfere (2 * attempt) b
      in case read_transition B J key to b0 of
        Inl e \<Rightarrow> (b0, Inl e)
      | Inr entry \<Rightarrow>
          (case compare_and_swap_state B J key (se_version entry) (moved to entry) (interfere (2 * attempt + 1) b0) of
             (b', Inl e) \<Rightarrow> (b', Inl e)
           | (b', Inr True) \<Rightarrow> (b', Inr (moved to entry))
           | (b', Inr False) \<Rightarrow> transition_attempts B J interfere key to attempts b'))"

definition transition ::
  "'b state_backend \<Rightarrow> 'j entry_codec \<Rightarrow> (nat \<Rightarrow> 'b \<Rightarrow> 'b) \<Rightarrow> string \<Rightarrow> StateTransition \<Rightarrow> 'b \<Rightarrow>
     'b \<times> (string + 'j StateEntry)" where
  "transition B J interfere key to = transition_attempts B J interfere key to [0..<4]"

definition delete_state :: "'b state_backend \<Rightarrow> string \<Rightarrow> 'b \<Rightarrow> 'b \<times> (string + unit)" where
  "delete_state B key b = be_delete B (STATE_KEY_PREFIX @ key) b"

end
