(* ===== verification/State_Machine_Laws.thy ===== *)
theory State_Machine_Laws
  imports State_Machine
begin

text \<open>
  Laws of the persisted state machines: the texts of states round-trip, the transition graph has no
  trap, a transition replaces exactly the entry it has checked however tasks interleave, and
  creating a state a second time makes its transitions fail.
\<close>

section \<open>The interface of a backend\<close>

text \<open>
  What clients of a backend rely on: a saved value is loaded again, and saving or swapping one key
  leaves the others alone.
\<close>

locale kv_backend =
  fixes B :: "'b state_backend"
  assumes save_ok: "snd (be_save B k v b) = Inr ()"
    and load_saved: "be_load B k (fst (be_save B k v b)) = Inr (Some v)"
    and load_other: "k' \<noteq> k \<Longrightarrow> be_load B k' (fst (be_save B k v b)) = be_load B k' b"
    and load_other_swap: "k' \<noteq> k \<Longrightarrow> be_load B k' (fst (be_compare_and_swap B k old new b)) = be_load B k' b"
begin

lemma save_cases: "be_save B k v b = (fst (be_save B k v b), Inr ())"
  using save_ok [of k v b] by (cases "be_save B k v b") auto

end

interpretation local_kv: kv_backend "LocalBackend J None" for J
  by unfold_locales
    (simp_all add: LocalBackend_def save_state_def load_state_def local_compare_and_swap_def
      compare_and_swap_row_def hmap_simps split: option.split sum.split)

lemma local_fields [simp]:
  "be_save (LocalBackend J err) k v t = save_state err k v ''application/octet-stream'' t"
  "be_load (LocalBackend J err) k t = map_sum id (map_option fst) (load_state err k t)"
  "be_compare_and_swap (LocalBackend J err) k old new t = local_compare_and_swap J err k old new t"
  by (simp_all add: LocalBackend_def)

section \<open>States\<close>

lemma transition_from_as_str [simp]: "transition_from_str (transition_as_str s) = Some s"
  by (cases s) (simp_all add: transition_from_str_def transition_as_str_def)

lemma transition_as_from_str: "transition_from_str x = Some s \<Longrightarrow> x = transition_as_str s"
  by (simp add: transition_from_str_def transition_as_str_def split: if_splits)

lemmas transition_table = is_valid_transition_def ALLOWED_TRANSITIONS_def

text \<open>
  The texts stored for states are unambiguous: parsing the text of a state gives the state back,
  and a text that parses to a state is the text of that state.
\<close>

theorem state_text_round_trip: "transition_from_str x = Some s \<longleftrightarrow> x = transition_as_str s"
  using transition_as_from_str by auto

definition final_state :: "StateTransition \<Rightarrow> bool" where
  "final_state s \<longleftrightarrow> (\<forall>s'. \<not> is_valid_transition s s')"

lemma final_states: "final_state s \<longleftrightarrow> s \<in> {Cancelled, FullyRolledBack, RecoveryRequired}"
  unfolding final_state_def by (cases s) (auto simp: transition_table)

lemma step_path: "is_valid_transition a b \<Longrightarrow> is_valid_transition\<^sup>*\<^sup>* b c \<Longrightarrow> is_valid_transition\<^sup>*\<^sup>* a c"
  by (rule converse_rtranclp_into_rtranclp)

lemma reach_states:
  "is_valid_transition\<^sup>*\<^sup>* Created Running" "is_valid_transition\<^sup>*\<^sup>* Created Failed"
  "is_valid_transition\<^sup>*\<^sup>* Created Completed" "is_valid_transition\<^sup>*\<^sup>* Created RollingBack"
proof -
  show r: "is_valid_transition\<^sup>*\<^sup>* Created Running" by (rule r_into_rtranclp) (simp add: transition_table)
  show f: "is_valid_transition\<^sup>*\<^sup>* Created Failed" by (rule rtranclp.rtrancl_into_rtrancl [OF r]) (simp add: transition_table)
  show "is_valid_transition\<^sup>*\<^sup>* Created Completed"
    by (rule rtranclp.rtrancl_into_rtrancl [OF r]) (simp add: transition_table)
  show "is_valid_transition\<^sup>*\<^sup>* Created RollingBack"
    by (rule rtranclp.rtrancl_into_rtrancl [OF f]) (simp add: transition_table)
qed

text \<open>
  The table of allowed transitions has no dead corner: every state can be reached from the
  initial one, and from every state one of the three final states (cancelled, fully rolled back,
  recovery required) can be reached. Nothing leads out of a final state.
\<close>

theorem transitions_no_trap:
  "is_valid_transition\<^sup>*\<^sup>* Created s \<and> (\<exists>f\<in>{Cancelled, FullyRolledBack, RecoveryRequired}. is_valid_transition\<^sup>*\<^sup>* s f) \<and>
   (final_state s \<longleftrightarrow> s \<in> {Cancelled, FullyRolledBack, RecoveryRequired})"
proof -
  have 1: "is_valid_transition\<^sup>*\<^sup>* Created s" for s
    using reach_states
    by (cases s) (auto intro: rtranclp.rtrancl_into_rtrancl [of _ _ Running] rtranclp.rtrancl_into_rtrancl [of _ _ Failed]
        rtranclp.rtrancl_into_rtrancl [of _ _ RollingBack] simp: transition_table)
  have e: "is_valid_transition\<^sup>*\<^sup>* Completed FullyRolledBack" "is_valid_transition\<^sup>*\<^sup>* Failed Cancelled"
    "is_valid_transition\<^sup>*\<^sup>* Paused Cancelled" "is_valid_transition\<^sup>*\<^sup>* RollingBack FullyRolledBack"
    "is_valid_transition\<^sup>*\<^sup>* PartiallyRolledBack RecoveryRequired" "is_valid_transition\<^sup>*\<^sup>* Created Cancelled"
    by (rule r_into_rtranclp, simp add: transition_table)+
  have "is_valid_transition\<^sup>*\<^sup>* Running Cancelled" "is_valid_transition\<^sup>*\<^sup>* OscSyncing Cancelled"
    by (rule step_path [OF _ e(2)], simp add: transition_table)+
  with e have 2: "\<exists>f\<in>{Cancelled, FullyRolledBack, RecoveryRequired}. is_valid_transition\<^sup>*\<^sup>* s f"
    by (cases s) auto
  show ?thesis using 1 2 final_states by blast
qed

section \<open>Optimistic locking\<close>

definition codec_ok :: "'j entry_codec \<Rightarrow> bool" where
  "codec_ok J \<longleftrightarrow> (\<forall>e d. to_vec J e = Inr d \<longrightarrow> from_slice J d = Inr e)"

lemma codec_okD: "codec_ok J \<Longrightarrow> to_vec J e = Inr d \<Longrightarrow> from_slice J d = Inr e"
  by (simp add: codec_ok_def)

text \<open>
  Tasks that read entries and swap in new ones, in any order. Each task holds the entry it has read
  together with the transition it is about to make. States are created under unused keys; the rows
  whose keys lack the prefix belong to other clients.
\<close>

type_synonym 'j tasks = "nat \<Rightarrow> (string \<times> StateTransition \<times> 'j StateEntry) option"

inductive sm_run :: "'j entry_codec \<Rightarrow> state_table \<Rightarrow> 'j tasks \<Rightarrow> bool" for J where
  sm_start: "sm_run J [] (\<lambda>_. None)"
| sm_create: "sm_run J t ts \<Longrightarrow> map_of t (STATE_KEY_PREFIX @ key) = None \<Longrightarrow>
    create_state (LocalBackend J db_error) J key metadata t = (t', res) \<Longrightarrow> sm_run J t' ts"
| sm_read: "sm_run J t ts \<Longrightarrow> read_transition (LocalBackend J db_error) J key to t = Inr entry \<Longrightarrow>
    sm_run J t (ts(p \<mapsto> (key, to, entry)))"
| sm_swap: "sm_run J t ts \<Longrightarrow> ts p = Some (key, to, entry) \<Longrightarrow>
    compare_and_swap_state (LocalBackend J db_error) J key (se_version entry) (moved to entry) t = (t', res) \<Longrightarrow>
    sm_run J t' (ts(p := None))"
| sm_other: "sm_run J t ts \<Longrightarrow> \<forall>key. k \<noteq> STATE_KEY_PREFIX @ key \<Longrightarrow> save_state db_error k v c t = (t', res) \<Longrightarrow>
    sm_run J t' ts"

definition row_holds :: "'j entry_codec \<Rightarrow> state_row \<Rightarrow> 'j StateEntry \<Rightarrow> bool" where
  "row_holds J row e \<longleftrightarrow> from_slice J (sr_value row) = Inr e \<and> se_version e = sr_version row"

definition table_ok :: "'j entry_codec \<Rightarrow> state_table \<Rightarrow> bool" where
  "table_ok J t \<longleftrightarrow> (\<forall>key row. map_of t (STATE_KEY_PREFIX @ key) = Some row \<longrightarrow> (\<exists>e. row_holds J row e))"

definition pending_ok :: "'j entry_codec \<Rightarrow> state_table \<Rightarrow> string \<times> StateTransition \<times> 'j StateEntry \<Rightarrow> bool" where
  "pending_ok J t = (\<lambda>(key, to, entry).
     (\<exists>c. transition_from_str (se_current_state entry) = Some c \<and> is_valid_transition c to) \<and>
     (\<exists>row. map_of t (STATE_KEY_PREFIX @ key) = Some row \<and> se_version entry \<le> sr_version row \<and>
        (sr_version row = se_version entry \<longrightarrow> row_holds J row entry)))"

definition sm_inv :: "'j entry_codec \<Rightarrow> state_table \<Rightarrow> 'j tasks \<Rightarrow> bool" where
  "sm_inv J t ts \<longleftrightarrow> table_ok J t \<and> (\<forall>p x. ts p = Some x \<longrightarrow> pending_ok J t x)"

lemma create_cases:
  assumes "create_state (LocalBackend J db_error) J key metadata t = (t', res)" and "t' \<noteq> t"
  obtains d where "to_vec J \<lparr>se_key = key, se_current_state = transition_as_str Created, se_version = 1,
      se_metadata = metadata\<rparr> = Inr d"
    and "map_of t' = (map_of t)(STATE_KEY_PREFIX @ key \<mapsto> \<lparr>sr_value = d,
      sr_content_type = ''application/octet-stream'',
      sr_version = (case map_of t (STATE_KEY_PREFIX @ key) of None \<Rightarrow> 1 | Some row \<Rightarrow> sr_version row + 1)\<rparr>)"
  using assms
  by (auto simp: create_state_def Let_def save_state_def hmap_simps split: sum.splits option.splits)

lemma swap_cases:
  assumes "compare_and_swap_state (LocalBackend J db_error) J key n e t = (t', res)" and "codec_ok J"
  shows "(t' = t \<and> res \<noteq> Inr True) \<or> (res = Inr True \<and> (\<exists>row d. map_of t (STATE_KEY_PREFIX @ key) = Some row \<and>
    sr_version row = n \<and> to_vec J e = Inr d \<and> map_of t' = (map_of t)(STATE_KEY_PREFIX @ key \<mapsto>
      \<lparr>sr_value = d, sr_content_type = ''application/json'', sr_version = n + 1\<rparr>)))"
  using assms codec_okD [OF assms(2)]
  by (auto simp: compare_and_swap_state_def Let_def local_compare_and_swap_def compare_and_swap_row_def hmap_simps
      split: sum.splits option.splits if_splits)

lemma read_cases:
  assumes "read_transition (LocalBackend J db_error) J key to t = Inr e"
  obtains row c where "map_of t (STATE_KEY_PREFIX @ key) = Some row" and "from_slice J (sr_value row) = Inr e"
    and "transition_from_str (se_current_state e) = Some c" and "is_valid_transition c to"
  using assms by (auto simp: read_transition_def load_state_def split: sum.splits option.splits if_splits)

lemma sm_inv_create:
  assumes J: "codec_ok J" and inv: "sm_inv J t ts" and new: "map_of t (STATE_KEY_PREFIX @ key) = None"
    and c: "create_state (LocalBackend J db_error) J key metadata t = (t', res)"
  shows "sm_inv J t' ts"
proof (cases "t' = t")
  case False
  obtain d where d: "to_vec J \<lparr>se_key = key, se_current_state = transition_as_str Created, se_version = 1,
      se_metadata = metadata\<rparr> = Inr d"
    and upd: "map_of t' = (map_of t)(STATE_KEY_PREFIX @ key \<mapsto> \<lparr>sr_value = d,
      sr_content_type = ''application/octet-stream'',
      sr_version = (case map_of t (STATE_KEY_PREFIX @ key) of None \<Rightarrow> 1 | Some row \<Rightarrow> sr_version row + 1)\<rparr>)"
    using create_cases [OF c False] .
  have t': "map_of t' = (map_of t)(STATE_KEY_PREFIX @ key \<mapsto>
      \<lparr>sr_value = d, sr_content_type = ''application/octet-stream'', sr_version = 1\<rparr>)"
    using upd by (simp add: new)
  have "row_holds J \<lparr>sr_value = d, sr_content_type = ''application/octet-stream'', sr_version = 1\<rparr>
      \<lparr>se_key = key, se_current_state = transition_as_str Created, se_version = 1, se_metadata = metadata\<rparr>"
    using codec_okD [OF J d] by (simp add: row_holds_def)
  then have "table_ok J t'"
    using inv unfolding table_ok_def sm_inv_def t' by auto
  moreover have "pending_ok J t' x" if "pending_ok J t x" for x
    using that new unfolding pending_ok_def t' by (auto split: prod.splits)
  ultimately show ?thesis using inv by (simp add: sm_inv_def)
qed (simp add: inv)

lemma sm_inv_read:
  assumes inv: "sm_inv J t ts" and r: "read_transition (LocalBackend J db_error) J key to t = Inr entry"
  shows "sm_inv J t (ts(p \<mapsto> (key, to, entry)))"
proof -
  obtain row c where row: "map_of t (STATE_KEY_PREFIX @ key) = Some row" "from_slice J (sr_value row) = Inr entry"
    and c: "transition_from_str (se_current_state entry) = Some c" "is_valid_transition c to"
    using read_cases [OF r] .
  have "row_holds J row entry"
    using inv row unfolding sm_inv_def table_ok_def row_holds_def by (metis sum.inject(2))
  then have "pending_ok J t (key, to, entry)" using row c by (simp add: pending_ok_def row_holds_def)
  then show ?thesis using inv by (simp add: sm_inv_def)
qed

lemma swap_replaces:
  assumes J: "codec_ok J" and inv: "sm_inv J t ts" and p: "ts p = Some (key, to, entry)"
    and s: "compare_and_swap_state (LocalBackend J db_error) J key (se_version entry) (moved to entry) t = (t', Inr True)"
  obtains row d where "map_of t (STATE_KEY_PREFIX @ key) = Some row" and "row_holds J row entry"
    and "from_slice J d = Inr (moved to entry)"
    and "map_of t' = (map_of t)(STATE_KEY_PREFIX @ key \<mapsto>
      \<lparr>sr_value = d, sr_content_type = ''application/json'', sr_version = se_version entry + 1\<rparr>)"
proof -
  obtain row d where row: "map_of t (STATE_KEY_PREFIX @ key) = Some row" "sr_version row = se_version entry"
    and d: "to_vec J (moved to entry) = Inr d"
    and t': "map_of t' = (map_of t)(STATE_KEY_PREFIX @ key \<mapsto>
      \<lparr>sr_value = d, sr_content_type = ''application/json'', sr_version = se_version entry + 1\<rparr>)"
    using swap_cases [OF s J] by blast
  have "pending_ok J t (key, to, entry)" using inv p by (simp add: sm_inv_def)
  then have "row_holds J row entry" using row by (simp add: pending_ok_def)
  then show ?thesis using that row(1) codec_okD [OF J d] t' by blast
qed

lemma sm_inv_swap:
  assumes J: "codec_ok J" and inv: "sm_inv J t ts" and p: "ts p = Some (key, to, entry)"
    and s: "compare_and_swap_state (LocalBackend J db_error) J key (se_version entry) (moved to entry) t = (t', res)"
  shows "sm_inv J t' (ts(p := None))"
proof (cases "res = Inr True")
  case True
  obtain row d where row: "map_of t (STATE_KEY_PREFIX @ key) = Some row" "row_holds J row entry"
    and d: "from_slice J d = Inr (moved to entry)"
    and t': "map_of t' = (map_of t)(STATE_KEY_PREFIX @ key \<mapsto>
      \<lparr>sr_value = d, sr_content_type = ''application/json'', sr_version = se_version entry + 1\<rparr>)"
    using swap_replaces [OF J inv p s [unfolded True]] .
  have "row_holds J \<lparr>sr_value = d, sr_content_type = ''application/json'', sr_version = se_version entry + 1\<rparr> (moved to entry)"
    using d by (simp add: row_holds_def moved_def)
  then have "table_ok J t'"
    using inv unfolding table_ok_def sm_inv_def t' by auto
  moreover have "pending_ok J t' x" if "pending_ok J t x" for x
    using that row unfolding pending_ok_def t' by (cases x) (auto simp: row_holds_def)
  ultimately show ?thesis using inv by (simp add: sm_inv_def)
next
  case False
  then have "t' = t" using swap_cases [OF s J] by blast
  then show ?thesis using inv by (simp add: sm_inv_def)
qed

lemma sm_inv_other:
  assumes inv: "sm_inv J t ts" and k: "\<forall>key. k \<noteq> STATE_KEY_PREFIX @ key" and s: "save_state db_error k v c t = (t', res)"
  shows "sm_inv J t' ts"
proof -
  have "map_of t' (STATE_KEY_PREFIX @ key) = map_of t (STATE_KEY_PREFIX @ key)" for key
    using s spec [OF k, of key] by (auto simp: save_state_def hmap_simps split: option.splits)
  then show ?thesis using inv by (simp add: sm_inv_def table_ok_def pending_ok_def)
qed

lemma sm_run_inv: "sm_run J t ts \<Longrightarrow> codec_ok J \<Longrightarrow> sm_inv J t ts"
proof (induction rule: sm_run.induct)
  case sm_start
  show ?case by (simp add: sm_inv_def table_ok_def)
qed (blast intro: sm_inv_create sm_inv_read sm_inv_swap sm_inv_other)+


section \<open>Creating a state again\<close>

lemma stale_entry_never_moves:
  assumes J: "codec_ok J" and row: "map_of t (STATE_KEY_PREFIX @ key) = Some row"
    and e: "from_slice J (sr_value row) = Inr e" "se_version e \<noteq> sr_version row"
    and c: "transition_from_str (se_current_state e) = Some c" "is_valid_transition c to"
    and writes: "\<forall>e. \<exists>d. to_vec J e = Inr d"
  shows "transition_attempts (LocalBackend J None) J (\<lambda>_ t. t) key to attempts t =
    (t, Inl (''CAS failed after '' @ show_nat 3 @ '' retries for state key: '' @ key))"
proof (induction attempts)
  case (Cons a attempts)
  have r: "read_transition (LocalBackend J None) J key to t = Inr e"
    using row e(1) c by (simp add: read_transition_def load_state_def)
  have s: "compare_and_swap_state (LocalBackend J None) J key (se_version e) (moved to e) t = (t, Inr False)"
  proof -
    obtain d1 d2 where "to_vec J \<lparr>se_key = key, se_current_state = [], se_version = se_version e,
        se_metadata = json_null J\<rparr> = Inr d1" "to_vec J (moved to e) = Inr d2"
      using writes by metis
    then show ?thesis
      using row e(2) codec_okD [OF J]
      by (simp add: compare_and_swap_state_def Let_def local_compare_and_swap_def compare_and_swap_row_def)
  qed
  show ?case using Cons by (simp add: r s Let_def)
qed simp

text \<open>
  C36: creating a state under a key that is already in use breaks the key. The row keeps counting its
  versions while the new entry says version one, so from then on every transition of the new state,
  even with no other task present, reads the entry, finds the transition allowed, fails all four
  attempts to swap and reports a conflict.
\<close>

theorem recreated_state_is_stuck:
  assumes "codec_ok J" and "\<forall>e. \<exists>d. to_vec J e = Inr d"
    and "map_of t (STATE_KEY_PREFIX @ key) = Some row" and "1 \<le> sr_version row"
    and "create_state (LocalBackend J None) J key metadata t = (t', res)" and "is_valid_transition Created to"
  shows "transition (LocalBackend J None) J (\<lambda>_ t. t) key to t' =
    (t', Inl (''CAS failed after 3 retries for state key: '' @ key))"
proof -
  let ?e = "\<lparr>se_key = key, se_current_state = transition_as_str Created, se_version = 1, se_metadata = metadata\<rparr>"
  obtain d where d: "to_vec J ?e = Inr d" using assms(2) by blast
  have row': "map_of t' (STATE_KEY_PREFIX @ key) = Some \<lparr>sr_value = d,
      sr_content_type = ''application/octet-stream'', sr_version = sr_version row + 1\<rparr>"
    using assms(3,5) d by (simp add: create_state_def Let_def save_state_def) (auto simp: hmap_simps)
  have "show_nat 3 = ''3''" by code_simp
  then show ?thesis
    using stale_entry_never_moves [OF assms(1) row', of ?e Created to "[0..<4]"] codec_okD [OF assms(1) d] assms(2,4,6)
    unfolding transition_def by simp
qed

section \<open>A sample codec\<close>

text \<open>An entry whose metadata is a number is written as its version, its state and its metadata.\<close>

definition unary :: "nat \<Rightarrow> string" where
  "unary n = replicate n CHR ''1''"

definition sample_codec :: "nat entry_codec" where
  "sample_codec =
     \<lparr>to_vec = (\<lambda>e. Inr (unary (length (se_key e)) @ ''.'' @ unary (length (se_current_state e)) @ ''.'' @
                 unary (se_version e) @ ''.'' @ unary (se_metadata e) @ ''.'' @ se_key e @ se_current_state e)),
      from_slice = (\<lambda>d.
        (let one = (\<lambda>s. length (takeWhile (\<lambda>c. c = CHR ''1'') s));
             rest = (\<lambda>s. tl (dropWhile (\<lambda>c. c = CHR ''1'') s));
             d1 = rest d; d2 = rest d1; d3 = rest d2; d4 = rest d3
         in Inr \<lparr>se_key = take (one d) d4, se_current_state = take (one d1) (drop (one d) d4),
                 se_version = one d2, se_metadata = one d3\<rparr>)),
      json_null = 0\<rparr>"

lemma takeWhile_unary [simp]: "takeWhile (\<lambda>c. c = CHR ''1'') (unary n @ CHR ''.'' # s) = unary n"
  by (induction n) (simp_all add: unary_def)

lemma dropWhile_unary [simp]: "dropWhile (\<lambda>c. c = CHR ''1'') (unary n @ CHR ''.'' # s) = CHR ''.'' # s"
  by (induction n) (simp_all add: unary_def)

lemma length_unary [simp]: "length (unary n) = n"
  by (simp add: unary_def)

lemma sample_codec_ok: "codec_ok sample_codec"
  by (auto simp: codec_ok_def sample_codec_def Let_def)

lemma sample_codec_total: "\<forall>e. \<exists>d. to_vec sample_codec e = Inr d"
  by (simp add: sample_codec_def)

definition sample_entry :: "nat StateEntry" where
  "sample_entry = \<lparr>se_key = ''k'', se_current_state = ''created'', se_version = 1, se_metadata = 0\<rparr>"

definition sample_table :: state_table where
  "sample_table = fst (create_state (LocalBackend sample_codec None) sample_codec ''k'' 0 [])"

definition moved_table :: state_table where
  "moved_table = fst (compare_and_swap_state (LocalBackend sample_codec None) sample_codec ''k'' 1
     (moved Running sample_entry) sample_table)"

lemma sample_sm_run: "sm_run sample_codec sample_table ((\<lambda>_. None)(0 \<mapsto> (''k'', Running, sample_entry)))"
proof (rule sm_read [where db_error = None])
  show "sm_run sample_codec sample_table (\<lambda>_. None)"
    unfolding sample_table_def by (rule sm_create [OF sm_start _ prod.collapse [symmetric]]) simp
  show "read_transition (LocalBackend sample_codec None) sample_codec ''k'' Running sample_table = Inr sample_entry"
    by code_simp
qed


definition recreated_table :: state_table where
  "recreated_table = fst (create_state (LocalBackend sample_codec None) sample_codec ''k'' 0 sample_table)"

theorem recreated_state_is_stuck_witness:
  "transition (LocalBackend sample_codec None) sample_codec (\<lambda>_ t. t) ''k'' Running recreated_table =
     (recreated_table, Inl (''CAS failed after 3 retries for state key: '' @ ''k''))"
proof -
  obtain row where row: "map_of sample_table (STATE_KEY_PREFIX @ ''k'') = Some row" "sr_version row = 1"
  proof -
    have "map_option sr_version (map_of sample_table (STATE_KEY_PREFIX @ ''k'')) = Some 1" by code_simp
    then show ?thesis using that by blast
  qed
  show ?thesis unfolding recreated_table_def
    by (rule recreated_state_is_stuck [OF sample_codec_ok sample_codec_total row(1) _ prod.collapse [symmetric]])
      (simp_all add: row(2) transition_table)
qed

end
