(* ===== verification/Two_Phase_Commit.thy ===== *)
theory Two_Phase_Commit
  imports State_Machine_Laws
begin

text \<open>
  The two-phase commit coordinator, \<^verbatim>\<open>crates/dbx-core/src/query/two_phase_commit.rs\<close>.

  Participants act on a world of which nothing is known: preparing, committing and rolling back are
  functions of the participant that change the world and may fail. The coordinator's own state is
  that of its backend. An operation that may fail changes the state and returns a sum; \<open>andThen\<close> is the
  program's question-mark operator. The clock is read off the world. No other task writes the rows of
  the transaction while it runs.
\<close>

section \<open>Data\<close>

datatype CommitStatus =
  TsPreparing | TsPrepared | TsCommitting | TsCommitted | TsRollingBack | TsRolledBack | TsMixed | TsUnknown

definition status_as_str :: "CommitStatus \<Rightarrow> string" where
  "status_as_str s = (case s of
     TsPreparing \<Rightarrow> ''preparing'' | TsPrepared \<Rightarrow> ''prepared'' | TsCommitting \<Rightarrow> ''committing''
   | TsCommitted \<Rightarrow> ''committed'' | TsRollingBack \<Rightarrow> ''rolling_back'' | TsRolledBack \<Rightarrow> ''rolled_back''
   | TsMixed \<Rightarrow> ''mixed'' | TsUnknown \<Rightarrow> ''unknown'')"

definition status_from_str :: "string \<Rightarrow> CommitStatus" where
  "status_from_str s =
     (if s = ''preparing'' then TsPreparing
      else if s = ''prepared'' then TsPrepared
      else if s = ''committing'' then TsCommitting
      else if s = ''committed'' then TsCommitted
      else if s = ''rolling_back'' then TsRollingBack
      else if s = ''rolled_back'' then TsRolledBack
      else if s = ''mixed'' then TsMixed
      else TsUnknown)"

record VoteResult =
  vr_participant_id :: string
  vr_vote :: bool
  vr_reason :: "string option"

record ParticipantCommitResult =
  cr_participant_id :: string
  cr_committed :: bool
  cr_error :: "string option"

record ParticipantInfo =
  pi_id :: string
  pi_name :: string
  pi_role :: string

record 'j TransactionLog =
  tl_transaction_id :: string
  tl_status :: string
  tl_participants :: "ParticipantInfo list"
  tl_created_at :: string
  tl_updated_at :: string
  tl_metadata :: 'j

definition log_new :: "string \<Rightarrow> string \<Rightarrow> ParticipantInfo list \<Rightarrow> 'j \<Rightarrow> 'j TransactionLog" where
  "log_new now transaction_id participants metadata =
     \<lparr>tl_transaction_id = transaction_id, tl_status = status_as_str TsPreparing,
      tl_participants = participants, tl_created_at = now, tl_updated_at = now, tl_metadata = metadata\<rparr>"

record 'w Participant =
  pt_id :: string
  pt_name :: string
  pt_role :: string
  pt_prepare :: "string \<Rightarrow> 'w \<Rightarrow> 'w \<times> (string + unit)"
  pt_commit :: "string \<Rightarrow> 'w \<Rightarrow> 'w \<times> (string + unit)"
  pt_rollback :: "string \<Rightarrow> 'w \<Rightarrow> 'w \<times> (string + unit)"

text \<open>The adapter \<^verbatim>\<open>FnParticipant\<close> wraps three closures and ignores the transaction id.\<close>

definition fn_participant ::
  "string \<Rightarrow> string \<Rightarrow> string \<Rightarrow> ('w \<Rightarrow> 'w \<times> (string + unit)) \<Rightarrow> ('w \<Rightarrow> 'w \<times> (string + unit)) \<Rightarrow>
     ('w \<Rightarrow> 'w \<times> (string + unit)) \<Rightarrow> 'w Participant" where
  "fn_participant i name role prepare_fn commit_fn rollback_fn =
     \<lparr>pt_id = i, pt_name = name, pt_role = role, pt_prepare = (\<lambda>_. prepare_fn),
      pt_commit = (\<lambda>_. commit_fn), pt_rollback = (\<lambda>_. rollback_fn)\<rparr>"

text \<open>
  The coordinator: its backend, the JSON codecs of log and state entries, the clock, and the JSON
  value \<^verbatim>\<open>{"phase": "begin"}\<close>.
\<close>

record ('b, 'w, 'j) TwoPhaseCommit =
  tp_backend :: "'b state_backend"
  tp_entry_codec :: "'j entry_codec"
  tp_log_to_vec :: "'j TransactionLog \<Rightarrow> string + string"
  tp_log_from_slice :: "string \<Rightarrow> string + 'j TransactionLog"
  tp_now :: "'w \<Rightarrow> string"
  tp_begin_metadata :: 'j

type_synonym ('s, 'a) action = "'s \<Rightarrow> 's \<times> (string + 'a)"

definition andThen :: "('s, 'a) action \<Rightarrow> ('a \<Rightarrow> ('s, 'c) action) \<Rightarrow> ('s, 'c) action" where
  "andThen m f s = (case m s of (s', Inl e) \<Rightarrow> (s', Inl e) | (s', Inr a) \<Rightarrow> f a s')"

definition on_backend :: "('b, 'a) action \<Rightarrow> ('b \<times> 'w, 'a) action" where
  "on_backend m s = (case m (fst s) of (b', res) \<Rightarrow> ((b', snd s), res))"

section \<open>The transaction log\<close>

definition log_key :: "string \<Rightarrow> string" where
  "log_key transaction_id = ''2pc:tx:'' @ transaction_id"

definition save_log :: "('b, 'w, 'j) TwoPhaseCommit \<Rightarrow> 'j TransactionLog \<Rightarrow> ('b \<times> 'w, unit) action" where
  "save_log T log s = (case tp_log_to_vec T log of
     Inl e \<Rightarrow> (s, Inl e)
   | Inr data \<Rightarrow> on_backend (be_save (tp_backend T) (log_key (tl_transaction_id log)) data) s)"

definition load_log :: "('b, 'w, 'j) TwoPhaseCommit \<Rightarrow> string \<Rightarrow> 'b \<times> 'w \<Rightarrow> string + 'j TransactionLog option" where
  "load_log T transaction_id s = (case be_load (tp_backend T) (log_key transaction_id) (fst s) of
     Inl e \<Rightarrow> Inl e
   | Inr None \<Rightarrow> Inr None
   | Inr (Some data) \<Rightarrow> (case tp_log_from_slice T data of Inl e \<Rightarrow> Inl e | Inr log \<Rightarrow> Inr (Some log)))"

definition update_status ::
  "('b, 'w, 'j) TwoPhaseCommit \<Rightarrow> string \<Rightarrow> CommitStatus \<Rightarrow> ('b \<times> 'w, 'j TransactionLog) action" where
  "update_status T transaction_id status s = (case load_log T transaction_id s of
     Inl e \<Rightarrow> (s, Inl e)
   | Inr None \<Rightarrow> (s, Inl (''Transaction not found: '' @ transaction_id))
   | Inr (Some log) \<Rightarrow>
       (let log' = log\<lparr>tl_status := status_as_str status, tl_updated_at := tp_now T (snd s)\<rparr>
        in andThen (save_log T log') (\<lambda>_ s. (s, Inr log')) s))"

section \<open>Phases\<close>

text \<open>The loop of \<^verbatim>\<open>prepare_phase\<close>: the votes so far, and whether it ended early.\<close>

fun prepare_votes :: "string \<Rightarrow> 'w Participant list \<Rightarrow> 'w \<Rightarrow> 'w \<times> VoteResult list \<times> bool" where
  "prepare_votes transaction_id [] w = (w, [], True)"
| "prepare_votes transaction_id (p # ps) w = (case pt_prepare p transaction_id w of
     (w', Inr _) \<Rightarrow>
       (let (w'', votes, completed) = prepare_votes transaction_id ps w'
        in (w'', \<lparr>vr_participant_id = pt_id p, vr_vote = True, vr_reason = None\<rparr> # votes, completed))
   | (w', Inl e) \<Rightarrow> (w', [\<lparr>vr_participant_id = pt_id p, vr_vote = False, vr_reason = Some e\<rparr>], False))"

definition prepare_phase ::
  "('b, 'w, 'j) TwoPhaseCommit \<Rightarrow> string \<Rightarrow> 'w Participant list \<Rightarrow> ('b \<times> 'w, VoteResult list) action" where
  "prepare_phase T transaction_id participants =
     andThen (update_status T transaction_id TsPreparing) (\<lambda>_ s.
       (let (w', votes, completed) = prepare_votes transaction_id participants (snd s); s' = (fst s, w')
        in if completed
           then andThen (update_status T transaction_id TsPrepared) (\<lambda>_ s. (s, Inr votes)) s'
           else (s', Inr votes)))"

fun commit_round ::
  "string \<Rightarrow> bool \<Rightarrow> 'w Participant list \<Rightarrow> 'w \<Rightarrow> 'w \<times> ParticipantCommitResult list \<times> 'w Participant list" where
  "commit_round transaction_id retry [] w = (w, [], [])"
| "commit_round transaction_id retry (p # ps) w = (case pt_commit p transaction_id w of
     (w', Inr _) \<Rightarrow>
       (let (w'', results, next_pending) = commit_round transaction_id retry ps w'
        in (w'', \<lparr>cr_participant_id = pt_id p, cr_committed = True, cr_error = None\<rparr> # results, next_pending))
   | (w', Inl e) \<Rightarrow>
       (let (w'', results, next_pending) = commit_round transaction_id retry ps w'
        in if retry then (w'', results, p # next_pending)
           else (w'', \<lparr>cr_participant_id = pt_id p, cr_committed = False, cr_error = Some e\<rparr> # results,
                 next_pending)))"

fun commit_attempts ::
  "string \<Rightarrow> nat \<Rightarrow> nat list \<Rightarrow> ParticipantCommitResult list \<Rightarrow> 'w Participant list \<Rightarrow> 'w \<Rightarrow>
     'w \<times> ParticipantCommitResult list" where
  "commit_attempts transaction_id max_retries [] results pending w = (w, results)"
| "commit_attempts transaction_id max_retries (attempt # attempts) results pending w =
     (let (w', new_results, next_pending) = commit_round transaction_id (attempt < max_retries) pending w
      in if next_pending = [] then (w', results @ new_results)
         else commit_attempts transaction_id max_retries attempts (results @ new_results) next_pending w')"

definition commit_phase ::
  "string \<Rightarrow> 'w Participant list \<Rightarrow> nat \<Rightarrow> 'w \<Rightarrow> 'w \<times> ParticipantCommitResult list" where
  "commit_phase transaction_id participants max_retries w =
     commit_attempts transaction_id max_retries [0..<Suc max_retries] [] participants w"

fun rollback_errors :: "string \<Rightarrow> 'w Participant list \<Rightarrow> 'w \<Rightarrow> 'w \<times> string list" where
  "rollback_errors transaction_id [] w = (w, [])"
| "rollback_errors transaction_id (p # ps) w =
     (let (w', res) = pt_rollback p transaction_id w; (w'', errors) = rollback_errors transaction_id ps w'
      in (w'', (case res of Inl e \<Rightarrow> (pt_id p @ '': '' @ e) # errors | Inr _ \<Rightarrow> errors)))"

definition join :: "string \<Rightarrow> string list \<Rightarrow> string" where
  "join sep xs = (case xs of [] \<Rightarrow> [] | x # xs \<Rightarrow> x @ concat (map (\<lambda>y. sep @ y) xs))"

definition rollback_phase :: "string \<Rightarrow> 'w Participant list \<Rightarrow> ('b \<times> 'w, unit) action" where
  "rollback_phase transaction_id participants s =
     (let (w', errors) = rollback_errors transaction_id participants (snd s)
      in ((fst s, w'), if errors = [] then Inr () else Inl (join ''; '' errors)))"

section \<open>The coordinator\<close>

definition participant_info :: "'w Participant \<Rightarrow> ParticipantInfo" where
  "participant_info p = \<lparr>pi_id = pt_id p, pi_name = pt_name p, pi_role = pt_role p\<rparr>"

definition all_committed :: "'w Participant list \<Rightarrow> ParticipantCommitResult list \<Rightarrow> bool" where
  "all_committed participants results \<longleftrightarrow>
     participants = [] \<or> (results \<noteq> [] \<and> list_all cr_committed results)"

definition commit_failures :: "ParticipantCommitResult list \<Rightarrow> string list" where
  "commit_failures results = map (\<lambda>r. cr_participant_id r @ '': '' @ unwrap_or ''unknown'' (cr_error r))
     (filter (\<lambda>r. \<not> cr_committed r) results)"

definition rejections :: "VoteResult list \<Rightarrow> string list" where
  "rejections votes = List.map_filter (\<lambda>v. if \<not> vr_vote v
     then Some (vr_participant_id v @ '': '' @ unwrap_or ''no reason'' (vr_reason v)) else None) votes"

text \<open>An effect whose result the program discards.\<close>

definition discard :: "('s, 'a) action \<Rightarrow> 's \<Rightarrow> 's" where
  "discard m s = fst (m s)"

definition state_transition ::
  "('b, 'w, 'j) TwoPhaseCommit \<Rightarrow> string \<Rightarrow> StateTransition \<Rightarrow> ('b \<times> 'w, 'j StateEntry) action" where
  "state_transition T transaction_id to =
     on_backend (transition (tp_backend T) (tp_entry_codec T) (\<lambda>_ b. b) (''2pc_'' @ transaction_id) to)"

definition execute_commit ::
  "('b, 'w, 'j) TwoPhaseCommit \<Rightarrow> string \<Rightarrow> 'w Participant list \<Rightarrow> ('b \<times> 'w, 'j TransactionLog) action" where
  "execute_commit T transaction_id participants =
     andThen (update_status T transaction_id TsCommitting) (\<lambda>_ s.
       (let (w', results) = commit_phase transaction_id participants 2 (snd s); s' = (fst s, w')
        in if all_committed participants results
           then andThen (update_status T transaction_id TsCommitted) (\<lambda>log s.
                  (discard (state_transition T transaction_id Completed) s, Inr log)) s'
           else andThen (update_status T transaction_id TsRollingBack) (\<lambda>_ s.
                  andThen (update_status T transaction_id (if list_ex cr_committed results then TsMixed else TsRolledBack))
                    (\<lambda>log s. (discard (state_transition T transaction_id Failed) s,
                       Inl (''Commit phase failed: '' @ join ''; '' (commit_failures results) @
                            ''. Status: '' @ tl_status log)))
                    (discard (rollback_phase transaction_id participants) s)) s'))"

definition execute_abort ::
  "('b, 'w, 'j) TwoPhaseCommit \<Rightarrow> string \<Rightarrow> 'w Participant list \<Rightarrow> VoteResult list \<Rightarrow>
     ('b \<times> 'w, 'j TransactionLog) action" where
  "execute_abort T transaction_id participants votes =
     andThen (update_status T transaction_id TsRollingBack) (\<lambda>_ s.
       andThen (update_status T transaction_id TsRolledBack)
         (\<lambda>log s. (discard (state_transition T transaction_id Failed) s,
            Inl (''Prepare phase failed: participants did not agree. Rejections: ['' @
                 join '', '' (rejections votes) @ '']. Status: '' @ tl_status log)))
         (discard (rollback_phase transaction_id participants) s))"

definition execute ::
  "('b, 'w, 'j) TwoPhaseCommit \<Rightarrow> string \<Rightarrow> 'w Participant list \<Rightarrow> 'j \<Rightarrow> ('b \<times> 'w, 'j TransactionLog) action" where
  "execute T transaction_id participants metadata s =
     andThen (save_log T (log_new (tp_now T (snd s)) transaction_id (map participant_info participants) metadata)) (\<lambda>_.
       andThen (on_backend (create_state (tp_backend T) (tp_entry_codec T) (''2pc_'' @ transaction_id) (tp_begin_metadata T))) (\<lambda>_.
         andThen (prepare_phase T transaction_id participants) (\<lambda>votes.
           if list_all vr_vote votes then execute_commit T transaction_id participants
           else execute_abort T transaction_id participants votes))) s"

definition recover_commit ::
  "('b, 'w, 'j) TwoPhaseCommit \<Rightarrow> string \<Rightarrow> 'w Participant list \<Rightarrow> ('b \<times> 'w, 'j TransactionLog) action" where
  "recover_commit T transaction_id participants s =
     (let (w', results) = commit_phase transaction_id participants 2 (snd s); s' = (fst s, w')
      in if all_committed participants results then update_status T transaction_id TsCommitted s'
         else andThen (rollback_phase transaction_id participants) (\<lambda>_.
                andThen (update_status T transaction_id (if list_ex cr_committed results then TsMixed else TsRolledBack))
                  (\<lambda>_ s. (s, Inl (''Recovery failed during commit: '' @ join ''; '' (commit_failures results))))) s')"

definition recover_rollback ::
  "('b, 'w, 'j) TwoPhaseCommit \<Rightarrow> string \<Rightarrow> 'w Participant list \<Rightarrow> ('b \<times> 'w, 'j TransactionLog) action" where
  "recover_rollback T transaction_id participants =
     andThen (rollback_phase transaction_id participants) (\<lambda>_. update_status T transaction_id TsRolledBack)"

definition recover ::
  "('b, 'w, 'j) TwoPhaseCommit \<Rightarrow> string \<Rightarrow> 'w Participant list \<Rightarrow> ('b \<times> 'w, 'j TransactionLog) action" where
  "recover T transaction_id participants s = (case load_log T transaction_id s of
     Inl e \<Rightarrow> (s, Inl e)
   | Inr None \<Rightarrow> (s, Inl (''No transaction log found for: '' @ transaction_id))
   | Inr (Some log) \<Rightarrow> (case status_from_str (tl_status log) of
       TsPreparing \<Rightarrow> recover_rollback T transaction_id participants s
     | TsPrepared \<Rightarrow> recover_rollback T transaction_id participants s
     | TsCommitting \<Rightarrow> recover_commit T transaction_id participants s
     | TsRollingBack \<Rightarrow> recover_rollback T transaction_id participants s
     | TsCommitted \<Rightarrow> (s, Inr log)
     | TsRolledBack \<Rightarrow> (s, Inr log)
     | TsMixed \<Rightarrow> (s, Inr log)
     | TsUnknown \<Rightarrow> (s, Inl (''Unknown transaction status for '' @ transaction_id @ '': cannot recover''))))"

end
