(* ===== verification/Two_Phase_Commit_Laws.thy ===== *)
theory Two_Phase_Commit_Laws
  imports Two_Phase_Commit "HOL-Library.Multiset"
begin

text \<open>
  Laws of the two-phase commit coordinator, stated over the calls that the participants receive: what
  success means, that nothing commits before every participant has prepared, that the recorded final
  status tells what happened, how often a commit is tried, and what becomes of the state entry.
\<close>

section \<open>Calls\<close>

datatype phase = Prepare | Commit | Rollback

type_synonym call = "string \<times> phase \<times> bool"

fun answered :: "string + unit \<Rightarrow> bool" where
  "answered (Inl _) = False"
| "answered (Inr _) = True"

text \<open>
  A world that records the calls made to participants: each call appends the participant, the phase
  and whether it succeeded.
\<close>

definition records_calls :: "('w \<Rightarrow> call list) \<Rightarrow> string \<Rightarrow> 'w Participant list \<Rightarrow> bool" where
  "records_calls calls tid ps \<longleftrightarrow> (\<forall>p\<in>set ps. \<forall>w.
     calls (fst (pt_prepare p tid w)) = calls w @ [(pt_id p, Prepare, answered (snd (pt_prepare p tid w)))] \<and>
     calls (fst (pt_commit p tid w)) = calls w @ [(pt_id p, Commit, answered (snd (pt_commit p tid w)))] \<and>
     calls (fst (pt_rollback p tid w)) = calls w @ [(pt_id p, Rollback, answered (snd (pt_rollback p tid w)))])"

definition in_phase :: "phase \<Rightarrow> call list \<Rightarrow> bool" where
  "in_phase ph cs \<longleftrightarrow> (\<forall>c\<in>set cs. fst (snd c) = ph)"

definition calls_to :: "string \<Rightarrow> call list \<Rightarrow> nat" where
  "calls_to i cs = length (filter (\<lambda>c. fst c = i) cs)"

lemma in_phase_simps [simp]:
  "in_phase ph []" "in_phase ph (c # cs) \<longleftrightarrow> fst (snd c) = ph \<and> in_phase ph cs"
  "in_phase ph (cs @ ds) \<longleftrightarrow> in_phase ph cs \<and> in_phase ph ds"
  by (auto simp: in_phase_def)

lemma in_phaseD: "in_phase ph cs \<Longrightarrow> (i, ph', b) \<in> set cs \<Longrightarrow> ph' = ph"
  by (force simp: in_phase_def)

lemma calls_to_simps [simp]:
  "calls_to i [] = 0" "calls_to i (c # cs) = (if fst c = i then Suc (calls_to i cs) else calls_to i cs)"
  "calls_to i (cs @ ds) = calls_to i cs + calls_to i ds"
  by (simp_all add: calls_to_def)

lemma records_callsD:
  assumes "records_calls calls tid ps" and "p \<in> set ps"
  shows "pt_prepare p tid w = (w', r) \<Longrightarrow> calls w' = calls w @ [(pt_id p, Prepare, answered r)]"
    and "pt_commit p tid w = (w', r) \<Longrightarrow> calls w' = calls w @ [(pt_id p, Commit, answered r)]"
    and "pt_rollback p tid w = (w', r) \<Longrightarrow> calls w' = calls w @ [(pt_id p, Rollback, answered r)]"
  using assms unfolding records_calls_def by (metis fst_conv snd_conv)+

lemma records_calls_subset: "records_calls calls tid ps \<Longrightarrow> set qs \<subseteq> set ps \<Longrightarrow> records_calls calls tid qs"
  by (auto simp: records_calls_def)

lemma prepare_votes_calls:
  assumes "records_calls calls tid ps" and "prepare_votes tid ps w = (w', votes, completed)"
  shows "\<exists>new. calls w' = calls w @ new \<and> in_phase Prepare new \<and> completed = list_all vr_vote votes \<and>
    (completed \<longrightarrow> (\<forall>p\<in>set ps. (pt_id p, Prepare, True) \<in> set new))"
  using assms
proof (induction ps arbitrary: w w' votes completed)
  case (Cons p ps)
  obtain w1 r where c: "pt_prepare p tid w = (w1, r)" by fastforce
  note call = records_callsD(1) [OF Cons.prems(1) list.set_intros(1) c]
  show ?case
  proof (cases r)
    case (Inl e)
    then show ?thesis using Cons.prems(2) call by (auto simp: c)
  next
    case (Inr u)
    obtain w2 vs d where v: "prepare_votes tid ps w1 = (w2, vs, d)" by (cases "prepare_votes tid ps w1") auto
    have "records_calls calls tid ps" using Cons.prems(1) by (rule records_calls_subset) auto
    from Cons.IH [OF this v] obtain new where "calls w2 = calls w1 @ new" "in_phase Prepare new" "d = list_all vr_vote vs"
      "d \<longrightarrow> (\<forall>p\<in>set ps. (pt_id p, Prepare, True) \<in> set new)" by blast
    then show ?thesis using Cons.prems(2) call Inr
      by (intro exI [of _ "(pt_id p, Prepare, True) # new"]) (auto simp: c v)
  qed
qed simp

definition committed_ids :: "ParticipantCommitResult list \<Rightarrow> string set" where
  "committed_ids results = {cr_participant_id r | r. r \<in> set results \<and> cr_committed r}"

lemma committed_ids_simps [simp]:
  "committed_ids [] = {}"
  "committed_ids (r # rs) = (if cr_committed r then insert (cr_participant_id r) (committed_ids rs) else committed_ids rs)"
  "committed_ids (rs @ ss) = committed_ids rs \<union> committed_ids ss"
  by (auto simp: committed_ids_def)

lemma commit_round_calls:
  assumes "records_calls calls tid ps" and "commit_round tid retry ps w = (w', results, pending)"
  shows "\<exists>new. calls w' = calls w @ new \<and> in_phase Commit new \<and>
    {i. (i, Commit, True) \<in> set new} = committed_ids results \<and>
    (\<forall>i. calls_to i new = count_list (map pt_id ps) i \<and> count_list (map pt_id pending) i \<le> count_list (map pt_id ps) i) \<and>
    set pending \<subseteq> set ps \<and> (retry \<or> pending = []) \<and>
    mset (map cr_participant_id results) + mset (map pt_id pending) = mset (map pt_id ps)"
  using assms
proof (induction ps arbitrary: w w' results pending)
  case (Cons p ps)
  obtain w1 r where c: "pt_commit p tid w = (w1, r)" by fastforce
  note call = records_callsD(2) [OF Cons.prems(1) list.set_intros(1) c]
  obtain w2 rs nx where v: "commit_round tid retry ps w1 = (w2, rs, nx)" by (cases "commit_round tid retry ps w1") auto
  have "records_calls calls tid ps" using Cons.prems(1) by (rule records_calls_subset) auto
  from Cons.IH [OF this v] obtain new where new: "calls w2 = calls w1 @ new" "in_phase Commit new"
    "{i. (i, Commit, True) \<in> set new} = committed_ids rs"
    "\<forall>i. calls_to i new = count_list (map pt_id ps) i \<and> count_list (map pt_id nx) i \<le> count_list (map pt_id ps) i"
    "set nx \<subseteq> set ps" "retry \<or> nx = []" "mset (map cr_participant_id rs) + mset (map pt_id nx) = mset (map pt_id ps)"
    by blast
  show ?case
  proof (cases r)
    case (Inl e)
    then show ?thesis using Cons.prems(2) call new
      by (intro exI [of _ "(pt_id p, Commit, False) # new"]) (auto simp: c v le_SucI split: if_splits)
  next
    case (Inr u)
    have "{i. (i, Commit, True) \<in> set ((pt_id p, Commit, True) # new)} = insert (pt_id p) (committed_ids rs)"
      using new(3) by auto
    then show ?thesis using Cons.prems(2) call new Inr
      by (intro exI [of _ "(pt_id p, Commit, True) # new"]) (auto simp: c v le_SucI)
  qed
qed simp
lemma commit_attempts_calls:
  assumes "records_calls calls tid pending" and "attempts \<noteq> []" and "last attempts = max_retries"
    and "commit_attempts tid max_retries attempts results pending w = (w', results')"
  shows "\<exists>new more. calls w' = calls w @ new \<and> results' = results @ more \<and> in_phase Commit new \<and>
    {i. (i, Commit, True) \<in> set new} = committed_ids more \<and>
    (\<forall>i. calls_to i new \<le> length attempts * count_list (map pt_id pending) i) \<and>
    mset (map cr_participant_id more) = mset (map pt_id pending)"
  using assms
proof (induction attempts arbitrary: pending results w)
  case (Cons a attempts)
  obtain w1 rs nx where r: "commit_round tid (a < max_retries) pending w = (w1, rs, nx)"
    by (cases "commit_round tid (a < max_retries) pending w") auto
  from commit_round_calls [OF Cons.prems(1) r] obtain new where new: "calls w1 = calls w @ new" "in_phase Commit new"
    "{i. (i, Commit, True) \<in> set new} = committed_ids rs"
    "\<forall>i. calls_to i new = count_list (map pt_id pending) i \<and> count_list (map pt_id nx) i \<le> count_list (map pt_id pending) i"
    "set nx \<subseteq> set pending" "a < max_retries \<or> nx = []"
    "mset (map cr_participant_id rs) + mset (map pt_id nx) = mset (map pt_id pending)" by blast
  show ?case
  proof (cases "nx = []")
    case True
    then show ?thesis using Cons.prems(4) new by (intro exI [of _ new] exI [of _ rs]) (auto simp: r)
  next
    case False
    then have a: "attempts \<noteq> []" "last attempts = max_retries" using new(6) Cons.prems(3) by (auto split: if_splits)
    have rec: "commit_attempts tid max_retries attempts (results @ rs) nx w1 = (w', results')"
      using Cons.prems(4) False by (simp add: r)
    from Cons.IH [OF records_calls_subset [OF Cons.prems(1) new(5)] a rec] obtain new' more where
      new': "calls w' = calls w1 @ new'" "results' = (results @ rs) @ more" "in_phase Commit new'"
      "{i. (i, Commit, True) \<in> set new'} = committed_ids more"
      "\<forall>i. calls_to i new' \<le> length attempts * count_list (map pt_id nx) i"
      "mset (map cr_participant_id more) = mset (map pt_id nx)" by blast
    have bound: "calls_to i (new @ new') \<le> length (a # attempts) * count_list (map pt_id pending) i" for i
    proof -
      have "calls_to i new' \<le> length attempts * count_list (map pt_id pending) i"
        using new'(5) new(4) by (meson le_trans mult_le_mono2)
      then show ?thesis using new(4) by simp
    qed
    show ?thesis
      by (intro exI [of _ "new @ new'"] exI [of _ "rs @ more"] conjI)
        (use new new' bound in \<open>auto simp flip: new(7) simp: Collect_disj_eq\<close>)
  qed
qed simp

lemma commit_phase_calls:
  assumes "records_calls calls tid ps" and "commit_phase tid ps n w = (w', results)"
  shows "\<exists>new. calls w' = calls w @ new \<and> in_phase Commit new \<and> {i. (i, Commit, True) \<in> set new} = committed_ids results \<and>
    (\<forall>i. calls_to i new \<le> Suc n * count_list (map pt_id ps) i) \<and>
    mset (map cr_participant_id results) = mset (map pt_id ps)"
proof -
  obtain new where "calls w' = calls w @ new" "in_phase Commit new" "{i. (i, Commit, True) \<in> set new} = committed_ids results"
    "\<forall>i. calls_to i new \<le> length [0..<Suc n] * count_list (map pt_id ps) i"
    "mset (map cr_participant_id results) = mset (map pt_id ps)"
    using commit_attempts_calls [OF assms(1) _ _ assms(2) [unfolded commit_phase_def]] by auto
  then show ?thesis by auto
qed

lemma rollback_errors_calls:
  assumes "records_calls calls tid ps" and "rollback_errors tid ps w = (w', errors)"
  shows "\<exists>new. calls w' = calls w @ new \<and> in_phase Rollback new \<and> fst ` set new = pt_id ` set ps"
  using assms
proof (induction ps arbitrary: w w' errors)
  case (Cons p ps)
  obtain w1 r where c: "pt_rollback p tid w = (w1, r)" by fastforce
  note call = records_callsD(3) [OF Cons.prems(1) list.set_intros(1) c]
  obtain w2 es where v: "rollback_errors tid ps w1 = (w2, es)" by fastforce
  have "records_calls calls tid ps" using Cons.prems(1) by (rule records_calls_subset) auto
  from Cons.IH [OF this v] obtain new where "calls w2 = calls w1 @ new" "in_phase Rollback new" "fst ` set new = pt_id ` set ps"
    by blast
  then show ?case using Cons.prems(2) call
    by (intro exI [of _ "(pt_id p, Rollback, answered r) # new"]) (auto simp: c v)
qed simp

section \<open>Actions\<close>

lemma andThenE:
  assumes "andThen m f s = (s2, res)"
  obtains e where "m s = (s2, Inl e)" and "res = Inl e"
  | s1 a where "m s = (s1, Inr a)" and "f a s1 = (s2, res)"
  using assms by (auto simp: andThen_def split: prod.splits sum.splits)

lemma on_backend_world: "on_backend m s = (s', res) \<Longrightarrow> snd s' = snd s"
  by (auto simp: on_backend_def split: prod.splits)

lemma save_log_world: "save_log T log s = (s', res) \<Longrightarrow> snd s' = snd s"
  by (auto simp: save_log_def dest: on_backend_world split: sum.splits)

lemma update_status_world: "update_status T tid st s = (s', res) \<Longrightarrow> snd s' = snd s"
  by (auto simp: update_status_def Let_def dest: save_log_world elim!: andThenE split: sum.splits option.splits)

lemma update_status_status: "update_status T tid st s = (s', Inr log) \<Longrightarrow> tl_status log = status_as_str st"
  by (auto simp: update_status_def Let_def elim!: andThenE split: sum.splits option.splits)

lemma state_transition_world [simp]: "snd (discard (state_transition T tid to) s) = snd s"
  using on_backend_world unfolding discard_def state_transition_def by (metis prod.collapse)

lemma rollback_phase_calls:
  assumes "records_calls calls tid ps"
  shows "\<exists>new. calls (snd (fst (rollback_phase tid ps s))) = calls (snd s) @ new \<and> in_phase Rollback new \<and>
    fst ` set new = pt_id ` set ps"
proof -
  obtain w' es where "rollback_errors tid ps (snd s) = (w', es)" by fastforce
  then show ?thesis using rollback_errors_calls [OF assms] by (auto simp: rollback_phase_def)
qed

lemma prepare_phase_calls:
  assumes rec: "records_calls calls tid ps" and p: "prepare_phase T tid ps s = (s', res)"
  shows "\<exists>new. calls (snd s') = calls (snd s) @ new \<and> in_phase Prepare new \<and>
    (\<forall>votes. res = Inr votes \<longrightarrow> list_all vr_vote votes \<longrightarrow> (\<forall>p\<in>set ps. (pt_id p, Prepare, True) \<in> set new))"
  using p unfolding prepare_phase_def
proof (rule andThenE)
  fix e assume "update_status T tid TsPreparing s = (s', Inl e)" "res = Inl e"
  then show ?thesis by (intro exI [of _ "[]"]) (simp add: update_status_world)
next
  fix s1 log
  assume u: "update_status T tid TsPreparing s = (s1, Inr log)"
    and rest: "(let (w', votes, completed) = prepare_votes tid ps (snd s1); s' = (fst s1, w')
      in if completed then andThen (update_status T tid TsPrepared) (\<lambda>_ s. (s, Inr votes)) s' else (s', Inr votes)) = (s', res)"
  obtain w' votes completed where v: "prepare_votes tid ps (snd s1) = (w', votes, completed)"
    by (cases "prepare_votes tid ps (snd s1)") auto
  from prepare_votes_calls [OF rec v] obtain new where new: "calls w' = calls (snd s1) @ new" "in_phase Prepare new"
    "completed = list_all vr_vote votes" "completed \<longrightarrow> (\<forall>p\<in>set ps. (pt_id p, Prepare, True) \<in> set new)" by blast
  have "snd s' = w'" and "\<And>vs. res = Inr vs \<Longrightarrow> vs = votes"
    using rest by (auto simp: v Let_def elim!: andThenE dest: update_status_world split: if_splits)
  then show ?thesis using new update_status_world [OF u] by (intro exI [of _ new]) auto
qed

lemma execute_abort_calls:
  assumes rec: "records_calls calls tid ps" and x: "execute_abort T tid ps votes s = (s', res)"
  shows "\<exists>rb. calls (snd s') = calls (snd s) @ rb \<and> in_phase Rollback rb \<and> (\<exists>e. res = Inl e)"
  using x unfolding execute_abort_def
proof (rule andThenE)
  fix e assume "update_status T tid TsRollingBack s = (s', Inl e)" "res = Inl e"
  then show ?thesis by (intro exI [of _ "[]"]) (simp add: update_status_world)
next
  fix s1 log
  assume u: "update_status T tid TsRollingBack s = (s1, Inr log)"
    and rest: "andThen (update_status T tid TsRolledBack)
         (\<lambda>log s. (discard (state_transition T tid Failed) s,
            Inl (''Prepare phase failed: participants did not agree. Rejections: ['' @
                 join '', '' (rejections votes) @ '']. Status: '' @ tl_status log)))
         (discard (rollback_phase tid ps) s1) = (s', res)"
  obtain rb where "calls (snd (discard (rollback_phase tid ps) s1)) = calls (snd s1) @ rb" "in_phase Rollback rb"
    using rollback_phase_calls [OF rec] unfolding discard_def by blast
  moreover have "snd s' = snd (discard (rollback_phase tid ps) s1)" "\<exists>e. res = Inl e"
    using rest by (auto elim!: andThenE dest: update_status_world)
  ultimately show ?thesis using update_status_world [OF u] by auto
qed

lemma Suc_2_3: "Suc 2 = 3"
  by simp

lemma all_committed_ids:
  assumes "mset (map cr_participant_id results) = mset (map pt_id ps)" and "all_committed ps results" and "p \<in> set ps"
  shows "pt_id p \<in> committed_ids results"
proof -
  have "pt_id p \<in> cr_participant_id ` set results"
    using assms(3) mset_eq_setD [OF assms(1)] by auto
  then show ?thesis using assms(2,3) by (auto simp: all_committed_def list_all_iff committed_ids_def)
qed

text \<open>What committing does after the votes: the results of the commit calls, and the final status it writes.\<close>

lemma execute_commit_calls:
  assumes rec: "records_calls calls tid ps" and x: "execute_commit T tid ps s = (s', res)"
  shows "\<exists>cm rb. calls (snd s') = calls (snd s) @ cm @ rb \<and> in_phase Commit cm \<and> in_phase Rollback rb \<and>
    (\<forall>i. calls_to i cm \<le> 3 * count_list (map pt_id ps) i) \<and>
    (\<forall>log. res = Inr log \<longrightarrow> rb = [] \<and> tl_status log = ''committed'' \<and> (\<forall>p\<in>set ps. (pt_id p, Commit, True) \<in> set cm))"
  using x unfolding execute_commit_def
proof (rule andThenE)
  fix e assume "update_status T tid TsCommitting s = (s', Inl e)" "res = Inl e"
  then show ?thesis by (intro exI [of _ "[]"]) (simp add: update_status_world)
next
  fix s1 log
  let ?mixed = "\<lambda>results. if list_ex cr_committed results then TsMixed else TsRolledBack"
  let ?fail = "\<lambda>results log s. (discard (state_transition T tid Failed) s,
     Inl (''Commit phase failed: '' @ join ''; '' (commit_failures results) @ ''. Status: '' @ tl_status log))"
  assume u: "update_status T tid TsCommitting s = (s1, Inr log)"
    and rest: "(let (w', results) = commit_phase tid ps 2 (snd s1); s' = (fst s1, w')
      in if all_committed ps results
         then andThen (update_status T tid TsCommitted) (\<lambda>log s.
                (discard (state_transition T tid Completed) s, Inr log)) s'
         else andThen (update_status T tid TsRollingBack) (\<lambda>_ s.
                andThen (update_status T tid (?mixed results)) (?fail results)
                  (discard (rollback_phase tid ps) s)) s') = (s', res)"
  obtain w' results where c: "commit_phase tid ps 2 (snd s1) = (w', results)" by fastforce
  from commit_phase_calls [OF rec c] obtain cm where cm: "calls w' = calls (snd s1) @ cm" "in_phase Commit cm"
    "{i. (i, Commit, True) \<in> set cm} = committed_ids results" "\<forall>i. calls_to i cm \<le> Suc 2 * count_list (map pt_id ps) i"
    "mset (map cr_participant_id results) = mset (map pt_id ps)" by blast
  have cm3: "\<forall>i. calls_to i cm \<le> 3 * count_list (map pt_id ps) i" using cm(4) unfolding Suc_2_3 .
  note w = update_status_world [OF u]
  show ?thesis
  proof (cases "all_committed ps results")
    case True
    have "snd s' = w'" and "\<And>l. res = Inr l \<Longrightarrow> tl_status l = ''committed''"
      using rest True
      by (auto simp: c Let_def status_as_str_def elim!: andThenE dest: update_status_world update_status_status)
    moreover have "\<forall>p\<in>set ps. (pt_id p, Commit, True) \<in> set cm"
      using all_committed_ids [OF cm(5) True] cm(3) by blast
    ultimately show ?thesis using cm cm3 w by (intro exI [of _ cm] exI [of _ "[]"]) simp
  next
    case False
    then have "andThen (update_status T tid TsRollingBack) (\<lambda>_ s.
        andThen (update_status T tid (?mixed results)) (?fail results) (discard (rollback_phase tid ps) s)) (fst s1, w') = (s', res)"
      using rest by (simp add: c Let_def)
    then show ?thesis
    proof (rule andThenE)
      fix e assume u2: "update_status T tid TsRollingBack (fst s1, w') = (s', Inl e)" "res = Inl e"
      then show ?thesis using cm cm3 w update_status_world [OF u2(1)]
        by (intro exI [of _ cm] exI [of _ "[]"]) simp
    next
      fix s2 l
      assume u2: "update_status T tid TsRollingBack (fst s1, w') = (s2, Inr l)"
        and fin: "andThen (update_status T tid (?mixed results)) (?fail results) (discard (rollback_phase tid ps) s2) = (s', res)"
      obtain rb where rb: "calls (snd (discard (rollback_phase tid ps) s2)) = calls (snd s2) @ rb" "in_phase Rollback rb"
        using rollback_phase_calls [OF rec] unfolding discard_def by blast
      have "snd s' = snd (discard (rollback_phase tid ps) s2)" "\<exists>e. res = Inl e"
        using fin by (auto elim!: andThenE dest: update_status_world)
      then show ?thesis using cm cm3 w update_status_world [OF u2] rb
        by (intro exI [of _ cm] exI [of _ rb]) auto
    qed
  qed
qed

lemma execute_cases:
  assumes x: "execute T tid ps md s = (s', res)"
  shows "(\<exists>e. snd s' = snd s \<and> res = Inl e) \<or> (\<exists>s1. snd s1 = snd s \<and>
    andThen (prepare_phase T tid ps) (\<lambda>votes. if list_all vr_vote votes then execute_commit T tid ps
        else execute_abort T tid ps votes) s1 = (s', res))"
proof -
  obtain sa ra where a: "save_log T (log_new (tp_now T (snd s)) tid (map participant_info ps) md) s = (sa, ra)"
    by fastforce
  obtain sb rb where b: "on_backend (create_state (tp_backend T) (tp_entry_codec T) (''2pc_'' @ tid) (tp_begin_metadata T)) sa = (sb, rb)"
    by fastforce
  note w = save_log_world [OF a] on_backend_world [OF b]
  show ?thesis
  proof (cases ra)
    case (Inl e)
    then show ?thesis using x a w by (auto simp: execute_def andThen_def)
  next
    case ra: (Inr u)
    show ?thesis
    proof (cases rb)
      case (Inl e)
      then show ?thesis using x a b ra w by (auto simp: execute_def andThen_def)
    next
      case (Inr v)
      then have "execute T tid ps md s = andThen (prepare_phase T tid ps) (\<lambda>votes. if list_all vr_vote votes
          then execute_commit T tid ps else execute_abort T tid ps votes) sb"
        by (simp add: execute_def andThen_def a b [simplified] ra)
      then have "andThen (prepare_phase T tid ps) (\<lambda>votes. if list_all vr_vote votes
          then execute_commit T tid ps else execute_abort T tid ps votes) sb = (s', res)" using x by simp
      moreover have "snd sb = snd s" using w by simp
      ultimately show ?thesis by blast
    qed
  qed
qed

lemma execute_calls:
  assumes rec: "records_calls calls tid ps" and x: "execute T tid ps md s = (s', res)"
  shows "\<exists>pr cm rb. calls (snd s') = calls (snd s) @ pr @ cm @ rb \<and>
    in_phase Prepare pr \<and> in_phase Commit cm \<and> in_phase Rollback rb \<and>
    (cm \<noteq> [] \<or> (\<exists>log. res = Inr log) \<longrightarrow> (\<forall>p\<in>set ps. (pt_id p, Prepare, True) \<in> set pr)) \<and>
    (\<forall>i. calls_to i cm \<le> 3 * count_list (map pt_id ps) i) \<and>
    (\<forall>log. res = Inr log \<longrightarrow> rb = [] \<and> tl_status log = ''committed'' \<and> (\<forall>p\<in>set ps. (pt_id p, Commit, True) \<in> set cm))"
proof -
  have early: ?thesis if "snd s' = snd s" "res = Inl e" for e
    using that by (intro exI [of _ "[]"]) simp
  obtain s1 where s1: "snd s1 = snd s" and r: "(\<exists>e. snd s' = snd s \<and> res = Inl e) \<or>
      andThen (prepare_phase T tid ps) (\<lambda>votes. if list_all vr_vote votes then execute_commit T tid ps
        else execute_abort T tid ps votes) s1 = (s', res)"
    using execute_cases [OF x] by blast
  show ?thesis
  proof (cases "\<exists>e. snd s' = snd s \<and> res = Inl e")
    case False
    then have "andThen (prepare_phase T tid ps) (\<lambda>votes. if list_all vr_vote votes then execute_commit T tid ps
        else execute_abort T tid ps votes) s1 = (s', res)" using r by blast
    then show ?thesis
    proof (rule andThenE)
      fix e assume p: "prepare_phase T tid ps s1 = (s', Inl e)" "res = Inl e"
      then show ?thesis using prepare_phase_calls [OF rec p(1)] s1
        by (metis append_Nil2 calls_to_simps(1) in_phase_simps(1) old.sum.distinct(2) zero_le)
    next
      fix s2 votes
      assume p: "prepare_phase T tid ps s1 = (s2, Inr votes)"
        and rest: "(if list_all vr_vote votes then execute_commit T tid ps else execute_abort T tid ps votes) s2 = (s', res)"
      obtain pr where pr: "calls (snd s2) = calls (snd s1) @ pr" "in_phase Prepare pr"
        "list_all vr_vote votes \<longrightarrow> (\<forall>p\<in>set ps. (pt_id p, Prepare, True) \<in> set pr)"
        using prepare_phase_calls [OF rec p] by blast
      show ?thesis
      proof (cases "list_all vr_vote votes")
        case True
        then obtain cm rb where "calls (snd s') = calls (snd s2) @ cm @ rb" "in_phase Commit cm" "in_phase Rollback rb"
          "\<forall>i. calls_to i cm \<le> 3 * count_list (map pt_id ps) i"
          "\<forall>log. res = Inr log \<longrightarrow> rb = [] \<and> tl_status log = ''committed'' \<and> (\<forall>p\<in>set ps. (pt_id p, Commit, True) \<in> set cm)"
          using execute_commit_calls [OF rec, of T s2 s' res] rest by auto
        then show ?thesis using pr True s1 by (intro exI [of _ pr] exI [of _ cm] exI [of _ rb]) simp
      next
        case False
        then obtain rb where "calls (snd s') = calls (snd s2) @ rb" "in_phase Rollback rb" "\<exists>e. res = Inl e"
          using execute_abort_calls [OF rec, of T votes s2 s' res] rest by auto
        then show ?thesis using pr s1 by (intro exI [of _ pr] exI [of _ "[]"] exI [of _ rb]) auto
      qed
    qed
  qed (use early in blast)
qed

text \<open>An action that keeps a property of the state, whatever it answers.\<close>

definition keeps :: "('s \<Rightarrow> bool) \<Rightarrow> ('s, 'a) action \<Rightarrow> bool" where
  "keeps P m \<longleftrightarrow> (\<forall>s. P s \<longrightarrow> P (fst (m s)))"

lemma keepsD: "keeps P m \<Longrightarrow> m s = (s', r) \<Longrightarrow> P s \<Longrightarrow> P s'"
  unfolding keeps_def by (metis fst_conv)

lemma keepsI: "(\<And>s. P s \<Longrightarrow> P (fst (m s))) \<Longrightarrow> keeps P m"
  by (simp add: keeps_def del: split_paired_All)

lemma keeps_result: "keeps P m \<Longrightarrow> P s \<Longrightarrow> P (fst (m s))"
  by (simp add: keeps_def del: split_paired_All)

lemma keeps_after: "keeps P m \<Longrightarrow> (\<And>s. P s \<Longrightarrow> P (g s)) \<Longrightarrow> keeps P (\<lambda>s. m (g s))"
  by (simp add: keeps_def del: split_paired_All)

lemma keeps_if: "keeps P m \<Longrightarrow> keeps P m' \<Longrightarrow> keeps P (\<lambda>s. if c then m s else m' s)"
  by (simp add: keeps_def)

lemma keeps_world:
  assumes "\<And>s w. P s \<Longrightarrow> P (fst s, w)" and "\<And>x. keeps P (k x)"
  shows "keeps P (\<lambda>s. let (w', x) = f (snd s); s' = (fst s, w') in k x s')"
  by (rule keepsI) (use assms in \<open>auto simp: Let_def split_def intro: keeps_result\<close>)

lemma keeps_world_pair:
  assumes "\<And>s w. P s \<Longrightarrow> P (fst s, w)" and "\<And>x y. keeps P (k x y)"
  shows "keeps P (\<lambda>s. let (w', x, y) = f (snd s); s' = (fst s, w') in k x y s')"
  by (rule keepsI) (use assms in \<open>auto simp: Let_def split_def intro: keeps_result\<close>)

lemma keeps_return: "keeps P (\<lambda>s. (s, r))"
  by (simp add: keeps_def)

lemma keeps_andThen: "keeps P m \<Longrightarrow> (\<And>a. keeps P (f a)) \<Longrightarrow> keeps P (andThen m f)"
  by (auto simp: keeps_def andThen_def split: prod.splits sum.splits)

section \<open>A coordinator over a working backend\<close>

text \<open>
  The contract under which the log is reliable: the backend keeps what is saved, log records survive
  being written and read, and state entries can be written.
\<close>

locale coordinator = kv_backend B for B :: "'b state_backend" +
  fixes T :: "('b, 'w, 'j) TwoPhaseCommit"
  assumes backend: "tp_backend T = B"
    and log_codec: "\<exists>d. tp_log_to_vec T l = Inr d \<and> tp_log_from_slice T d = Inr l"
    and entry_codec: "\<exists>d. to_vec (tp_entry_codec T) e = Inr d"
begin

definition has_log :: "string \<Rightarrow> 'b \<times> 'w \<Rightarrow> bool" where
  "has_log tid s \<longleftrightarrow> (\<exists>l. load_log T tid s = Inr (Some l) \<and> tl_transaction_id l = tid)"

lemma load_log_cong: "fst s = fst s' \<Longrightarrow> load_log T tid s = load_log T tid s'"
  by (simp add: load_log_def)

lemma has_log_cong: "fst s = fst s' \<Longrightarrow> has_log tid s = has_log tid s'"
  by (simp add: has_log_def load_log_cong [of s s'])

lemma save_log_ok:
  assumes "save_log T l s = (s', r)"
  shows "r = Inr () \<and> load_log T (tl_transaction_id l) s' = Inr (Some l)"
proof -
  obtain d where d: "tp_log_to_vec T l = Inr d" "tp_log_from_slice T d = Inr l" using log_codec by blast
  then have "s' = (fst (be_save B (log_key (tl_transaction_id l)) d (fst s)), snd s)"
      "r = snd (be_save B (log_key (tl_transaction_id l)) d (fst s))"
    using assms by (auto simp: save_log_def on_backend_def backend split: prod.splits)
  then show ?thesis using load_saved save_ok d(2) by (simp add: load_log_def backend)
qed

lemma update_ok:
  assumes "has_log tid s" and "update_status T tid st s = (s', r)"
  shows "has_log tid s' \<and> (\<exists>l. r = Inr l \<and> load_log T tid s' = Inr (Some l) \<and> tl_status l = status_as_str st)"
proof -
  obtain l where l: "load_log T tid s = Inr (Some l)" "tl_transaction_id l = tid" using assms(1) by (auto simp: has_log_def)
  let ?l = "l\<lparr>tl_status := status_as_str st, tl_updated_at := tp_now T (snd s)\<rparr>"
  have "andThen (save_log T ?l) (\<lambda>_ s. (s, Inr ?l)) s = (s', r)"
    using assms(2) l(1) by (simp add: update_status_def Let_def)
  then have "r = Inr ?l \<and> load_log T tid s' = Inr (Some ?l)"
    by (rule andThenE) (use save_log_ok l(2) in \<open>fastforce+\<close>)
  then show ?thesis using l(2) by (auto simp: has_log_def)
qed

lemma update_step:
  assumes "has_log tid s" and "andThen (update_status T tid st) f s = (s', res)"
  obtains s1 l where "f l s1 = (s', res)" and "has_log tid s1" and "load_log T tid s1 = Inr (Some l)"
    and "tl_status l = status_as_str st" and "snd s1 = snd s"
  using assms(2) by (rule andThenE) (use update_ok [OF assms(1)] update_status_world in \<open>blast+\<close>)

lemma keys_apart: "log_key tid \<noteq> STATE_KEY_PREFIX @ key"
  by (simp add: log_key_def STATE_KEY_PREFIX_def)

lemma create_log:
  assumes "on_backend (create_state (tp_backend T) (tp_entry_codec T) key md) s = (s', r)"
  shows "(\<exists>e. r = Inr e) \<and> load_log T tid s' = load_log T tid s"
proof -
  let ?e = "\<lparr>se_key = key, se_current_state = transition_as_str Created, se_version = 1, se_metadata = md\<rparr>"
  obtain d where d: "to_vec (tp_entry_codec T) ?e = Inr d" using entry_codec by blast
  have "s' = (fst (be_save B (STATE_KEY_PREFIX @ key) d (fst s)), snd s)" "r = Inr ?e"
    using assms d save_cases [of "STATE_KEY_PREFIX @ key" d "fst s"]
    by (auto simp: on_backend_def create_state_def Let_def backend split: prod.splits sum.splits)
  then show ?thesis using load_other [OF keys_apart] by (simp add: load_log_def backend)
qed

lemma swap_log:
  "be_load B (log_key tid) (fst (compare_and_swap_state B J key n e b)) = be_load B (log_key tid) b"
  using load_other_swap [OF keys_apart] by (auto simp: compare_and_swap_state_def Let_def split: sum.split)

lemma attempts_log:
  "be_load B (log_key tid) (fst (transition_attempts B J (\<lambda>_ b. b) key to attempts b)) = be_load B (log_key tid) b"
proof (induction attempts arbitrary: b)
  case (Cons a attempts)
  show ?case
  proof (cases "read_transition B J key to b")
    case (Inr e)
    obtain b' r where c: "compare_and_swap_state B J key (se_version e) (moved to e) b = (b', r)" by fastforce
    have same: "be_load B (log_key tid) b' = be_load B (log_key tid) b"
      using swap_log [of tid J key "se_version e" "moved to e" b] c by simp
    show ?thesis
    proof (cases r)
      case Inl
      then show ?thesis using same by (simp add: Inr c Let_def)
    next
      case r: (Inr ok)
      then show ?thesis using same Cons.IH [of b'] by (cases ok) (simp_all add: Inr c Let_def)
    qed
  qed simp
qed simp

lemma transition_log: "load_log T tid (discard (state_transition T tid' to) s) = load_log T tid s"
proof -
  have "fst (discard (state_transition T tid' to) s) =
      fst (transition_attempts B (tp_entry_codec T) (\<lambda>_ b. b) (''2pc_'' @ tid') to [0..<4] (fst s))"
    by (simp add: discard_def state_transition_def transition_def on_backend_def backend split_def)
  then show ?thesis by (simp only: load_log_def backend attempts_log)
qed

lemma prepare_ok:
  assumes "has_log tid s" and "prepare_phase T tid ps s = (s', r)"
  shows "has_log tid s' \<and> (\<exists>votes. r = Inr votes)"
  using assms unfolding prepare_phase_def
proof (rule update_step)
  fix s1 log
  assume rest: "(let (w', votes, completed) = prepare_votes tid ps (snd s1); s' = (fst s1, w')
      in if completed then andThen (update_status T tid TsPrepared) (\<lambda>_ s. (s, Inr votes)) s' else (s', Inr votes)) = (s', r)"
    and s1: "has_log tid s1"
  obtain w' votes completed where v: "prepare_votes tid ps (snd s1) = (w', votes, completed)"
    by (cases "prepare_votes tid ps (snd s1)") auto
  have h: "has_log tid (fst s1, w')" using s1 has_log_cong [of s1 "(fst s1, w')"] by simp
  show ?thesis
  proof (cases completed)
    case True
    then have "andThen (update_status T tid TsPrepared) (\<lambda>_ s. (s, Inr votes)) (fst s1, w') = (s', r)"
      using rest by (simp add: v Let_def)
    then show ?thesis by (rule update_step [OF h]) auto
  next
    case False
    then show ?thesis using rest h by (auto simp: v Let_def)
  qed
qed

lemma rollback_log: "load_log T tid (discard (rollback_phase tid' ps) s) = load_log T tid s"
  by (rule load_log_cong) (simp add: discard_def rollback_phase_def split_def Let_def)

text \<open>The three ways in which committing can end, with what the log says about each.\<close>

definition commit_end :: "string \<Rightarrow> 'w Participant list \<Rightarrow> string set \<Rightarrow> 'b \<times> 'w \<Rightarrow> string + 'j TransactionLog \<Rightarrow> bool" where
  "commit_end tid ps C s res \<longleftrightarrow> (\<exists>l. load_log T tid s = Inr (Some l) \<and>
     ((tl_status l = ''committed'' \<and> res = Inr l \<and> C = pt_id ` set ps) \<or>
      (tl_status l = ''rolled_back'' \<and> isl res \<and> C = {} \<and> ps \<noteq> []) \<or>
      (tl_status l = ''mixed'' \<and> isl res \<and> C \<noteq> {} \<and> C \<subset> pt_id ` set ps)))"

lemma committed_ids_subset:
  "mset (map cr_participant_id results) = mset (map pt_id ps) \<Longrightarrow> committed_ids results \<subseteq> pt_id ` set ps"
  by (drule mset_eq_setD) (auto simp: committed_ids_def)

lemma partial_commit:
  assumes "mset (map cr_participant_id results) = mset (map pt_id ps)" and "distinct (map pt_id ps)"
    and "\<not> all_committed ps results"
  shows "committed_ids results \<subset> pt_id ` set ps" and "ps \<noteq> []"
proof -
  show "ps \<noteq> []" using assms(3) by (auto simp: all_committed_def)
  then have "results \<noteq> []" using assms(1) by auto
  then obtain r where r: "r \<in> set results" "\<not> cr_committed r"
    using assms(3) \<open>ps \<noteq> []\<close> by (auto simp: all_committed_def list_all_iff)
  have "distinct (map cr_participant_id results)"
    using assms(1,2) mset_eq_imp_distinct_iff by blast
  then have "cr_participant_id r \<notin> committed_ids results"
    using r by (auto simp: committed_ids_def distinct_map inj_on_def)
  moreover have "cr_participant_id r \<in> pt_id ` set ps" using r(1) mset_eq_setD [OF assms(1)] by auto
  ultimately show "committed_ids results \<subset> pt_id ` set ps" using committed_ids_subset [OF assms(1)] by blast
qed

lemma commit_final:
  assumes rec: "records_calls calls tid ps" and d: "distinct (map pt_id ps)" and h: "has_log tid s"
    and x: "execute_commit T tid ps s = (s', res)"
  shows "\<exists>new. calls (snd s') = calls (snd s) @ new \<and> commit_end tid ps {i. (i, Commit, True) \<in> set new} s' res"
  using h x unfolding execute_commit_def
proof (rule update_step)
  fix s1 log
  let ?st = "\<lambda>results. if list_ex cr_committed results then TsMixed else TsRolledBack"
  let ?fail = "\<lambda>results log s. (discard (state_transition T tid Failed) s,
     Inl (''Commit phase failed: '' @ join ''; '' (commit_failures results) @ ''. Status: '' @ tl_status log))"
  assume rest: "(let (w', results) = commit_phase tid ps 2 (snd s1); s' = (fst s1, w')
      in if all_committed ps results
         then andThen (update_status T tid TsCommitted) (\<lambda>log s.
                (discard (state_transition T tid Completed) s, Inr log)) s'
         else andThen (update_status T tid TsRollingBack) (\<lambda>_ s.
                andThen (update_status T tid (?st results)) (?fail results)
                  (discard (rollback_phase tid ps) s)) s') = (s', res)"
    and s1: "has_log tid s1" "snd s1 = snd s"
  obtain w' results where c: "commit_phase tid ps 2 (snd s1) = (w', results)" by fastforce
  from commit_phase_calls [OF rec c] obtain cm where cm: "calls w' = calls (snd s1) @ cm"
    "{i. (i, Commit, True) \<in> set cm} = committed_ids results"
    "mset (map cr_participant_id results) = mset (map pt_id ps)" by blast
  have h1: "has_log tid (fst s1, w')" using s1(1) has_log_cong [of s1 "(fst s1, w')"] by simp
  show ?thesis
  proof (cases "all_committed ps results")
    case True
    then have "andThen (update_status T tid TsCommitted) (\<lambda>log s.
        (discard (state_transition T tid Completed) s, Inr log)) (fst s1, w') = (s', res)"
      using rest by (simp add: c Let_def)
    then obtain s2 l where s2: "(discard (state_transition T tid Completed) s2, Inr l) = (s', res)"
      "load_log T tid s2 = Inr (Some l)" "tl_status l = status_as_str TsCommitted" "snd s2 = w'"
      by (rule update_step [OF h1]) simp
    have "committed_ids results = pt_id ` set ps"
      using all_committed_ids [OF cm(3) True] committed_ids_subset [OF cm(3)] by blast
    then have "commit_end tid ps {i. (i, Commit, True) \<in> set cm} s' res"
      using s2 cm(2) by (auto simp: commit_end_def transition_log status_as_str_def)
    then show ?thesis using cm(1) s1(2) s2(1,4) by (intro exI [of _ cm]) auto
  next
    case False
    then have "andThen (update_status T tid TsRollingBack) (\<lambda>_ s.
        andThen (update_status T tid (?st results)) (?fail results) (discard (rollback_phase tid ps) s)) (fst s1, w') = (s', res)"
      using rest by (simp add: c Let_def)
    then obtain s2 where a: "andThen (update_status T tid (?st results)) (?fail results) (discard (rollback_phase tid ps) s2) = (s', res)"
      and s2: "has_log tid s2" "snd s2 = w'"
      by (rule update_step [OF h1]) simp
    have h2: "has_log tid (discard (rollback_phase tid ps) s2)" using s2(1) by (simp add: has_log_def rollback_log)
    from a obtain s3 l where s3: "?fail results l s3 = (s', res)" "load_log T tid s3 = Inr (Some l)"
      "tl_status l = status_as_str (?st results)" "snd s3 = snd (discard (rollback_phase tid ps) s2)"
      by (rule update_step [OF h2])
    have fin: "s' = discard (state_transition T tid Failed) s3" "isl res" using s3(1) by auto
    obtain rb where rb: "calls (snd (discard (rollback_phase tid ps) s2)) = calls (snd s2) @ rb" "in_phase Rollback rb"
      using rollback_phase_calls [OF rec] unfolding discard_def by blast
    have C: "{i. (i, Commit, True) \<in> set (cm @ rb)} = committed_ids results"
      using cm(2) in_phaseD [OF rb(2)] by auto
    have "committed_ids results = {} \<longleftrightarrow> \<not> list_ex cr_committed results"
      by (auto simp: committed_ids_def list_ex_iff)
    then have "commit_end tid ps {i. (i, Commit, True) \<in> set (cm @ rb)} s' res"
      unfolding C commit_end_def using s3(2,3) fin partial_commit [OF cm(3) d False]
      by (cases "list_ex cr_committed results") (simp_all add: transition_log status_as_str_def)
    then show ?thesis
      using cm(1) s1(2) s2(2) s3(4) rb fin(1) by (intro exI [of _ "cm @ rb"]) simp
  qed
qed

lemma abort_final:
  assumes rec: "records_calls calls tid ps" and h: "has_log tid s" and ps: "ps \<noteq> []"
    and x: "execute_abort T tid ps votes s = (s', res)"
  shows "\<exists>new. calls (snd s') = calls (snd s) @ new \<and> commit_end tid ps {i. (i, Commit, True) \<in> set new} s' res"
  using h x unfolding execute_abort_def
proof (rule update_step)
  fix s1 log
  let ?fail = "\<lambda>log s. (discard (state_transition T tid Failed) s,
     Inl (''Prepare phase failed: participants did not agree. Rejections: ['' @ join '', '' (rejections votes) @
       '']. Status: '' @ tl_status log))"
  assume a: "andThen (update_status T tid TsRolledBack) ?fail (discard (rollback_phase tid ps) s1) = (s', res)"
    and s1: "has_log tid s1" "snd s1 = snd s"
  have h2: "has_log tid (discard (rollback_phase tid ps) s1)" using s1(1) by (simp add: has_log_def rollback_log)
  from a obtain s2 l where s2: "?fail l s2 = (s', res)" "load_log T tid s2 = Inr (Some l)"
    "tl_status l = status_as_str TsRolledBack" "snd s2 = snd (discard (rollback_phase tid ps) s1)"
    by (rule update_step [OF h2])
  have fin: "s' = discard (state_transition T tid Failed) s2" "isl res" using s2(1) by auto
  obtain rb where rb: "calls (snd (discard (rollback_phase tid ps) s1)) = calls (snd s1) @ rb" "in_phase Rollback rb"
    using rollback_phase_calls [OF rec] unfolding discard_def by blast
  have "{i. (i, Commit, True) \<in> set rb} = {}" using in_phaseD [OF rb(2)] by auto
  then show ?thesis using s1(2) s2 rb fin ps
    by (intro exI [of _ rb]) (simp add: commit_end_def transition_log status_as_str_def)
qed

lemma execute_final:
  assumes rec: "records_calls calls tid ps" and d: "distinct (map pt_id ps)" and x: "execute T tid ps md s = (s', res)"
  shows "\<exists>new. calls (snd s') = calls (snd s) @ new \<and> commit_end tid ps {i. (i, Commit, True) \<in> set new} s' res"
proof -
  let ?log = "log_new (tp_now T (snd s)) tid (map participant_info ps) md"
  let ?rest = "\<lambda>votes. if list_all vr_vote votes then execute_commit T tid ps else execute_abort T tid ps votes"
  obtain sa where a: "save_log T ?log s = (sa, Inr ())" and la: "load_log T tid sa = Inr (Some ?log)"
  proof -
    obtain sa ra where "save_log T ?log s = (sa, ra)" by fastforce
    with save_log_ok [OF this] that show ?thesis by (simp add: log_new_def)
  qed
  obtain sb e where b: "on_backend (create_state (tp_backend T) (tp_entry_codec T) (''2pc_'' @ tid) (tp_begin_metadata T)) sa = (sb, Inr e)"
    and lb: "load_log T tid sb = Inr (Some ?log)"
  proof -
    obtain sb rb where "on_backend (create_state (tp_backend T) (tp_entry_codec T) (''2pc_'' @ tid) (tp_begin_metadata T)) sa = (sb, rb)"
      by fastforce
    with create_log [OF this, of tid] la that show ?thesis by auto
  qed
  have hb: "has_log tid sb" using lb by (simp add: has_log_def log_new_def)
  have wb: "snd sb = snd s" using save_log_world [OF a] on_backend_world [OF b] by simp
  have "andThen (prepare_phase T tid ps) ?rest sb = (s', res)"
    using x by (simp add: execute_def andThen_def a b [simplified])
  then show ?thesis
  proof (rule andThenE)
    fix e assume "prepare_phase T tid ps sb = (s', Inl e)"
    then show ?thesis using prepare_ok [OF hb] by blast
  next
    fix s1 votes
    assume p: "prepare_phase T tid ps sb = (s1, Inr votes)" and rest: "?rest votes s1 = (s', res)"
    have h1: "has_log tid s1" using prepare_ok [OF hb p] by blast
    obtain pr where pr: "calls (snd s1) = calls (snd sb) @ pr" "in_phase Prepare pr"
      using prepare_phase_calls [OF rec p] by blast
    have "\<exists>new. calls (snd s') = calls (snd s1) @ new \<and> commit_end tid ps {i. (i, Commit, True) \<in> set new} s' res"
    proof (cases "list_all vr_vote votes")
      case True
      then show ?thesis using commit_final [OF rec d h1] rest by simp
    next
      case False
      have "votes = []" if "ps = []" using p that by (auto simp: prepare_phase_def elim!: andThenE)
      then have "ps \<noteq> []" using False by auto
      then show ?thesis using abort_final [OF rec h1] False rest by simp
    qed
    then obtain new where new: "calls (snd s') = calls (snd s1) @ new"
      "commit_end tid ps {i. (i, Commit, True) \<in> set new} s' res" by blast
    have "{i. (i, Commit, True) \<in> set (pr @ new)} = {i. (i, Commit, True) \<in> set new}"
      using in_phaseD [OF pr(2)] by auto
    then show ?thesis using new pr(1) wb by (intro exI [of _ "pr @ new"]) simp
  qed
qed

text \<open>What the coordinator leaves untouched while it runs: the row of the state entry.\<close>

definition entry_row :: "string \<Rightarrow> string \<Rightarrow> 'b \<times> 'w \<Rightarrow> bool" where
  "entry_row tid d s \<longleftrightarrow> be_load B (STATE_KEY_PREFIX @ ''2pc_'' @ tid) (fst s) = Inr (Some d)"

lemma save_entry_row: "keeps (entry_row tid d) (save_log T l)"
  by (auto simp: keeps_def entry_row_def save_log_def on_backend_def backend
      load_other [OF not_sym [OF keys_apart]] split: sum.splits prod.splits)
    (metis fst_conv keys_apart load_other)

lemma update_entry_row: "keeps (entry_row tid d) (update_status T tid' st)"
proof -
  have "keeps (entry_row tid d) (andThen (save_log T l) (\<lambda>_ s. (s, Inr l)))" for l
    by (intro keeps_andThen save_entry_row keeps_return)
  then show ?thesis by (auto simp: keeps_def update_status_def Let_def split: sum.splits option.splits)
qed

lemma world_entry_row: "entry_row tid d (fst s, w) = entry_row tid d s"
  by (simp add: entry_row_def)

lemma rollback_entry_row: "entry_row tid d (discard (rollback_phase tid' ps) s) = entry_row tid d s"
  by (simp add: entry_row_def discard_def rollback_phase_def split_def Let_def)

lemma transition_refused:
  assumes e: "entry_row tid d s" "from_slice (tp_entry_codec T) d = Inr e" "se_current_state e = ''created''"
    and to: "\<not> is_valid_transition Created to"
  shows "discard (state_transition T tid to) s = s"
proof -
  have "read_transition B (tp_entry_codec T) (''2pc_'' @ tid) to (fst s) =
      Inl (''Invalid transition: '' @ transition_as_str Created @ '' -> '' @ transition_as_str to)"
    using e to by (simp add: entry_row_def read_transition_def transition_from_str_def)
  moreover have "[0..<4] = [0, 1, 2, 3::nat]" by code_simp
  ultimately show ?thesis
    by (simp add: discard_def state_transition_def on_backend_def transition_def backend Let_def)
qed

lemma prepare_entry_row: "keeps (entry_row tid d) (prepare_phase T tid' ps)"
  unfolding prepare_phase_def
  by (intro keeps_andThen update_entry_row keeps_world_pair keeps_if keeps_return) (simp add: world_entry_row)

lemma finish_entry_row:
  assumes "from_slice (tp_entry_codec T) d = Inr e" "se_current_state e = ''created''"
    and "\<not> is_valid_transition Created to"
  shows "keeps (entry_row tid d) (andThen (update_status T tid st) (\<lambda>log s. (discard (state_transition T tid to) s, f log)))"
  by (intro keeps_andThen update_entry_row) (simp add: keeps_def transition_refused [OF _ assms])

lemma commit_entry_row:
  assumes e: "from_slice (tp_entry_codec T) d = Inr e" "se_current_state e = ''created''"
  shows "keeps (entry_row tid d) (execute_commit T tid ps)"
proof -
  have c: "\<not> is_valid_transition Created Completed" and f: "\<not> is_valid_transition Created Failed"
    by (simp_all add: transition_table)
  have r: "keeps (entry_row tid d) (\<lambda>s. andThen (update_status T tid st)
      (\<lambda>log s. (discard (state_transition T tid Failed) s, g log)) (discard (rollback_phase tid ps) s))" for st g
    by (rule keeps_after [OF finish_entry_row [OF e f]]) (simp add: rollback_entry_row)
  have 1: "keeps (entry_row tid d) (andThen (update_status T tid TsCommitted)
      (\<lambda>log s. (discard (state_transition T tid Completed) s, Inr log)))"
    by (rule finish_entry_row [OF e c])
  have 2: "keeps (entry_row tid d) (andThen (update_status T tid TsRollingBack) (\<lambda>_ s. andThen (update_status T tid st)
      (\<lambda>log s. (discard (state_transition T tid Failed) s, g log)) (discard (rollback_phase tid ps) s)))" for st g
    by (intro keeps_andThen update_entry_row r)
  show ?thesis unfolding execute_commit_def
    by (intro keeps_andThen [OF update_entry_row] keeps_world keeps_if 1 2) (simp add: world_entry_row)
qed

lemma abort_entry_row:
  assumes e: "from_slice (tp_entry_codec T) d = Inr e" "se_current_state e = ''created''"
  shows "keeps (entry_row tid d) (execute_abort T tid ps votes)"
proof -
  have f: "\<not> is_valid_transition Created Failed" by (simp add: transition_table)
  have "keeps (entry_row tid d) (\<lambda>s. andThen (update_status T tid TsRolledBack)
      (\<lambda>log s. (discard (state_transition T tid Failed) s, g log)) (discard (rollback_phase tid ps) s))" for g
    by (rule keeps_after [OF finish_entry_row [OF e f]]) (simp add: rollback_entry_row)
  then show ?thesis unfolding execute_abort_def by (intro keeps_andThen update_entry_row)
qed

lemma execute_entry:
  assumes J: "codec_ok (tp_entry_codec T)" and x: "execute T tid ps md s = (s', res)"
  shows "get_state B (tp_entry_codec T) (''2pc_'' @ tid) (fst s') = Inr (Some \<lparr>se_key = ''2pc_'' @ tid,
    se_current_state = ''created'', se_version = 1, se_metadata = tp_begin_metadata T\<rparr>)"
proof -
  let ?e = "\<lparr>se_key = ''2pc_'' @ tid, se_current_state = ''created'', se_version = 1, se_metadata = tp_begin_metadata T\<rparr>"
  let ?rest = "andThen (prepare_phase T tid ps) (\<lambda>votes. if list_all vr_vote votes then execute_commit T tid ps
    else execute_abort T tid ps votes)"
  obtain d where d: "to_vec (tp_entry_codec T) ?e = Inr d" using entry_codec by blast
  have e: "from_slice (tp_entry_codec T) d = Inr ?e" by (rule codec_okD [OF J d])
  obtain sa ra where a: "save_log T (log_new (tp_now T (snd s)) tid (map participant_info ps) md) s = (sa, ra)"
    by fastforce
  have ra: "ra = Inr ()" using save_log_ok [OF a] by blast
  obtain t where t: "be_save B (STATE_KEY_PREFIX @ ''2pc_'' @ tid) d (fst sa) = (t, Inr ())" using save_cases by blast
  let ?sb = "(t, snd sa)"
  have b: "on_backend (create_state (tp_backend T) (tp_entry_codec T) (''2pc_'' @ tid) (tp_begin_metadata T)) sa = (?sb, Inr ?e)"
    using t d by (simp add: on_backend_def create_state_def Let_def backend transition_as_str_def)
  have "keeps (entry_row tid d) ?rest"
    using e by (intro keeps_andThen prepare_entry_row) (simp add: commit_entry_row abort_entry_row)
  moreover have "?rest ?sb = (s', res)" using x by (simp add: execute_def andThen_def a ra b [simplified])
  moreover have "entry_row tid d ?sb" using load_saved [of "STATE_KEY_PREFIX @ ''2pc_'' @ tid" d "fst sa"] t
    by (simp add: entry_row_def)
  ultimately have "entry_row tid d s'" by (rule keepsD)
  then show ?thesis using e by (simp add: entry_row_def get_state_def)
qed

end

end
