(* ===== verification/Two_Phase_Outcomes.thy ===== *)
theory Two_Phase_Outcomes
  imports Two_Phase_Commit_Laws
begin

text \<open>
  What the two-phase commit coordinator promises to its callers: the meaning of success, the order of
  the phases, the truth of the recorded outcome, what recovery may do, and what happens to the state
  entry. A coordinator over the local backend with a concrete log codec instantiates the contract.
\<close>

section \<open>Recovery\<close>

lemma update_result_calls:
  "update_status T tid st s = (s', Inr l) \<Longrightarrow> snd s' = snd s \<and> tl_status l = status_as_str st"
  using update_status_world update_status_status by blast

lemma recover_rollback_calls:
  assumes rec: "records_calls calls tid ps" and x: "recover_rollback T tid ps s = (s', res)"
  shows "\<exists>new. calls (snd s') = calls (snd s) @ new \<and> in_phase Rollback new \<and>
    (\<forall>l. res = Inr l \<longrightarrow> tl_status l = ''rolled_back'')"
proof -
  obtain new where new: "calls (snd (fst (rollback_phase tid ps s))) = calls (snd s) @ new" "in_phase Rollback new"
    using rollback_phase_calls [OF rec] by blast
  have "snd s' = snd (fst (rollback_phase tid ps s))" "\<forall>l. res = Inr l \<longrightarrow> tl_status l = ''rolled_back''"
    using x unfolding recover_rollback_def
    by (auto elim!: andThenE dest: update_status_world update_status_status simp: status_as_str_def)
  then show ?thesis using new by auto
qed

lemma recover_commit_calls:
  assumes rec: "records_calls calls tid ps" and x: "recover_commit T tid ps s = (s', res)"
  shows "\<exists>cm rb. calls (snd s') = calls (snd s) @ cm @ rb \<and> in_phase Commit cm \<and> in_phase Rollback rb \<and>
    (\<forall>l. res = Inr l \<longrightarrow> tl_status l = ''committed'' \<and> rb = [] \<and> (\<forall>p\<in>set ps. (pt_id p, Commit, True) \<in> set cm))"
proof -
  obtain w' results where c: "commit_phase tid ps 2 (snd s) = (w', results)" by fastforce
  from commit_phase_calls [OF rec c] obtain cm where cm: "calls w' = calls (snd s) @ cm" "in_phase Commit cm"
    "{i. (i, Commit, True) \<in> set cm} = committed_ids results" "mset (map cr_participant_id results) = mset (map pt_id ps)"
    by blast
  show ?thesis
  proof (cases "all_committed ps results")
    case True
    then have u: "update_status T tid TsCommitted (fst s, w') = (s', res)"
      using x by (simp add: recover_commit_def c Let_def)
    have "\<forall>p\<in>set ps. (pt_id p, Commit, True) \<in> set cm"
      using all_committed_ids [OF cm(4) True] cm(3) by blast
    moreover have "snd s' = w'" "\<forall>l. res = Inr l \<longrightarrow> tl_status l = ''committed''"
      using u by (auto dest: update_status_world update_status_status simp: status_as_str_def)
    ultimately show ?thesis using cm by (intro exI [of _ cm] exI [of _ "[]"]) simp
  next
    case False
    obtain rb where rb: "calls (snd (fst (rollback_phase tid ps (fst s, w')))) = calls w' @ rb" "in_phase Rollback rb"
      using rollback_phase_calls [OF rec, of "(fst s, w')"] by auto
    obtain st msg where "andThen (rollback_phase tid ps) (\<lambda>_. andThen (update_status T tid st) (\<lambda>_ s. (s, Inl msg)))
        (fst s, w') = (s', res)"
      using x False unfolding recover_commit_def c Let_def by (simp only: prod.case if_False)
    then have "snd s' = snd (fst (rollback_phase tid ps (fst s, w')))" "isl res"
      by (auto elim!: andThenE dest: update_status_world)
    then show ?thesis using cm(1,2) rb by (intro exI [of _ cm] exI [of _ rb]) auto
  qed
qed

lemma recover_cases:
  assumes "recover T tid ps s = (s', res)" and "load_log T tid s = Inr (Some log)"
  obtains "tl_status log \<in> {''preparing'', ''prepared'', ''rolling_back''}" and "recover_rollback T tid ps s = (s', res)"
  | "tl_status log = ''committing''" and "recover_commit T tid ps s = (s', res)"
  | "tl_status log \<in> {''committed'', ''rolled_back'', ''mixed''}" and "s' = s" and "res = Inr log"
  | "status_from_str (tl_status log) = TsUnknown" and "s' = s" and "isl res"
  using assms by (auto simp: recover_def status_from_str_def split: if_splits)

lemma recover_calls:
  assumes rec: "records_calls calls tid ps" and x: "recover T tid ps s = (s', res)" and log: "load_log T tid s = Inr (Some log)"
  shows "\<exists>new. calls (snd s') = calls (snd s) @ new \<and>
    (tl_status log \<noteq> ''committing'' \<longrightarrow> in_phase Rollback new) \<and>
    (\<forall>l. res = Inr l \<longrightarrow> tl_status l \<in> {''committed'', ''rolled_back'', ''mixed''} \<and>
       (tl_status log = ''committing'' \<longrightarrow> in_phase Commit new \<and> (\<forall>p\<in>set ps. (pt_id p, Commit, True) \<in> set new)))"
  using x log
proof (cases rule: recover_cases)
  case 1
  then show ?thesis using recover_rollback_calls [OF rec 1(2)] by auto
next
  case 2
  then show ?thesis using recover_commit_calls [OF rec 2(2)] by (metis append_Nil2 insertI1)
next
  case 3
  then show ?thesis by (intro exI [of _ "[]"]) auto
next
  case 4
  then show ?thesis by (intro exI [of _ "[]"]) (auto simp: status_from_str_def)
qed

context coordinator
begin

lemma recover_rollback_final:
  assumes h: "has_log tid s" and x: "recover_rollback T tid ps s = (s', Inr log)"
  shows "load_log T tid s' = Inr (Some log) \<and> tl_status log = ''rolled_back''"
  using x unfolding recover_rollback_def
proof (rule andThenE)
  fix s1 u assume r: "rollback_phase tid ps s = (s1, Inr u)" and st: "update_status T tid TsRolledBack s1 = (s', Inr log)"
  have "fst s1 = fst s" using r by (auto simp: rollback_phase_def split_def Let_def)
  then have "has_log tid s1" using h has_log_cong by blast
  from update_ok [OF this st] show ?thesis by (simp add: status_as_str_def)
qed simp

lemma recover_commit_final:
  assumes h: "has_log tid s" and x: "recover_commit T tid ps s = (s', Inr log)"
  shows "load_log T tid s' = Inr (Some log) \<and> tl_status log = ''committed''"
proof -
  obtain w' results where c: "commit_phase tid ps 2 (snd s) = (w', results)" by fastforce
  have st: "update_status T tid TsCommitted (fst s, w') = (s', Inr log)"
    using x by (auto simp: recover_commit_def c Let_def elim!: andThenE split: if_splits)
  have "has_log tid (fst s, w')" using h has_log_cong [of s "(fst s, w')"] by simp
  from update_ok [OF this st] show ?thesis by (simp add: status_as_str_def)
qed

lemma recover_settles:
  assumes h: "has_log tid s" and x: "recover T tid ps s = (s', Inr log)"
  shows "load_log T tid s' = Inr (Some log) \<and> recover T tid qs s' = (s', Inr log)"
proof -
  obtain l where l: "load_log T tid s = Inr (Some l)" using h by (auto simp: has_log_def)
  have "load_log T tid s' = Inr (Some log) \<and> tl_status log \<in> {''committed'', ''rolled_back'', ''mixed''}"
    using x l
  proof (cases rule: recover_cases)
    case 1
    then show ?thesis using recover_rollback_final [OF h 1(2)] by simp
  next
    case 2
    then show ?thesis using recover_commit_final [OF h 2(2)] by simp
  qed (use l in auto)
  then show ?thesis by (auto simp: recover_def status_from_str_def)
qed

end

lemma local_coordinator:
  assumes "tp_backend T = LocalBackend J None" and "\<And>l. \<exists>d. tp_log_to_vec T l = Inr d \<and> tp_log_from_slice T d = Inr l"
    and "\<And>e. \<exists>d. to_vec (tp_entry_codec T) e = Inr d"
  shows "coordinator (LocalBackend J None) T"
  using assms by unfold_locales

section \<open>A sample coordinator\<close>

text \<open>A log is written as a sequence of texts, each after its length in unary.\<close>

definition write_text :: "string \<Rightarrow> string" where
  "write_text s = unary (length s) @ ''.'' @ s"

fun read_texts :: "nat \<Rightarrow> string \<Rightarrow> string list" where
  "read_texts 0 d = []"
| "read_texts (Suc n) d =
     (let k = length (takeWhile (\<lambda>c. c = CHR ''1'') d); rest = tl (dropWhile (\<lambda>c. c = CHR ''1'') d)
      in take k rest # read_texts n (drop k rest))"

lemma read_write_texts: "read_texts (length xs) (concat (map write_text xs)) = xs"
  by (induction xs) (simp_all add: write_text_def Let_def)

fun info_texts :: "ParticipantInfo list \<Rightarrow> string list" where
  "info_texts [] = []"
| "info_texts (p # ps) = pi_id p # pi_name p # pi_role p # info_texts ps"

fun texts_info :: "string list \<Rightarrow> ParticipantInfo list" where
  "texts_info (i # n # r # xs) = \<lparr>pi_id = i, pi_name = n, pi_role = r\<rparr> # texts_info xs"
| "texts_info _ = []"

lemma texts_info_texts [simp]: "texts_info (info_texts ps) = ps"
  by (induction ps) simp_all

lemma length_info_texts [simp]: "length (info_texts ps) = 3 * length ps"
  by (induction ps) simp_all

definition log_texts :: "nat TransactionLog \<Rightarrow> string list" where
  "log_texts l = tl_transaction_id l # tl_status l # tl_created_at l # tl_updated_at l # unary (tl_metadata l) #
     info_texts (tl_participants l)"

definition texts_log :: "string list \<Rightarrow> nat TransactionLog" where
  "texts_log xs = \<lparr>tl_transaction_id = xs ! 0, tl_status = xs ! 1, tl_participants = texts_info (drop 5 xs),
     tl_created_at = xs ! 2, tl_updated_at = xs ! 3, tl_metadata = length (xs ! 4)\<rparr>"

definition sample_log_to_vec :: "nat TransactionLog \<Rightarrow> string + string" where
  "sample_log_to_vec l = Inr (unary (length (tl_participants l)) @ ''.'' @ concat (map write_text (log_texts l)))"

definition sample_log_from_slice :: "string \<Rightarrow> string + nat TransactionLog" where
  "sample_log_from_slice d =
     (let n = length (takeWhile (\<lambda>c. c = CHR ''1'') d); rest = tl (dropWhile (\<lambda>c. c = CHR ''1'') d)
      in Inr (texts_log (read_texts (5 + 3 * n) rest)))"

lemma texts_log_texts: "texts_log (log_texts l) = l"
  by (simp add: texts_log_def log_texts_def numeral_eq_Suc)

lemma sample_log_round_trip: "\<exists>d. sample_log_to_vec l = Inr d \<and> sample_log_from_slice d = Inr l"
proof -
  have "length (log_texts l) = 5 + 3 * length (tl_participants l)" by (simp add: log_texts_def)
  then show ?thesis using read_write_texts [of "log_texts l"]
    by (simp add: sample_log_to_vec_def sample_log_from_slice_def Let_def texts_log_texts)
qed

definition sample_coordinator :: "(state_table, call list, nat) TwoPhaseCommit" where
  "sample_coordinator = \<lparr>tp_backend = LocalBackend sample_codec None, tp_entry_codec = sample_codec,
     tp_log_to_vec = sample_log_to_vec, tp_log_from_slice = sample_log_from_slice,
     tp_now = (\<lambda>w. unary (length w)), tp_begin_metadata = 0\<rparr>"

interpretation local_2pc: coordinator "LocalBackend sample_codec None" sample_coordinator
  by (rule local_coordinator) (simp_all add: sample_coordinator_def sample_log_round_trip sample_codec_total)

text \<open>Participants that note the calls they receive; the second one refuses to commit.\<close>

definition sample_participant :: "string \<Rightarrow> bool \<Rightarrow> call list Participant" where
  "sample_participant i commits = fn_participant i ''db'' ''worker''
     (\<lambda>w. (w @ [(i, Prepare, True)], Inr ()))
     (\<lambda>w. (w @ [(i, Commit, commits)], if commits then Inr () else Inl ''down''))
     (\<lambda>w. (w @ [(i, Rollback, True)], Inr ()))"

definition willing :: "call list Participant list" where
  "willing = [sample_participant ''a'' True, sample_participant ''b'' True]"

definition divided :: "call list Participant list" where
  "divided = [sample_participant ''a'' True, sample_participant ''b'' False]"

lemma sample_records: "records_calls id tid willing" "records_calls id tid divided"
  by (simp_all add: records_calls_def willing_def divided_def sample_participant_def fn_participant_def)

lemma sample_ids: "distinct (map pt_id willing)" "distinct (map pt_id divided)" "map pt_id divided = [''a'', ''b'']"
  by (simp_all add: willing_def divided_def sample_participant_def fn_participant_def)

definition sample_success :: "(state_table \<times> call list) \<times> (string + nat TransactionLog)" where
  "sample_success = execute sample_coordinator ''t'' willing 0 ([], [])"

definition sample_failure :: "(state_table \<times> call list) \<times> (string + nat TransactionLog)" where
  "sample_failure = execute sample_coordinator ''t'' divided 0 ([], [])"

lemma sample_success_value:
  "snd (fst sample_success) = [(''a'', Prepare, True), (''b'', Prepare, True), (''a'', Commit, True), (''b'', Commit, True)]"
  "\<not> isl (snd sample_success)"
  by code_simp+

lemma sample_success_eq:
  "execute sample_coordinator ''t'' willing 0 ([], []) = (fst sample_success, Inr (projr (snd sample_success)))"
  using sample_success_value(2) by (simp add: sample_success_def)

section \<open>Outcomes\<close>

text \<open>
  Success of a two-phase commit means that everybody committed. Over any backend, failing or not,
  when \<^verbatim>\<open>execute\<close> returns a log, the log says committed, every participant has first prepared
  successfully and then committed successfully, and nobody was told to roll back.
\<close>

theorem success_means_all_committed:
  assumes "records_calls calls tid ps" and "execute T tid ps md s = (s', Inr log)"
  shows "tl_status log = ''committed'' \<and> (\<exists>pr cm. calls (snd s') = calls (snd s) @ pr @ cm \<and>
    in_phase Prepare pr \<and> in_phase Commit cm \<and>
    (\<forall>p\<in>set ps. (pt_id p, Prepare, True) \<in> set pr \<and> (pt_id p, Commit, True) \<in> set cm))"
proof -
  obtain pr cm where "calls (snd s') = calls (snd s) @ pr @ cm" "in_phase Prepare pr" "in_phase Commit cm"
    "\<forall>p\<in>set ps. (pt_id p, Prepare, True) \<in> set pr \<and> (pt_id p, Commit, True) \<in> set cm" "tl_status log = ''committed''"
    using execute_calls [OF assms] by auto
  then show ?thesis by blast
qed

theorem success_means_all_committed_witness:
  "tl_status (projr (snd sample_success)) = ''committed''"
  using success_means_all_committed [OF sample_records(1) sample_success_eq] by simp

text \<open>
  C5: nobody commits before everybody has prepared, and commits are retried a bounded number of
  times. Whatever the backend and the participants do, the calls of a run are a block of prepare
  calls, then a block of commit calls, then a block of rollback calls. If there is any commit call at
  all, every participant has answered its prepare call with success; and each participant is told to
  commit at most three times.
\<close>

theorem commit_after_unanimous_prepare:
  assumes "records_calls calls tid ps" and "distinct (map pt_id ps)" and "execute T tid ps md s = (s', res)"
  shows "\<exists>pr cm rb. calls (snd s') = calls (snd s) @ pr @ cm @ rb \<and>
    in_phase Prepare pr \<and> in_phase Commit cm \<and> in_phase Rollback rb \<and>
    (cm \<noteq> [] \<longrightarrow> (\<forall>p\<in>set ps. (pt_id p, Prepare, True) \<in> set pr)) \<and> (\<forall>i. calls_to i cm \<le> 3)"
proof -
  have "count_list (map pt_id ps) i \<le> 1" for i
    using assms(2) distinct_count_atmost_1 [of "map pt_id ps"] count_mset [of "map pt_id ps" i] by (auto split: if_splits)
  then have bound: "3 * count_list (map pt_id ps) i \<le> 3" for i by (metis mult.right_neutral mult_le_mono2)
  obtain pr cm rb where "calls (snd s') = calls (snd s) @ pr @ cm @ rb"
    "in_phase Prepare pr" "in_phase Commit cm" "in_phase Rollback rb"
    "cm \<noteq> [] \<longrightarrow> (\<forall>p\<in>set ps. (pt_id p, Prepare, True) \<in> set pr)"
    "\<forall>i. calls_to i cm \<le> 3 * count_list (map pt_id ps) i"
    using execute_calls [OF assms(1,3)] by blast
  then show ?thesis using order_trans [OF _ bound] by blast
qed

theorem commit_after_unanimous_prepare_witness:
  "\<exists>pr cm rb. snd (fst sample_failure) = pr @ cm @ rb \<and> in_phase Prepare pr \<and> in_phase Commit cm \<and> in_phase Rollback rb"
  using commit_after_unanimous_prepare [OF sample_records(2) sample_ids(2) prod.collapse [symmetric],
      of sample_coordinator "''t''" 0 "([], [])"]
  by (auto simp: sample_failure_def)

text \<open>
  C4: over a backend that keeps what is saved, the recorded outcome is the truth. A run always ends with
  a log in one of three states. It says committed exactly when every participant's commit succeeded,
  and the caller gets that log; it says rolled back when no commit succeeded and mixed when some but
  not all did, and the caller gets an error. Rolling back is recorded even when the rollback calls fail.
\<close>

theorem recorded_outcome_is_true:
  assumes "tp_backend T = LocalBackend J None"
    and "\<And>l. \<exists>d. tp_log_to_vec T l = Inr d \<and> tp_log_from_slice T d = Inr l"
    and "\<And>e. \<exists>d. to_vec (tp_entry_codec T) e = Inr d"
    and "records_calls calls tid ps" and "distinct (map pt_id ps)" and "execute T tid ps md s = (s', res)"
  shows "\<exists>new l. calls (snd s') = calls (snd s) @ new \<and> load_log T tid s' = Inr (Some l) \<and>
    (let C = {i. (i, Commit, True) \<in> set new}; I = pt_id ` set ps
     in (tl_status l = ''committed'' \<and> res = Inr l \<and> C = I) \<or>
        (tl_status l = ''rolled_back'' \<and> isl res \<and> C = {} \<and> I \<noteq> {}) \<or>
        (tl_status l = ''mixed'' \<and> isl res \<and> C \<noteq> {} \<and> C \<subset> I))"
  using coordinator.execute_final [OF local_coordinator [OF assms(1-3)] assms(4-6)]
  by (auto simp: coordinator.commit_end_def [OF local_coordinator [OF assms(1-3)]] Let_def)

theorem recorded_outcome_is_true_witness:
  "\<exists>new l. snd (fst sample_failure) = new \<and> load_log sample_coordinator ''t'' (fst sample_failure) = Inr (Some l) \<and>
     tl_status l = ''mixed''"
proof -
  obtain new l where n: "snd (fst sample_failure) = new" "load_log sample_coordinator ''t'' (fst sample_failure) = Inr (Some l)"
    and d: "(tl_status l = ''committed'' \<and> snd sample_failure = Inr l \<and> {i. (i, Commit, True) \<in> set new} = pt_id ` set divided) \<or>
        (tl_status l = ''rolled_back'' \<and> isl (snd sample_failure) \<and> {i. (i, Commit, True) \<in> set new} = {} \<and> pt_id ` set divided \<noteq> {}) \<or>
        (tl_status l = ''mixed'' \<and> isl (snd sample_failure) \<and> {i. (i, Commit, True) \<in> set new} \<noteq> {} \<and>
          {i. (i, Commit, True) \<in> set new} \<subset> pt_id ` set divided)"
    using recorded_outcome_is_true [OF local_2pc.backend local_2pc.log_codec local_2pc.entry_codec sample_records(2)
        sample_ids(2) prod.collapse [symmetric], of "''t''" 0 "([], [])"]
    unfolding sample_failure_def Let_def snd_conv id_apply append_Nil by blast
  have "isl (snd sample_failure) \<and> (''a'', Commit, True) \<in> set (snd (fst sample_failure))" by code_simp
  then have "tl_status l = ''mixed''" using d n(1) by auto
  then show ?thesis using n by blast
qed

text \<open>
  C23: recovery respects the decision that was logged. It makes commit calls only for a transaction
  whose log says committing; for every other status it makes at most rollback calls. When it returns a
  log, that log is finished (committed, rolled back or mixed), and for a transaction that was
  committing every participant has committed and none was rolled back.
\<close>

theorem recovery_respects_decision:
  assumes "records_calls calls tid ps" and "recover T tid ps s = (s', res)" and "load_log T tid s = Inr (Some log)"
  shows "\<exists>new. calls (snd s') = calls (snd s) @ new \<and>
    (tl_status log \<noteq> ''committing'' \<longrightarrow> in_phase Rollback new) \<and>
    (\<forall>l. res = Inr l \<longrightarrow> tl_status l \<in> {''committed'', ''rolled_back'', ''mixed''} \<and>
       (tl_status log = ''committing'' \<longrightarrow> in_phase Commit new \<and> (\<forall>p\<in>set ps. (pt_id p, Commit, True) \<in> set new)))"
  by (rule recover_calls [OF assms])

definition crashed_log :: "nat TransactionLog" where
  "crashed_log = \<lparr>tl_transaction_id = ''t'', tl_status = ''prepared'', tl_participants = map participant_info willing,
     tl_created_at = [], tl_updated_at = [], tl_metadata = 0\<rparr>"

definition crashed :: "state_table \<times> call list" where
  "crashed = fst (save_log sample_coordinator crashed_log ([], []))"

lemma crashed_loads: "load_log sample_coordinator ''t'' crashed = Inr (Some crashed_log)"
  using local_2pc.save_log_ok [of crashed_log "([], [])", OF prod.collapse [symmetric]]
  by (simp add: crashed_def crashed_log_def)

theorem recovery_respects_decision_witness:
  "in_phase Rollback (drop (length (snd crashed)) (snd (fst (recover sample_coordinator ''t'' willing crashed))))"
  using recovery_respects_decision [OF sample_records(1) prod.collapse [symmetric] crashed_loads]
  by (auto simp: crashed_log_def)

text \<open>
  C24: recovery settles a transaction. Once a recovery over a working local backend has returned a log,
  that log is stored, and recovering again, even with other participants, calls nobody, changes
  nothing and returns the same log.
\<close>

theorem recovery_is_idempotent:
  assumes "tp_backend T = LocalBackend J None"
    and "\<And>l. \<exists>d. tp_log_to_vec T l = Inr d \<and> tp_log_from_slice T d = Inr l"
    and "\<And>e. \<exists>d. to_vec (tp_entry_codec T) e = Inr d"
    and "load_log T tid s = Inr (Some l)" and "tl_transaction_id l = tid" and "recover T tid ps s = (s', Inr log)"
  shows "load_log T tid s' = Inr (Some log) \<and> recover T tid qs s' = (s', Inr log)"
proof -
  note c = local_coordinator [OF assms(1-3)]
  have "coordinator.has_log T tid s" using assms(4,5) by (auto simp: coordinator.has_log_def [OF c])
  then show ?thesis by (rule coordinator.recover_settles [OF c _ assms(6)])
qed

lemma crashed_recovers: "\<not> isl (snd (recover sample_coordinator ''t'' willing crashed))"
  by code_simp

theorem recovery_is_idempotent_witness:
  "recover sample_coordinator ''t'' divided (fst (recover sample_coordinator ''t'' willing crashed)) =
     recover sample_coordinator ''t'' willing crashed"
proof -
  let ?r = "recover sample_coordinator ''t'' willing crashed"
  have r: "?r = (fst ?r, Inr (projr (snd ?r)))" using crashed_recovers by simp
  have "recover sample_coordinator ''t'' divided (fst ?r) = (fst ?r, Inr (projr (snd ?r)))"
    using recovery_is_idempotent [OF local_2pc.backend local_2pc.log_codec local_2pc.entry_codec crashed_loads _ r]
    by (simp add: crashed_log_def)
  then show ?thesis using r by simp
qed

text \<open>
  C37: the state entry of a two-phase commit never leaves its initial state. The coordinator creates the
  entry as created and, at the end, asks for the transition to completed or failed and drops the
  answer; neither transition is allowed from created. So whatever the outcome of the run over a
  working local backend, the stored entry still says created, version one.
\<close>

theorem state_entry_stays_created:
  assumes "tp_backend T = LocalBackend J None"
    and "\<And>l. \<exists>d. tp_log_to_vec T l = Inr d \<and> tp_log_from_slice T d = Inr l"
    and "\<And>e. \<exists>d. to_vec (tp_entry_codec T) e = Inr d"
    and "codec_ok (tp_entry_codec T)" and "execute T tid ps md s = (s', res)"
  shows "get_state (LocalBackend J None) (tp_entry_codec T) (''2pc_'' @ tid) (fst s') =
    Inr (Some \<lparr>se_key = ''2pc_'' @ tid, se_current_state = ''created'', se_version = 1,
               se_metadata = tp_begin_metadata T\<rparr>)"
  by (rule coordinator.execute_entry [OF local_coordinator [OF assms(1-3)] assms(4,5)])

theorem state_entry_stays_created_witness:
  "get_state (LocalBackend sample_codec None) sample_codec ''2pc_t'' (fst (fst sample_success)) =
     Inr (Some \<lparr>se_key = ''2pc_t'', se_current_state = ''created'', se_version = 1, se_metadata = 0\<rparr>)"
  using state_entry_stays_created [OF local_2pc.backend local_2pc.log_codec local_2pc.entry_codec _ sample_success_eq]
    sample_codec_ok
  by (simp add: sample_coordinator_def)

end
