(* ===== verification/Csv_Export.thy ===== *)
theory Csv_Export
  imports Prelude
begin

text \<open>
  Text export of query results, \<^verbatim>\<open>crates/dbx-formats/src/csv_export.rs\<close>: quoting, the prefix that keeps
  spreadsheets from evaluating a cell as a formula, CSV and TSV rows.

  The functions of the source append to a buffer; here the buffer is the first argument and the result
  the longer buffer. Capacities that are only reserved are left out. Delimiter and quote are single
  bytes, that is ASCII characters. Of a JSON value the exporter sees the kind, the text of a string, and
  for numbers, arrays and objects the pieces of text that their \<^verbatim>\<open>Display\<close> implementation writes.
\<close>

section \<open>Data\<close>

datatype CsvQuoteMode = QuoteAll | QuoteNecessary | QuoteNever | QuoteStrings

datatype json_cell = JNull | JBool bool | JNumber string | JString string | JCompound "string list"

definition DEFAULT_CSV_NULL_LITERAL :: string where
  "DEFAULT_CSV_NULL_LITERAL = [CHR 0x5C, CHR ''N'']"

definition csv_null_literal :: "string \<Rightarrow> string option" where
  "csv_null_literal raw = (if raw = [] then None else Some raw)"

record CsvTextFormat =
  quote_mode :: CsvQuoteMode
  delimiter :: char
  quote_char :: char
  include_header :: bool
  null_literal :: "string option"

definition default_format :: CsvTextFormat where
  "default_format = \<lparr>quote_mode = QuoteAll, delimiter = CHR '','', quote_char = CHR 0x22,
     include_header = True, null_literal = None\<rparr>"

definition format_from :: "CsvQuoteMode \<Rightarrow> CsvTextFormat" where
  "format_from m = default_format\<lparr>quote_mode := m\<rparr>"

definition resolve_csv_delimiter :: "string \<Rightarrow> char" where
  "resolve_csv_delimiter v = (case v of [] \<Rightarrow> CHR '','' | c # _ \<Rightarrow> c)"

definition resolve_csv_quote_char :: "string \<Rightarrow> char" where
  "resolve_csv_quote_char v = (case v of [] \<Rightarrow> CHR 0x22 | c # _ \<Rightarrow> c)"

section \<open>Formulas\<close>

definition FORMULA_TRIGGER_BYTES :: string where
  "FORMULA_TRIGGER_BYTES = [CHR ''='', CHR ''+'', CHR ''-'', CHR ''@'', CHR 0x09, CHR 0x0D]"

definition EXCEL_SIGNIFICANT_DIGIT_LIMIT :: nat where
  "EXCEL_SIGNIFICANT_DIGIT_LIMIT = 15"

abbreviation apostrophe :: char where
  "apostrophe \<equiv> CHR 0x27"

definition is_ascii_digit :: "char \<Rightarrow> bool" where
  "is_ascii_digit c \<longleftrightarrow> 48 \<le> byte c \<and> byte c \<le> 57"

definition at_sign_begins_excel_formula :: "string \<Rightarrow> bool" where
  "at_sign_begins_excel_formula rest = (case rest of [] \<Rightarrow> False | c # _ \<Rightarrow> byte c < 128)"

definition valid_digits :: "string \<Rightarrow> bool" where
  "valid_digits part \<longleftrightarrow> part \<noteq> [] \<and> list_all is_ascii_digit part"

definition is_excel_exact_decimal_literal :: "string \<Rightarrow> bool" where
  "is_excel_exact_decimal_literal v =
     (let digits = (case v of c # r \<Rightarrow> if c = CHR ''+'' \<or> c = CHR ''-'' then r else v | [] \<Rightarrow> v);
          whole = takeWhile (\<lambda>c. c \<noteq> CHR ''.'') digits;
          valid = (if CHR ''.'' \<in> set digits
                   then valid_digits whole \<and> valid_digits (drop (length whole + 1) digits)
                   else valid_digits digits)
      in valid \<and> length (dropWhile (\<lambda>c. c = CHR ''0'') (filter (\<lambda>c. c \<noteq> CHR ''.'') digits))
           \<le> EXCEL_SIGNIFICANT_DIGIT_LIMIT)"

definition needs_formula_guard :: "string \<Rightarrow> bool" where
  "needs_formula_guard v = (case dropWhile (\<lambda>c. c = CHR '' '') v of
     [] \<Rightarrow> False
   | c # rest \<Rightarrow>
       if c = CHR ''-'' \<and> is_excel_exact_decimal_literal rest then False
       else if c = CHR ''@'' \<and> \<not> at_sign_begins_excel_formula rest then False
       else c \<in> set FORMULA_TRIGGER_BYTES)"

definition push_formula_guard :: "string \<Rightarrow> string \<Rightarrow> string" where
  "push_formula_guard out v =
     (if take 1 v = [apostrophe]
      then if take 1 (drop 1 v) = [apostrophe] \<or> needs_formula_guard (drop 1 v) then out @ [apostrophe] else out
      else if needs_formula_guard v then out @ [apostrophe] else out)"

definition strip_formula_guard :: "string \<Rightarrow> string" where
  "strip_formula_guard v =
     (if take 1 v = [apostrophe] \<and> (take 1 (drop 1 v) = [apostrophe] \<or> needs_formula_guard (drop 1 v))
      then drop 1 v else v)"

section \<open>Fields\<close>

text \<open>The loop copies up to and including the next quote, and writes the quote once more.\<close>

function push_csv_escaped_content :: "string \<Rightarrow> string \<Rightarrow> char \<Rightarrow> string" where
  "push_csv_escaped_content out rest q =
     (if q \<in> set rest
      then (let pos = length (takeWhile (\<lambda>c. c \<noteq> q) rest)
            in push_csv_escaped_content (out @ take (pos + 1) rest @ [q]) (drop (pos + 1) rest) q)
      else out @ rest)"
  by pat_completeness auto
termination
  by (relation "measure (\<lambda>(out, rest, q). length rest)") (auto intro!: diff_less intro: length_pos_if_in_set)

declare push_csv_escaped_content.simps [simp del]

definition push_csv_escaped_with_quote :: "string \<Rightarrow> string \<Rightarrow> char \<Rightarrow> string" where
  "push_csv_escaped_with_quote out v q = push_csv_escaped_content (out @ [q]) v q @ [q]"

definition push_csv_escaped :: "string \<Rightarrow> string \<Rightarrow> string" where
  "push_csv_escaped out v = push_csv_escaped_with_quote out v (CHR 0x22)"

definition csv_field_needs_quotes :: "string \<Rightarrow> char \<Rightarrow> char \<Rightarrow> bool" where
  "csv_field_needs_quotes v d q = list_ex (\<lambda>c. c = CHR 0x0A \<or> c = CHR 0x0D \<or> c = d \<or> c = q) v"

definition push_csv_field_with_format :: "string \<Rightarrow> string \<Rightarrow> CsvTextFormat \<Rightarrow> string" where
  "push_csv_field_with_format out v f =
     (if quote_mode f \<in> {QuoteAll, QuoteStrings} \<or>
         (quote_mode f = QuoteNecessary \<and> csv_field_needs_quotes v (delimiter f) (quote_char f))
      then push_csv_escaped_content (push_formula_guard (out @ [quote_char f]) v) v (quote_char f) @ [quote_char f]
      else push_formula_guard out v @ v)"

definition push_csv_field :: "string \<Rightarrow> string \<Rightarrow> CsvQuoteMode \<Rightarrow> string" where
  "push_csv_field out v m = push_csv_field_with_format out v (format_from m)"

text \<open>The writer that escapes each piece of text a value displays.\<close>

fun csv_escaped_writer :: "string \<Rightarrow> string list \<Rightarrow> char \<Rightarrow> string" where
  "csv_escaped_writer out [] q = out"
| "csv_escaped_writer out (piece # pieces) q = csv_escaped_writer (push_csv_escaped_content out piece q) pieces q"

definition bool_text :: "bool \<Rightarrow> string" where
  "bool_text b = (if b then ''true'' else ''false'')"

definition push_csv_text_value_with_quote :: "string \<Rightarrow> json_cell \<Rightarrow> char \<Rightarrow> string" where
  "push_csv_text_value_with_quote out v q =
     (let out = out @ [q]
      in (case v of
            JNull \<Rightarrow> out
          | JString s \<Rightarrow> push_csv_escaped_content (push_formula_guard out s) s q
          | JBool b \<Rightarrow> out @ bool_text b
          | JNumber n \<Rightarrow> out @ n
          | JCompound pieces \<Rightarrow> csv_escaped_writer out pieces q) @ [q])"

definition push_csv_text_value :: "string \<Rightarrow> json_cell \<Rightarrow> string" where
  "push_csv_text_value out v = push_csv_text_value_with_quote out v (CHR 0x22)"

definition push_csv_value_formatted :: "string \<Rightarrow> json_cell \<Rightarrow> CsvTextFormat \<Rightarrow> bool \<Rightarrow> string" where
  "push_csv_value_formatted out v f quote_null =
     (if v = JNull \<and> null_literal f \<noteq> None
      then push_csv_field_with_format out (the (null_literal f)) (f\<lparr>quote_mode := QuoteNecessary\<rparr>)
      else if quote_mode f = QuoteAll
      then if v = JNull \<and> \<not> quote_null then out else push_csv_text_value_with_quote out v (quote_char f)
      else (case v of
          JNull \<Rightarrow> out
        | JString s \<Rightarrow> push_csv_field_with_format out s f
        | JBool b \<Rightarrow> out @ bool_text b
        | JNumber n \<Rightarrow> out @ n
        | JCompound pieces \<Rightarrow> push_csv_field_with_format out (concat pieces) f))"

section \<open>Rows\<close>

text \<open>The loops over cells, columns and rows write a separator before every element but the first.\<close>

fun push_rest :: "string \<Rightarrow> (string \<Rightarrow> 'a \<Rightarrow> string) \<Rightarrow> string \<Rightarrow> 'a list \<Rightarrow> string" where
  "push_rest sep push out [] = out"
| "push_rest sep push out (x # xs) = push_rest sep push (push (out @ sep) x) xs"

definition push_separated :: "string \<Rightarrow> (string \<Rightarrow> 'a \<Rightarrow> string) \<Rightarrow> string \<Rightarrow> 'a list \<Rightarrow> string" where
  "push_separated sep push out xs = (case xs of [] \<Rightarrow> out | x # xs \<Rightarrow> push_rest sep push (push out x) xs)"

abbreviation newline :: char where
  "newline \<equiv> CHR 0x0A"

definition push_query_result_csv_row_with_format :: "string \<Rightarrow> json_cell list \<Rightarrow> CsvTextFormat \<Rightarrow> string" where
  "push_query_result_csv_row_with_format out row f =
     push_separated [delimiter f] (\<lambda>out cell. push_csv_value_formatted out cell f False) out row"

definition push_query_result_csv_row_with_quote_mode :: "string \<Rightarrow> json_cell list \<Rightarrow> CsvQuoteMode \<Rightarrow> string" where
  "push_query_result_csv_row_with_quote_mode out row m = push_query_result_csv_row_with_format out row (format_from m)"

definition push_query_result_csv_row :: "string \<Rightarrow> json_cell list \<Rightarrow> string" where
  "push_query_result_csv_row out row = push_query_result_csv_row_with_quote_mode out row QuoteAll"

definition format_with_null_literal :: "CsvQuoteMode \<Rightarrow> string option \<Rightarrow> CsvTextFormat" where
  "format_with_null_literal m literal = (format_from m)\<lparr>null_literal := literal\<rparr>"

definition push_query_result_csv_row_with_options ::
  "string \<Rightarrow> json_cell list \<Rightarrow> CsvQuoteMode \<Rightarrow> string option \<Rightarrow> string" where
  "push_query_result_csv_row_with_options out row m literal =
     push_query_result_csv_row_with_format out row (format_with_null_literal m literal)"

definition push_table_csv_row_with_format :: "string \<Rightarrow> json_cell list \<Rightarrow> CsvTextFormat \<Rightarrow> string" where
  "push_table_csv_row_with_format out row f =
     push_separated [delimiter f] (\<lambda>out cell. push_csv_value_formatted out cell f True) out row"

definition push_table_csv_row_with_options ::
  "string \<Rightarrow> json_cell list \<Rightarrow> CsvQuoteMode \<Rightarrow> string option \<Rightarrow> string" where
  "push_table_csv_row_with_options out row m literal =
     push_table_csv_row_with_format out row (format_with_null_literal m literal)"

definition format_csv_with_format :: "string list \<Rightarrow> json_cell list list \<Rightarrow> CsvTextFormat \<Rightarrow> string" where
  "format_csv_with_format columns rows f =
     (let out = (if include_header f
                 then push_separated [delimiter f] (\<lambda>out column. push_csv_field_with_format out column f) [] columns
                      @ [newline]
                 else [])
      in push_separated [newline] (\<lambda>out row. push_query_result_csv_row_with_format out row f) out rows)"

definition format_csv_with_options ::
  "string list \<Rightarrow> json_cell list list \<Rightarrow> CsvQuoteMode \<Rightarrow> string option \<Rightarrow> string" where
  "format_csv_with_options columns rows m literal =
     format_csv_with_format columns rows (format_with_null_literal m literal)"

definition format_query_result_csv_rows :: "json_cell list list \<Rightarrow> string" where
  "format_query_result_csv_rows rows = push_separated [newline] push_query_result_csv_row [] rows"

definition format_csv :: "string list \<Rightarrow> json_cell list list \<Rightarrow> string" where
  "format_csv columns rows =
     push_separated [newline] push_query_result_csv_row
       (push_separated '','' (\<lambda>out column. push_csv_field out column QuoteAll) [] columns @ [newline]) rows"

section \<open>Tab-separated text\<close>

definition push_tsv_escaped :: "string \<Rightarrow> string \<Rightarrow> string" where
  "push_tsv_escaped out v =
     (if CHR 0x09 \<in> set v \<or> CHR 0x0A \<in> set v \<or> CHR 0x0D \<in> set v \<or> CHR 0x22 \<in> set v
      then push_csv_escaped_content (push_formula_guard (out @ [CHR 0x22]) v) v (CHR 0x22) @ [CHR 0x22]
      else push_formula_guard out v @ v)"

definition push_tsv_value :: "string \<Rightarrow> json_cell \<Rightarrow> string option \<Rightarrow> string" where
  "push_tsv_value out v literal =
     (if v = JNull \<and> literal \<noteq> None then push_tsv_escaped out (the literal)
      else (case v of
          JNull \<Rightarrow> out
        | JString s \<Rightarrow> push_tsv_escaped out s
        | JBool b \<Rightarrow> out @ bool_text b
        | JNumber n \<Rightarrow> out @ n
        | JCompound pieces \<Rightarrow> push_tsv_escaped out (concat pieces)))"

definition push_tsv_row :: "string \<Rightarrow> json_cell list \<Rightarrow> string option \<Rightarrow> string" where
  "push_tsv_row out row literal = push_separated [CHR 0x09] (\<lambda>out cell. push_tsv_value out cell literal) out row"

definition push_tsv_rows :: "string \<Rightarrow> json_cell list list \<Rightarrow> string option \<Rightarrow> string" where
  "push_tsv_rows out rows literal = push_separated [newline] (\<lambda>out row. push_tsv_row out row literal) out rows"

definition format_tsv :: "string list \<Rightarrow> json_cell list list \<Rightarrow> string" where
  "format_tsv columns rows =
     push_tsv_rows (push_separated [CHR 0x09] push_tsv_escaped [] columns @ [newline]) rows None"

section \<open>Writing to a stream\<close>

text \<open>A stream may refuse a write; the rest of the row is then not written.\<close>

type_synonym 'w stream = "string \<Rightarrow> 'w \<Rightarrow> 'w \<times> (string + unit)"

fun write_rest :: "'w stream \<Rightarrow> string \<Rightarrow> ('a \<Rightarrow> string) \<Rightarrow> 'a list \<Rightarrow> bool \<Rightarrow> 'w \<Rightarrow> 'w \<times> (string + unit)" where
  "write_rest write_all sep text_of [] first w = (w, Inr ())"
| "write_rest write_all sep text_of (v # vs) first w =
     (case (if first then (w, Inr ()) else write_all sep w) of
        (w1, Inl e) \<Rightarrow> (w1, Inl e)
      | (w1, Inr _) \<Rightarrow> (case write_all (text_of v) w1 of
          (w2, Inl e) \<Rightarrow> (w2, Inl e)
        | (w2, Inr _) \<Rightarrow> write_rest write_all sep text_of vs False w2))"

definition write_csv_text_row_with_format ::
  "'w stream \<Rightarrow> string list \<Rightarrow> CsvTextFormat \<Rightarrow> 'w \<Rightarrow> 'w \<times> (string + unit)" where
  "write_csv_text_row_with_format write_all values f =
     write_rest write_all [delimiter f] (\<lambda>v. push_csv_field_with_format [] v f) values True"

definition write_csv_value_row_with_format ::
  "'w stream \<Rightarrow> json_cell list \<Rightarrow> CsvTextFormat \<Rightarrow> 'w \<Rightarrow> 'w \<times> (string + unit)" where
  "write_csv_value_row_with_format write_all values f =
     write_rest write_all [delimiter f] (\<lambda>v. push_csv_value_formatted [] v f False) values True"

end
