(* ===== verification/Csv_Export_Laws.thy ===== *)
theory Csv_Export_Laws
  imports Csv_Export
begin

text \<open>
  Laws of the text export: the escaping loop doubles every quote, the formula guard can be taken off
  again and leaves nothing a spreadsheet would evaluate, and a reader of CSV text gets back the
  columns and cells that were written.
\<close>

section \<open>Escaping\<close>

definition double_quotes :: "char \<Rightarrow> string \<Rightarrow> string" where
  "double_quotes q v = concat (map (\<lambda>c. if c = q then [q, q] else [c]) v)"

lemma double_quotes_simps [simp]:
  "double_quotes q [] = []"
  "double_quotes q (c # v) = (if c = q then q # q # double_quotes q v else c # double_quotes q v)"
  "double_quotes q (v @ w) = double_quotes q v @ double_quotes q w"
  by (simp_all add: double_quotes_def)

lemma double_quotes_id: "q \<notin> set v \<Longrightarrow> double_quotes q v = v"
  by (induction v) auto

lemma push_csv_escaped_content: "push_csv_escaped_content out v q = out @ double_quotes q v"
proof (induction out v q rule: push_csv_escaped_content.induct)
  case (1 out rest q)
  show ?case
  proof (cases "q \<in> set rest")
    case True
    then obtain pre post where r: "rest = pre @ q # post" "q \<notin> set pre" using split_list_first by metis
    have "takeWhile (\<lambda>c. c \<noteq> q) rest = pre" unfolding r by (subst takeWhile_append2) (use r(2) in auto)
    then have "push_csv_escaped_content out rest q = out @ pre @ q # q # double_quotes q post"
      using 1 [OF True refl] by (simp add: push_csv_escaped_content.simps [of out "pre @ q # post"] r Let_def)
    then show ?thesis using double_quotes_id [OF r(2)] r by simp
  qed (simp add: push_csv_escaped_content.simps [of out rest] double_quotes_id)
qed

lemma csv_escaped_writer: "csv_escaped_writer out pieces q = out @ double_quotes q (concat pieces)"
  by (induction pieces arbitrary: out) (simp_all add: push_csv_escaped_content)

section \<open>The formula guard\<close>

text \<open>What the guard adds in front of a text.\<close>

definition guard :: "string \<Rightarrow> string" where
  "guard v = push_formula_guard [] v"

lemma push_formula_guard: "push_formula_guard out v = out @ guard v"
  by (simp add: guard_def push_formula_guard_def)

lemma guard_cases: "guard v = [] \<or> guard v = [apostrophe]"
  by (simp add: guard_def push_formula_guard_def)

lemma double_guard: "q \<noteq> apostrophe \<Longrightarrow> double_quotes q (guard v) = guard v"
  using guard_cases [of v] by auto

lemma apostrophe_unguarded: "\<not> needs_formula_guard (apostrophe # v)"
  by (simp add: needs_formula_guard_def FORMULA_TRIGGER_BYTES_def)

lemma strip_guard: "strip_formula_guard (guard v @ v) = v"
proof (cases v)
  case (Cons c r)
  then show ?thesis
    by (cases "c = apostrophe") (auto simp: guard_def push_formula_guard_def strip_formula_guard_def)
qed (simp add: guard_def push_formula_guard_def strip_formula_guard_def needs_formula_guard_def)

lemma guarded_neutral: "\<not> needs_formula_guard (guard v @ v)"
proof (cases v)
  case (Cons c r)
  then show ?thesis
    by (cases "c = apostrophe") (auto simp: guard_def push_formula_guard_def apostrophe_unguarded)
qed (simp add: guard_def push_formula_guard_def needs_formula_guard_def)

lemma strip_id: "take 1 v \<noteq> [apostrophe] \<Longrightarrow> strip_formula_guard v = v"
  by (simp add: strip_formula_guard_def)

section \<open>A reader of separated text\<close>

text \<open>
  A reader that accepts what the writers produce: records end at line feeds, fields at delimiters; a
  field that starts with the quote runs to the closing quote, and a doubled quote in it is one quote.
  With each field it says whether the field was quoted.
\<close>

datatype reader_state = FieldStart | InPlain | InQuotes | QuoteSeen

type_synonym field = "bool \<times> string"

primrec read_fields :: "char \<Rightarrow> char \<Rightarrow> reader_state \<Rightarrow> field \<Rightarrow> field list \<Rightarrow> string \<Rightarrow> field list list" where
  "read_fields d q st f fs [] = [fs @ [f]]"
| "read_fields d q st f fs (c # s) =
     (let next_field = read_fields d q FieldStart (False, []) (fs @ [f]) s;
          next_record = (fs @ [f]) # read_fields d q FieldStart (False, []) [] s;
          plain = read_fields d q InPlain (fst f, snd f @ [c]) fs s
      in case st of
           FieldStart \<Rightarrow> if c = q then read_fields d q InQuotes (True, []) fs s
             else if c = d then next_field else if c = newline then next_record else plain
         | InPlain \<Rightarrow> if c = d then next_field else if c = newline then next_record else plain
         | InQuotes \<Rightarrow> if c = q then read_fields d q QuoteSeen f fs s
             else read_fields d q InQuotes (fst f, snd f @ [c]) fs s
         | QuoteSeen \<Rightarrow> if c = q then read_fields d q InQuotes (fst f, snd f @ [q]) fs s
             else if c = d then next_field else if c = newline then next_record else plain)"

definition read_csv :: "char \<Rightarrow> char \<Rightarrow> string \<Rightarrow> field list list" where
  "read_csv d q s = read_fields d q FieldStart (False, []) [] s"

text \<open>A text that reads as one field, whatever follows it.\<close>

definition ends_field :: "char \<Rightarrow> string \<Rightarrow> bool" where
  "ends_field d rest \<longleftrightarrow> rest = [] \<or> hd rest = d \<or> hd rest = newline"

definition reads_as :: "char \<Rightarrow> char \<Rightarrow> string \<Rightarrow> field \<Rightarrow> bool" where
  "reads_as d q t f \<longleftrightarrow> (\<forall>fs rest. ends_field d rest \<longrightarrow>
     read_fields d q FieldStart (False, []) fs (t @ rest) =
       (case rest of
          [] \<Rightarrow> [fs @ [f]]
        | c # s \<Rightarrow> if c = d then read_fields d q FieldStart (False, []) (fs @ [f]) s
                   else (fs @ [f]) # read_fields d q FieldStart (False, []) [] s))"

lemma read_plain:
  assumes "set v \<inter> {d, newline} = {}" and "ends_field d rest"
  shows "read_fields d q InPlain f fs (v @ rest) =
    (case rest of
       [] \<Rightarrow> [fs @ [(fst f, snd f @ v)]]
     | c # s \<Rightarrow> if c = d then read_fields d q FieldStart (False, []) (fs @ [(fst f, snd f @ v)]) s
                else (fs @ [(fst f, snd f @ v)]) # read_fields d q FieldStart (False, []) [] s)"
  using assms by (induction v arbitrary: f) (auto simp: ends_field_def split: list.split)

lemma reads_plain:
  assumes "set v \<inter> {d, newline} = {}" and "q \<noteq> d" and "q \<noteq> newline" and "take 1 v \<noteq> [q]"
  shows "reads_as d q v (False, v)"
proof (cases v)
  case Nil
  then show ?thesis using assms by (auto simp: reads_as_def ends_field_def split: list.split)
next
  case (Cons c w)
  then show ?thesis using assms read_plain [of w d _ q "(False, [c])"]
    by (auto simp: reads_as_def split: list.split)
qed

lemma read_quoted:
  assumes "d \<noteq> q" and "q \<noteq> newline" and "ends_field d rest"
  shows "read_fields d q InQuotes f fs (double_quotes q v @ q # rest) =
    (case rest of
       [] \<Rightarrow> [fs @ [(fst f, snd f @ v)]]
     | c # s \<Rightarrow> if c = d then read_fields d q FieldStart (False, []) (fs @ [(fst f, snd f @ v)]) s
                else (fs @ [(fst f, snd f @ v)]) # read_fields d q FieldStart (False, []) [] s)"
  using assms by (induction v arbitrary: f) (auto simp: ends_field_def split: list.split)

lemma reads_quoted:
  assumes "d \<noteq> q" and "q \<noteq> newline"
  shows "reads_as d q (q # double_quotes q v @ [q]) (True, v)"
  unfolding reads_as_def using read_quoted [OF assms, of _ "(True, [])" _ v] by (simp split: list.split)

text \<open>A row of such texts reads as the row of their fields.\<close>

definition separated :: "string \<Rightarrow> string list \<Rightarrow> string" where
  "separated sep ts = (case ts of [] \<Rightarrow> [] | t # ts \<Rightarrow> t @ concat (map (\<lambda>t. sep @ t) ts))"

lemma separated_simps [simp]:
  "separated sep [] = []" "separated sep [t] = t" "separated sep (t # u # ts) = t @ sep @ separated sep (u # ts)"
  by (simp_all add: separated_def)

lemma read_row:
  assumes "list_all2 (reads_as d q) ts fs" and "ts \<noteq> []" and "rest = [] \<or> hd rest = newline" and "d \<noteq> newline"
  shows "read_fields d q FieldStart (False, []) gs (separated [d] ts @ rest) =
    (case rest of [] \<Rightarrow> [gs @ fs] | c # s \<Rightarrow> (gs @ fs) # read_fields d q FieldStart (False, []) [] s)"
  using assms
proof (induction ts arbitrary: fs gs rule: induct_list012)
  case (2 t)
  then obtain f where "fs = [f]" "reads_as d q t f" by (auto simp: list_all2_Cons1)
  then show ?case using 2 by (auto simp: reads_as_def ends_field_def split: list.split)
next
  case (3 t u ts)
  then obtain f fs' where f: "fs = f # fs'" "reads_as d q t f" "list_all2 (reads_as d q) (u # ts) fs'"
    by (auto simp: list_all2_Cons1)
  have "ends_field d (d # separated [d] (u # ts) @ rest)" by (simp add: ends_field_def)
  then have "read_fields d q FieldStart (False, []) gs (t @ d # separated [d] (u # ts) @ rest) =
      read_fields d q FieldStart (False, []) (gs @ [f]) (separated [d] (u # ts) @ rest)"
    using f(2) unfolding reads_as_def by simp
  then show ?case using 3 f by (simp split: list.split)
qed simp

lemma read_rows:
  assumes "list_all2 (list_all2 (reads_as d q)) rows fss" and "\<forall>r\<in>set rows. r \<noteq> []" and "rows \<noteq> []" and "d \<noteq> newline"
  shows "read_csv d q (separated [newline] (map (separated [d]) rows)) = fss"
  using assms
proof (induction rows arbitrary: fss rule: induct_list012)
  case (2 r)
  then obtain fs where "fss = [fs]" "list_all2 (reads_as d q) r fs" by (auto simp: list_all2_Cons1)
  then show ?case using 2 read_row [of d q r fs "[]" "[]"] by (simp add: read_csv_def)
next
  case (3 r u rows)
  then obtain fs fss' where f: "fss = fs # fss'" "list_all2 (reads_as d q) r fs" "list_all2 (list_all2 (reads_as d q)) (u # rows) fss'"
    by (auto simp: list_all2_Cons1)
  have "read_csv d q (separated [d] r @ newline # separated [newline] (map (separated [d]) (u # rows))) =
      fs # read_csv d q (separated [newline] (map (separated [d]) (u # rows)))"
    using 3 f read_row [of d q r fs "newline # separated [newline] (map (separated [d]) (u # rows))" "[]"]
    by (simp add: read_csv_def)
  then show ?case using 3 f by simp
qed simp

section \<open>The writers append\<close>

lemma push_field_append: "push_csv_field_with_format out v f = out @ push_csv_field_with_format [] v f"
  by (simp add: push_csv_field_with_format_def push_csv_escaped_content push_formula_guard)

lemma push_value_append: "push_csv_value_formatted out v f n = out @ push_csv_value_formatted [] v f n"
  using push_field_append [of out]
  by (cases v; cases "null_literal f") (simp_all add: push_csv_value_formatted_def push_csv_text_value_with_quote_def
      push_csv_escaped_content push_formula_guard csv_escaped_writer Let_def)

lemma push_rest_append:
  assumes "\<And>out x. push out x = out @ push [] x"
  shows "push_rest sep push out xs = out @ concat (map (\<lambda>x. sep @ push [] x) xs)"
proof (induction xs arbitrary: out)
  case (Cons x xs)
  show ?case unfolding push_rest.simps Cons assms [of "out @ sep" x] by simp
qed simp

lemma push_separated_append:
  assumes "\<And>out x. push out x = out @ push [] x"
  shows "push_separated sep push out xs = out @ separated sep (map (push []) xs)"
proof -
  note rest = push_rest_append [of push, OF assms]
  show ?thesis
  proof (cases xs)
    case (Cons x ys)
    have "push_separated sep push out xs = push out x @ concat (map (\<lambda>x. sep @ push [] x) ys)"
      using rest by (simp add: push_separated_def Cons)
    then show ?thesis using assms [of out x] by (simp add: Cons separated_def comp_def)
  qed (simp add: push_separated_def)
qed

lemma push_row_append:
  "push_query_result_csv_row_with_format out row f =
     out @ separated [delimiter f] (map (\<lambda>v. push_csv_value_formatted [] v f False) row)"
  unfolding push_query_result_csv_row_with_format_def by (rule push_separated_append) (rule push_value_append)

lemma push_columns_append:
  "push_separated [delimiter f] (\<lambda>out column. push_csv_field_with_format out column f) out columns =
     out @ separated [delimiter f] (map (\<lambda>c. push_csv_field_with_format [] c f) columns)"
  by (rule push_separated_append) (rule push_field_append)

lemma format_csv_text:
  assumes "include_header f" and "rows \<noteq> []"
  shows "format_csv_with_format columns rows f = separated [newline] (map (separated [delimiter f])
    (map (\<lambda>c. push_csv_field_with_format [] c f) columns # map (map (\<lambda>v. push_csv_value_formatted [] v f False)) rows))"
proof -
  have "push_separated [newline] (\<lambda>out row. push_query_result_csv_row_with_format out row f) out rows =
      out @ separated [newline] (map (\<lambda>row. push_query_result_csv_row_with_format [] row f) rows)" for out
    by (rule push_separated_append) (subst (1 2) push_row_append, simp)
  moreover obtain r rs where "rows = r # rs" using assms(2) by (cases rows) auto
  ultimately show ?thesis using assms(1)
    by (simp add: format_csv_with_format_def push_columns_append push_row_append Let_def comp_def)
qed

section \<open>What a reader gets\<close>

text \<open>The characters of numbers and truth values, which are written without quotes in some modes.\<close>

definition bare_chars :: "char set" where
  "bare_chars = set ''0123456789+-.eEtrufals''"

definition json_wf :: "json_cell \<Rightarrow> bool" where
  "json_wf v = (case v of
     JNumber n \<Rightarrow> set n \<subseteq> bare_chars
   | JCompound pieces \<Rightarrow> take 1 (concat pieces) \<in> {''['', ''{''}
   | _ \<Rightarrow> True)"

definition sound_format :: "CsvTextFormat \<Rightarrow> bool" where
  "sound_format f \<longleftrightarrow> quote_mode f \<noteq> QuoteNever \<and> delimiter f \<noteq> quote_char f \<and>
     {delimiter f, quote_char f} \<inter> (bare_chars \<union> {newline, apostrophe}) = {}"

definition cell_text :: "CsvTextFormat \<Rightarrow> json_cell \<Rightarrow> string" where
  "cell_text f v = (case v of
     JNull \<Rightarrow> unwrap_or [] (null_literal f)
   | JBool b \<Rightarrow> bool_text b
   | JNumber n \<Rightarrow> n
   | JString s \<Rightarrow> s
   | JCompound pieces \<Rightarrow> concat pieces)"

definition raw_text :: "CsvTextFormat \<Rightarrow> json_cell \<Rightarrow> string" where
  "raw_text f v = (case v of
     JNull \<Rightarrow> (case null_literal f of None \<Rightarrow> [] | Some l \<Rightarrow> guard l @ l)
   | JString s \<Rightarrow> guard s @ s
   | _ \<Rightarrow> cell_text f v)"

lemma apostrophe_not_bare: "apostrophe \<notin> bare_chars" "newline \<notin> bare_chars"
  by (simp_all add: bare_chars_def)

lemma take1_notin: "c \<notin> set v \<Longrightarrow> take 1 v \<noteq> [c]"
  by (cases v) auto

lemma compound_unguarded: "json_wf (JCompound pieces) \<Longrightarrow> guard (concat pieces) = [] \<and> take 1 (concat pieces) \<noteq> [apostrophe]"
  by (cases "concat pieces") (auto simp: json_wf_def guard_def push_formula_guard_def needs_formula_guard_def FORMULA_TRIGGER_BYTES_def)

lemma strip_raw: "json_wf v \<Longrightarrow> strip_formula_guard (raw_text f v) = cell_text f v"
proof (cases v)
  case (JNumber n)
  assume "json_wf v"
  then have "apostrophe \<notin> set n" using apostrophe_not_bare by (auto simp: JNumber json_wf_def)
  then show ?thesis by (simp add: JNumber raw_text_def cell_text_def strip_id [OF take1_notin])
next
  case (JCompound pieces)
  assume "json_wf v"
  then show ?thesis using strip_id [of "concat pieces"] compound_unguarded
    by (simp add: JCompound raw_text_def cell_text_def)
qed (auto simp: raw_text_def cell_text_def strip_guard strip_id bool_text_def split: option.split)

lemma field_reads:
  assumes "sound_format f"
  shows "\<exists>b. reads_as (delimiter f) (quote_char f) (push_csv_field_with_format [] v f) (b, guard v @ v)"
proof -
  let ?d = "delimiter f" and ?q = "quote_char f"
  have d: "?d \<noteq> ?q" "?q \<noteq> newline" "?d \<noteq> newline" "?q \<noteq> apostrophe" "?d \<noteq> apostrophe" "quote_mode f \<noteq> QuoteNever"
    using assms by (auto simp: sound_format_def)
  have dbl: "double_quotes ?q (guard v @ v) = guard v @ double_quotes ?q v"
    using double_guard d(4) by simp
  consider "push_csv_field_with_format [] v f = ?q # double_quotes ?q (guard v @ v) @ [?q]"
    | "push_csv_field_with_format [] v f = guard v @ v" "\<not> csv_field_needs_quotes v ?d ?q"
    using d(6) unfolding dbl
    by (cases "quote_mode f"; cases "csv_field_needs_quotes v ?d ?q")
      (simp_all add: push_csv_field_with_format_def push_csv_escaped_content push_formula_guard)
  then show ?thesis
  proof cases
    case 1
    then show ?thesis using reads_quoted [OF d(1,2), of "guard v @ v"] by auto
  next
    case 2
    have v: "set v \<inter> {?d, newline} = {}" "?q \<notin> set v"
      using 2(2) by (auto simp: csv_field_needs_quotes_def list_ex_iff)
    have "set (guard v @ v) \<inter> {?d, newline} = {}" "?q \<notin> set (guard v @ v)"
      using v guard_cases [of v] d by auto
    then show ?thesis using reads_plain [OF _ d(1) [symmetric] d(2) take1_notin] 2(1) by metis
  qed
qed

lemma bare_reads:
  assumes "sound_format f" and "set t \<subseteq> bare_chars"
  shows "reads_as (delimiter f) (quote_char f) t (False, t)"
proof (rule reads_plain)
  show "set t \<inter> {delimiter f, newline} = {}" using assms apostrophe_not_bare by (auto simp: sound_format_def)
  show "take 1 t \<noteq> [quote_char f]" by (rule take1_notin) (use assms in \<open>auto simp: sound_format_def\<close>)
qed (use assms(1) in \<open>auto simp: sound_format_def\<close>)

lemma quoted_reads:
  "sound_format f \<Longrightarrow> reads_as (delimiter f) (quote_char f) (quote_char f # double_quotes (quote_char f) t @ [quote_char f]) (True, t)"
  by (rule reads_quoted) (auto simp: sound_format_def)

lemma bool_bare: "set (bool_text b) \<subseteq> bare_chars"
  by (simp add: bool_text_def bare_chars_def)

lemma double_bare: "sound_format f \<Longrightarrow> set t \<subseteq> bare_chars \<Longrightarrow> double_quotes (quote_char f) t = t"
  by (rule double_quotes_id) (auto simp: sound_format_def)

lemma quoted_value:
  assumes f: "sound_format f" and v: "json_wf v" and "v \<noteq> JNull"
  shows "push_csv_text_value_with_quote out v (quote_char f) =
    out @ quote_char f # double_quotes (quote_char f) (raw_text f v) @ [quote_char f]"
proof -
  note rules = push_csv_text_value_with_quote_def raw_text_def cell_text_def Let_def
  show ?thesis
  proof (cases v)
    case (JBool b)
    then show ?thesis by (simp add: rules double_bare [OF f bool_bare])
  next
    case (JNumber n)
    then show ?thesis using v by (simp add: rules json_wf_def double_bare [OF f])
  next
    case (JString t)
    have "quote_char f \<noteq> apostrophe" using f by (auto simp: sound_format_def)
    then show ?thesis by (simp add: JString rules push_csv_escaped_content push_formula_guard double_guard)
  next
    case (JCompound pieces)
    then show ?thesis by (simp add: rules csv_escaped_writer)
  qed (use assms(3) in simp)
qed

lemma value_reads:
  assumes f: "sound_format f" and v: "json_wf v"
  shows "\<exists>b. reads_as (delimiter f) (quote_char f) (push_csv_value_formatted [] v f False) (b, raw_text f v)"
proof (cases "v = JNull \<and> null_literal f \<noteq> None")
  case True
  then obtain l where l: "v = JNull" "null_literal f = Some l" by auto
  have "sound_format (f\<lparr>quote_mode := QuoteNecessary\<rparr>)" using f by (simp add: sound_format_def)
  from field_reads [OF this, of l] show ?thesis by (simp add: l push_csv_value_formatted_def raw_text_def)
next
  case other: False
  show ?thesis
  proof (cases "quote_mode f = QuoteAll")
    case True
    have "v \<noteq> JNull \<Longrightarrow> push_csv_value_formatted [] v f False =
        quote_char f # double_quotes (quote_char f) (raw_text f v) @ [quote_char f]"
      using quoted_value [OF f v, of "[]"] True by (simp add: push_csv_value_formatted_def)
    moreover have "v = JNull \<Longrightarrow> push_csv_value_formatted [] v f False = [] \<and> raw_text f v = []"
      using other True by (auto simp: push_csv_value_formatted_def raw_text_def)
    ultimately show ?thesis using quoted_reads [OF f] bare_reads [OF f, of "[]"] by (cases "v = JNull") auto
  next
    case False
    note rules = push_csv_value_formatted_def raw_text_def cell_text_def
    show ?thesis
    proof (cases v)
      case JNull
      then show ?thesis using other False bare_reads [OF f, of "[]"] by (auto simp: rules)
    next
      case (JBool b)
      then show ?thesis using False bare_reads [OF f bool_bare, of b] by (auto simp: rules)
    next
      case (JNumber n)
      then show ?thesis using v False bare_reads [OF f, of n] by (auto simp: rules json_wf_def)
    next
      case (JString t)
      then show ?thesis using False field_reads [OF f, of t] by (simp add: rules)
    next
      case (JCompound pieces)
      then show ?thesis using v False field_reads [OF f, of "concat pieces"] compound_unguarded by (simp add: rules)
    qed
  qed
qed

text \<open>Every table has a reading whose texts are the columns and cells behind their guards.\<close>

definition header_texts :: "string list \<Rightarrow> string list" where
  "header_texts columns = map (\<lambda>c. guard c @ c) columns"

lemma all_reads:
  assumes "\<And>x. x \<in> set xs \<Longrightarrow> \<exists>b. reads_as d q (t x) (b, r x)"
  shows "\<exists>fs. list_all2 (reads_as d q) (map t xs) fs \<and> map snd fs = map r xs"
  using assms
proof (induction xs)
  case (Cons x xs)
  obtain b where "reads_as d q (t x) (b, r x)" using Cons.prems [of x] by auto
  moreover obtain fs where "list_all2 (reads_as d q) (map t xs) fs" "map snd fs = map r xs" using Cons by auto
  ultimately show ?case by (intro exI [of _ "(b, r x) # fs"]) simp
qed simp

lemma all_rows_read:
  assumes "\<And>row. row \<in> set rows \<Longrightarrow> \<exists>fs. list_all2 (reads_as d q) (t row) fs \<and> map snd fs = r row"
  shows "\<exists>fss. list_all2 (list_all2 (reads_as d q)) (map t rows) fss \<and> map (map snd) fss = map r rows"
  using assms
proof (induction rows)
  case (Cons row rows)
  obtain fs where "list_all2 (reads_as d q) (t row) fs" "map snd fs = r row" using Cons.prems [of row] by auto
  moreover obtain fss where "list_all2 (list_all2 (reads_as d q)) (map t rows) fss" "map (map snd) fss = map r rows"
    using Cons by auto
  ultimately show ?case by (intro exI [of _ "fs # fss"]) simp
qed simp

definition table_wf :: "string list \<Rightarrow> json_cell list list \<Rightarrow> bool" where
  "table_wf columns rows \<longleftrightarrow> columns \<noteq> [] \<and> rows \<noteq> [] \<and> list_all (\<lambda>row. row \<noteq> [] \<and> list_all json_wf row) rows"

lemma format_reads:
  assumes f: "sound_format f" and h: "include_header f" and t: "table_wf columns rows"
  shows "map (map snd) (read_csv (delimiter f) (quote_char f) (format_csv_with_format columns rows f)) =
    header_texts columns # map (map (raw_text f)) rows"
proof -
  let ?d = "delimiter f" and ?q = "quote_char f"
  obtain hs where hs: "list_all2 (reads_as ?d ?q) (map (\<lambda>c. push_csv_field_with_format [] c f) columns) hs"
    "map snd hs = header_texts columns"
    using all_reads [of columns ?d ?q "\<lambda>c. push_csv_field_with_format [] c f" "\<lambda>c. guard c @ c"] field_reads [OF f]
    unfolding header_texts_def by blast
  have "\<exists>fs. list_all2 (reads_as ?d ?q) (map (\<lambda>v. push_csv_value_formatted [] v f False) row) fs \<and>
      map snd fs = map (raw_text f) row" if "row \<in> set rows" for row
    by (rule all_reads) (use that t value_reads [OF f] in \<open>auto simp: table_wf_def list_all_iff\<close>)
  then obtain fss where fss: "list_all2 (list_all2 (reads_as ?d ?q)) (map (map (\<lambda>v. push_csv_value_formatted [] v f False)) rows) fss"
    "map (map snd) fss = map (map (raw_text f)) rows"
    using all_rows_read [of rows ?d ?q "map (\<lambda>v. push_csv_value_formatted [] v f False)" "map (raw_text f)"] by blast
  have "?d \<noteq> newline" using f by (auto simp: sound_format_def)
  then have "read_csv ?d ?q (format_csv_with_format columns rows f) = hs # fss"
    unfolding format_csv_text [OF h table_wf_def [THEN iffD1, OF t, THEN conjunct2, THEN conjunct1]]
    by (intro read_rows) (use hs(1) fss(1) t in \<open>auto simp: table_wf_def list_all_iff\<close>)
  then show ?thesis using hs(2) fss(2) by simp
qed

section \<open>Round trip and formulas\<close>

text \<open>
  C8: an exported table can be read back. In every quoting mode but the one that never quotes, with a
  delimiter and a quote that are not characters of bare numbers, line feeds or the apostrophe, a reader
  of the exported text finds the header and the rows, and after taking off the formula guard from every
  field the texts are the column names and the cells' texts, whatever characters these contain.
\<close>

theorem csv_round_trip:
  assumes "sound_format f" and "include_header f" and "table_wf columns rows"
  shows "map (map (strip_formula_guard \<circ> snd))
      (read_csv (delimiter f) (quote_char f) (format_csv_with_format columns rows f)) =
    columns # map (map (cell_text f)) rows"
proof -
  have split: "map (map (strip_formula_guard \<circ> snd)) t = map (map strip_formula_guard) (map (map snd) t)"
    for t :: "field list list" by simp
  have "map strip_formula_guard (header_texts columns) = columns"
    by (simp add: header_texts_def comp_def strip_guard)
  moreover have "map (map strip_formula_guard) (map (map (raw_text f)) rows) = map (map (cell_text f)) rows"
    using assms(3) by (auto simp: table_wf_def list_all_iff strip_raw)
  ultimately show ?thesis unfolding split format_reads [OF assms] by simp
qed

definition sample_rows :: "json_cell list list" where
  "sample_rows = [[JString ''=cmd|x'', JNumber ''-12''], [JString [CHR 0x22, CHR '','', newline], JNull]]"

definition sample_format :: CsvTextFormat where
  "sample_format = \<lparr>quote_mode = QuoteNecessary, delimiter = CHR '';'', quote_char = CHR 0x22, include_header = True,
     null_literal = Some DEFAULT_CSV_NULL_LITERAL\<rparr>"

lemma sample_sound: "sound_format sample_format" "include_header sample_format" "table_wf [''a'', ''b''] sample_rows"
  by (simp_all add: sound_format_def sample_format_def bare_chars_def table_wf_def sample_rows_def json_wf_def)

theorem csv_round_trip_witness:
  "map (map (strip_formula_guard \<circ> snd)) (read_csv (CHR '';'') (CHR 0x22)
       (format_csv_with_format [''a'', ''b''] sample_rows sample_format)) =
     [''a'', ''b''] # map (map (cell_text sample_format)) sample_rows"
  using csv_round_trip [OF sample_sound] by (simp add: sample_format_def)



text \<open>
  C38: with the apostrophe as quote character the guard is lost. A cell that starts with an equals sign
  is written as two apostrophes and the text; a reader takes the first as the opening quote and the
  second, the guard, as the closing one, and the field it reads starts with the equals sign.
\<close>

theorem apostrophe_quote_loses_guard:
  assumes "set p \<inter> {CHR '','', newline, apostrophe} = {}"
  defines "f \<equiv> default_format\<lparr>quote_char := apostrophe\<rparr>"
  defines "field \<equiv> snd (read_csv (delimiter f) (quote_char f) (push_csv_field_with_format [] (CHR ''='' # p) f) ! 0 ! 0)"
  shows "field = CHR ''='' # p @ [apostrophe] \<and> needs_formula_guard field"
proof -
  have "double_quotes apostrophe p = p" using assms(1) by (intro double_quotes_id) auto
  then have "push_csv_field_with_format [] (CHR ''='' # p) f = [apostrophe, apostrophe, CHR ''=''] @ p @ [apostrophe]"
    by (simp add: f_def default_format_def push_csv_field_with_format_def push_csv_escaped_content push_formula_guard_def
        needs_formula_guard_def FORMULA_TRIGGER_BYTES_def)
  moreover have "read_csv (CHR '','') apostrophe ([apostrophe, apostrophe, CHR ''=''] @ p @ [apostrophe]) =
      read_fields (CHR '','') apostrophe InPlain (True, ''='') [] ((p @ [apostrophe]) @ [])"
    by (simp add: read_csv_def)
  moreover have "\<dots> = [[(True, ''='' @ p @ [apostrophe])]]"
    by (subst read_plain) (use assms(1) in \<open>auto simp: ends_field_def\<close>)
  ultimately have "field = CHR ''='' # p @ [apostrophe]"
    by (simp add: field_def f_def default_format_def)
  then show ?thesis by (simp add: needs_formula_guard_def FORMULA_TRIGGER_BYTES_def)
qed

theorem apostrophe_quote_loses_guard_witness:
  "needs_formula_guard (snd (read_csv (CHR '','') apostrophe
     (push_csv_field_with_format [] ''=1+1'' (default_format\<lparr>quote_char := apostrophe\<rparr>)) ! 0 ! 0))"
  using conjunct2 [OF apostrophe_quote_loses_guard [of "''1+1''"]] by (simp add: default_format_def)

section \<open>Tab-separated text and streams\<close>

definition tsv_format :: "string option \<Rightarrow> CsvTextFormat" where
  "tsv_format literal = \<lparr>quote_mode = QuoteNecessary, delimiter = CHR 0x09, quote_char = CHR 0x22,
     include_header = True, null_literal = literal\<rparr>"

lemma push_tsv_escaped: "push_tsv_escaped out v = push_csv_field_with_format out v (tsv_format literal)"
proof -
  have "csv_field_needs_quotes v (CHR 0x09) (CHR 0x22) \<longleftrightarrow>
      CHR 0x09 \<in> set v \<or> CHR 0x0A \<in> set v \<or> CHR 0x0D \<in> set v \<or> CHR 0x22 \<in> set v"
    by (auto simp: csv_field_needs_quotes_def list_ex_iff)
  then show ?thesis by (simp add: push_tsv_escaped_def push_csv_field_with_format_def tsv_format_def)
qed

lemma push_tsv_value: "push_tsv_value out v literal = push_csv_value_formatted out v (tsv_format literal) False"
  by (cases v) (simp_all add: push_tsv_value_def push_csv_value_formatted_def push_tsv_escaped [of _ _ literal] tsv_format_def)

lemma format_tsv_is_csv: "format_tsv columns rows = format_csv_with_format columns rows (tsv_format None)"
proof -
  have "push_tsv_escaped = (\<lambda>out column. push_csv_field_with_format out column (tsv_format None))"
    by (intro ext) (rule push_tsv_escaped)
  then show ?thesis
    by (simp add: format_tsv_def format_csv_with_format_def push_tsv_rows_def push_tsv_row_def push_tsv_value
        push_query_result_csv_row_with_format_def Let_def) (simp add: tsv_format_def)
qed

lemma write_rest_later:
  assumes "\<And>t w. write_all t w = (w @ t, Inr ())"
  shows "write_rest write_all sep text_of vs False w = (w @ concat (map (\<lambda>v. sep @ text_of v) vs), Inr ())"
  by (induction vs arbitrary: w) (simp_all add: assms)

lemma write_rest_all:
  assumes "\<And>t w. write_all t w = (w @ t, Inr ())"
  shows "write_rest write_all sep text_of vs True w = (w @ separated sep (map text_of vs), Inr ())"
  by (cases vs) (simp_all add: assms write_rest_later [of write_all, OF assms] separated_def comp_def)

lemma stream_writes_row:
  assumes "\<And>t w. write_all t w = (w @ t, Inr ())"
  shows "write_csv_value_row_with_format write_all row f w = (push_query_result_csv_row_with_format w row f, Inr ())"
  by (simp add: write_csv_value_row_with_format_def push_row_append write_rest_all [of write_all, OF assms])

end
