(* ===== verification/Wkb.thy ===== *)
theory Wkb
  imports Prelude "HOL-Library.Word"
begin

text \<open>
  Decoding of geometry values, \<^verbatim>\<open>crates/dbx-driver-support/src/wkb.rs\<close>: well-known binary, with the
  extensions of PostGIS, into well-known text.

  A reader is the bytes and a position, which never passes their end, so adding a width to it cannot
  overflow. A double is its 64 bits; how \<^verbatim>\<open>Display\<close> prints it is an argument.
\<close>

unbundle bit_operations_syntax

section \<open>Geometries\<close>

record WkbDimensions =
  has_z :: bool
  has_m :: bool

definition dims_suffix :: "WkbDimensions \<Rightarrow> string" where
  "dims_suffix dims =
     (if has_z dims then if has_m dims then '' ZM'' else '' Z'' else if has_m dims then '' M'' else '''')"

definition coordinate_len :: "WkbDimensions \<Rightarrow> nat" where
  "coordinate_len dims = 2 + (if has_z dims then 1 else 0) + (if has_m dims then 1 else 0)"

type_synonym f64 = "64 word"
type_synonym coordinate = "f64 list"

datatype WkbGeometry =
    Point WkbDimensions "coordinate option"
  | LineString WkbDimensions "coordinate list"
  | Polygon WkbDimensions "coordinate list list"
  | MultiPoint WkbDimensions "coordinate option list"
  | MultiLineString WkbDimensions "coordinate list list"
  | MultiPolygon WkbDimensions "coordinate list list list"
  | GeometryCollection WkbDimensions "WkbGeometry list"

record DecodedGeometry =
  wkt :: string
  srid :: "32 word option"

definition is_nan :: "f64 \<Rightarrow> bool" where
  "is_nan x \<longleftrightarrow> (drop_bit 52 x) AND 0x7FF = 0x7FF \<and> x AND 0xFFFFFFFFFFFFF \<noteq> 0"

section \<open>Text\<close>

definition join_with :: "string \<Rightarrow> string list \<Rightarrow> string" where
  "join_with sep ts = (case ts of [] \<Rightarrow> [] | t # ts \<Rightarrow> t @ concat (map (\<lambda>t. sep @ t) ts))"

definition format_wkb_coordinate :: "(f64 \<Rightarrow> string) \<Rightarrow> coordinate \<Rightarrow> string" where
  "format_wkb_coordinate show_f64 coords = join_with '' '' (map show_f64 coords)"

definition format_wkb_coordinate_sequence :: "(f64 \<Rightarrow> string) \<Rightarrow> coordinate list \<Rightarrow> string" where
  "format_wkb_coordinate_sequence show_f64 points = join_with '','' (map (format_wkb_coordinate show_f64) points)"

definition tagged :: "string \<Rightarrow> WkbDimensions \<Rightarrow> bool \<Rightarrow> string \<Rightarrow> string" where
  "tagged tag dims is_empty body = tag @ dims_suffix dims @ (if is_empty then '' EMPTY'' else ''('' @ body @ '')'')"

definition parens :: "string \<Rightarrow> string" where
  "parens t = ''('' @ t @ '')''"

primrec to_wkt :: "(f64 \<Rightarrow> string) \<Rightarrow> WkbGeometry \<Rightarrow> string" where
  "to_wkt show_f64 (Point dims coords) = (case coords of
     Some c \<Rightarrow> tagged ''POINT'' dims False (format_wkb_coordinate show_f64 c)
   | None \<Rightarrow> tagged ''POINT'' dims True [])"
| "to_wkt show_f64 (LineString dims points) =
     tagged ''LINESTRING'' dims (points = []) (format_wkb_coordinate_sequence show_f64 points)"
| "to_wkt show_f64 (Polygon dims rings) =
     tagged ''POLYGON'' dims (rings = [])
       (join_with '','' (map (\<lambda>ring. parens (format_wkb_coordinate_sequence show_f64 ring)) rings))"
| "to_wkt show_f64 (MultiPoint dims points) =
     tagged ''MULTIPOINT'' dims (points = [])
       (join_with '','' (map (\<lambda>p. case p of Some c \<Rightarrow> parens (format_wkb_coordinate show_f64 c) | None \<Rightarrow> ''EMPTY'') points))"
| "to_wkt show_f64 (MultiLineString dims lines) =
     tagged ''MULTILINESTRING'' dims (lines = [])
       (join_with '','' (map (\<lambda>line. parens (format_wkb_coordinate_sequence show_f64 line)) lines))"
| "to_wkt show_f64 (MultiPolygon dims polygons) =
     tagged ''MULTIPOLYGON'' dims (polygons = [])
       (join_with '','' (map (\<lambda>polygon. parens
          (join_with '','' (map (\<lambda>ring. parens (format_wkb_coordinate_sequence show_f64 ring)) polygon))) polygons))"
| "to_wkt show_f64 (GeometryCollection dims geometries) =
     tagged ''GEOMETRYCOLLECTION'' dims (geometries = []) (join_with '','' (map (to_wkt show_f64) geometries))"

section \<open>Reading\<close>

datatype WkbEndian = Big | Little

record WkbReader =
  raw :: "8 word list"
  pos :: nat

definition reader_new :: "8 word list \<Rightarrow> WkbReader" where
  "reader_new bytes = \<lparr>raw = bytes, pos = 0\<rparr>"

definition read_u8 :: "WkbReader \<Rightarrow> (8 word \<times> WkbReader) option" where
  "read_u8 r = (if pos r < length (raw r) then Some (raw r ! pos r, r\<lparr>pos := pos r + 1\<rparr>) else None)"

definition read_array :: "nat \<Rightarrow> WkbReader \<Rightarrow> (8 word list \<times> WkbReader) option" where
  "read_array n r =
     (if pos r + n \<le> length (raw r) then Some (take n (drop (pos r) (raw r)), r\<lparr>pos := pos r + n\<rparr>) else None)"

definition from_be_bytes :: "8 word list \<Rightarrow> 'a::len word" where
  "from_be_bytes bs = of_nat (foldl (\<lambda>n b. n * 256 + unat b) 0 bs)"

definition from_bytes :: "WkbEndian \<Rightarrow> 8 word list \<Rightarrow> 'a::len word" where
  "from_bytes endian bs = (case endian of Big \<Rightarrow> from_be_bytes bs | Little \<Rightarrow> from_be_bytes (rev bs))"

definition read_u32 :: "WkbEndian \<Rightarrow> WkbReader \<Rightarrow> (32 word \<times> WkbReader) option" where
  "read_u32 endian r = map_option (\<lambda>(bs, r'). (from_bytes endian bs, r')) (read_array 4 r)"

definition read_f64 :: "WkbEndian \<Rightarrow> WkbReader \<Rightarrow> (f64 \<times> WkbReader) option" where
  "read_f64 endian r = map_option (\<lambda>(bs, r'). (from_bytes endian bs, r')) (read_array 8 r)"

text \<open>Reading a fixed number of elements, which stops at the first that cannot be read.\<close>

fun read_many :: "nat \<Rightarrow> (WkbReader \<Rightarrow> ('a \<times> WkbReader) option) \<Rightarrow> WkbReader \<Rightarrow> ('a list \<times> WkbReader) option" where
  "read_many 0 p r = Some ([], r)"
| "read_many (Suc n) p r = (case p r of
     None \<Rightarrow> None
   | Some (x, r1) \<Rightarrow> (case read_many n p r1 of None \<Rightarrow> None | Some (xs, r2) \<Rightarrow> Some (x # xs, r2)))"

definition read_counted ::
  "WkbEndian \<Rightarrow> (WkbReader \<Rightarrow> ('a \<times> WkbReader) option) \<Rightarrow> WkbReader \<Rightarrow> ('a list \<times> WkbReader) option" where
  "read_counted endian p r = (case read_u32 endian r of None \<Rightarrow> None | Some (count, r1) \<Rightarrow> read_many (unat count) p r1)"

definition read_endian :: "WkbReader \<Rightarrow> (WkbEndian \<times> WkbReader) option" where
  "read_endian r = (case read_u8 r of
     None \<Rightarrow> None
   | Some (b, r1) \<Rightarrow> if b = 0 then Some (Big, r1) else if b = 1 then Some (Little, r1) else None)"

definition parse_wkb_dimensions :: "32 word \<Rightarrow> 32 word \<times> WkbDimensions \<times> bool" where
  "parse_wkb_dimensions type_word =
     (let base_type = type_word AND 0x1FFFFFFF;
          dims = \<lparr>has_z = (type_word AND 0x80000000 \<noteq> 0), has_m = (type_word AND 0x40000000 \<noteq> 0)\<rparr>;
          has_srid = (type_word AND 0x20000000 \<noteq> 0)
      in if base_type \<ge> 3000 then (base_type - 3000, \<lparr>has_z = True, has_m = True\<rparr>, has_srid)
         else if base_type \<ge> 2000 then (base_type - 2000, dims\<lparr>has_m := True\<rparr>, has_srid)
         else if base_type \<ge> 1000 then (base_type - 1000, dims\<lparr>has_z := True\<rparr>, has_srid)
         else (base_type, dims, has_srid))"

definition read_coordinate :: "WkbEndian \<Rightarrow> WkbDimensions \<Rightarrow> WkbReader \<Rightarrow> (coordinate \<times> WkbReader) option" where
  "read_coordinate endian dims = read_many (coordinate_len dims) (read_f64 endian)"

definition point_of :: "coordinate \<Rightarrow> coordinate option" where
  "point_of coords = (if list_all is_nan coords then None else Some coords)"

definition skip_srid :: "WkbEndian \<Rightarrow> bool \<Rightarrow> WkbReader \<Rightarrow> (unit \<times> WkbReader) option" where
  "skip_srid endian has_srid r =
     (if has_srid then map_option (\<lambda>(_, r'). ((), r')) (read_u32 endian r) else Some ((), r))"

definition read_wkb_point_coords :: "WkbDimensions \<Rightarrow> WkbReader \<Rightarrow> (coordinate option \<times> WkbReader) option" where
  "read_wkb_point_coords dims r = (case read_endian r of
     None \<Rightarrow> None
   | Some (endian, r1) \<Rightarrow> (case read_u32 endian r1 of
       None \<Rightarrow> None
     | Some (type_word, r2) \<Rightarrow>
         (let (base_type, parsed_dims, has_srid) = parse_wkb_dimensions type_word
          in if base_type \<noteq> 1 \<or> parsed_dims \<noteq> dims then None
             else (case skip_srid endian has_srid r2 of
                 None \<Rightarrow> None
               | Some (_, r3) \<Rightarrow> map_option (\<lambda>(coords, r4). (point_of coords, r4)) (read_coordinate endian parsed_dims r3)))))"

definition parse_wkb_points :: "WkbEndian \<Rightarrow> WkbDimensions \<Rightarrow> WkbReader \<Rightarrow> (coordinate list \<times> WkbReader) option" where
  "parse_wkb_points endian dims = read_counted endian (read_coordinate endian dims)"

text \<open>The header of a geometry; a missing SRID is noticed only by the reads that follow.\<close>

definition read_header :: "WkbReader \<Rightarrow> ((WkbEndian \<times> 32 word \<times> WkbDimensions \<times> 32 word option) \<times> WkbReader) option" where
  "read_header r = (case read_endian r of
     None \<Rightarrow> None
   | Some (endian, r1) \<Rightarrow> (case read_u32 endian r1 of
       None \<Rightarrow> None
     | Some (type_word, r2) \<Rightarrow>
         (let (base_type, dims, has_srid) = parse_wkb_dimensions type_word
          in case (if has_srid then read_u32 endian r2 else None) of
               None \<Rightarrow> Some ((endian, base_type, dims, None), r2)
             | Some (v, r3) \<Rightarrow> Some ((endian, base_type, dims, if v \<noteq> 0 then Some v else None), r3))))"

text \<open>
  The kinds of geometry that contain no others, and for the kinds that do, which children they accept
  and what they make of them.
\<close>

definition parse_simple :: "WkbEndian \<Rightarrow> 32 word \<Rightarrow> WkbDimensions \<Rightarrow> WkbReader \<Rightarrow> (WkbGeometry \<times> WkbReader) option" where
  "parse_simple endian base_type dims r =
     (if base_type = 1 then map_option (\<lambda>(c, r'). (Point dims (point_of c), r')) (read_coordinate endian dims r)
      else if base_type = 2 then map_option (\<lambda>(ps, r'). (LineString dims ps, r')) (parse_wkb_points endian dims r)
      else if base_type = 3
        then map_option (\<lambda>(rs, r'). (Polygon dims rs, r')) (read_counted endian (parse_wkb_points endian dims) r)
      else if base_type = 4
        then map_option (\<lambda>(ps, r'). (MultiPoint dims ps, r')) (read_counted endian (read_wkb_point_coords dims) r)
      else None)"

definition accepts :: "32 word \<Rightarrow> WkbGeometry \<Rightarrow> bool" where
  "accepts base_type g = (case g of
     LineString _ _ \<Rightarrow> base_type \<noteq> 6
   | Polygon _ _ \<Rightarrow> base_type \<noteq> 5
   | _ \<Rightarrow> base_type = 7)"

fun line_points :: "WkbGeometry \<Rightarrow> coordinate list" where
  "line_points (LineString _ points) = points"
| "line_points _ = []"

fun polygon_rings :: "WkbGeometry \<Rightarrow> coordinate list list" where
  "polygon_rings (Polygon _ rings) = rings"
| "polygon_rings _ = []"

definition collect_children :: "32 word \<Rightarrow> WkbDimensions \<Rightarrow> WkbGeometry list \<Rightarrow> WkbGeometry" where
  "collect_children base_type dims gs =
     (if base_type = 5 then MultiLineString dims (map line_points gs)
      else if base_type = 6 then MultiPolygon dims (map polygon_rings gs)
      else GeometryCollection dims gs)"

function parse_wkb_geometry :: "WkbReader \<Rightarrow> ((WkbGeometry \<times> 32 word option) \<times> WkbReader) option"
  and parse_children :: "32 word \<Rightarrow> nat \<Rightarrow> WkbReader \<Rightarrow> (WkbGeometry list \<times> WkbReader) option" where
  "parse_wkb_geometry r = (case read_header r of
     None \<Rightarrow> None
   | Some ((endian, base_type, dims, srid_value), r1) \<Rightarrow>
       if base_type = 5 \<or> base_type = 6 \<or> base_type = 7
       then (case read_u32 endian r1 of
           None \<Rightarrow> None
         | Some (count, r2) \<Rightarrow> (case parse_children base_type (unat count) r2 of
             None \<Rightarrow> None
           | Some (gs, r3) \<Rightarrow> Some ((collect_children base_type dims gs, srid_value), r3)))
       else map_option (\<lambda>(g, r2). ((g, srid_value), r2)) (parse_simple endian base_type dims r1))"
| "parse_children base_type 0 r = Some ([], r)"
| "parse_children base_type (Suc n) r = (case parse_wkb_geometry r of
     None \<Rightarrow> None
   | Some ((g, _), r1) \<Rightarrow>
       if accepts base_type g
       then (case parse_children base_type n r1 of None \<Rightarrow> None | Some (gs, r2) \<Rightarrow> Some (g # gs, r2))
       else None)"
  by pat_completeness auto

section \<open>Progress\<close>

text \<open>
  What a read leaves: the bytes are untouched, the position moves forward by at least the weight of
  the value read and not past the end, and the value has the stated shape. The recursion of the
  parser is on the bytes that remain, so this is also why it ends.
\<close>

definition yields :: "(WkbReader \<Rightarrow> ('a \<times> WkbReader) option) \<Rightarrow> ('a \<Rightarrow> bool) \<Rightarrow> ('a \<Rightarrow> nat) \<Rightarrow> bool" where
  "yields p Q w \<longleftrightarrow> (\<forall>r x r'. p r = Some (x, r') \<longrightarrow>
     raw r' = raw r \<and> pos r + w x \<le> pos r' \<and> pos r' \<le> max (pos r) (length (raw r)) \<and> Q x)"

definition remaining :: "WkbReader \<Rightarrow> nat" where
  "remaining r = length (raw r) - pos r"

lemma yieldsD:
  assumes "yields p Q w" "p r = Some (x, r')"
  shows "raw r' = raw r" "pos r + w x \<le> pos r'" "pos r' \<le> max (pos r) (length (raw r))" "Q x"
  using assms by (auto simp: yields_def)

lemma yields_mono: "yields p Q w \<Longrightarrow> (\<And>x. Q x \<Longrightarrow> Q' x \<and> w' x \<le> w x) \<Longrightarrow> yields p Q' w'"
  unfolding yields_def by (meson add_left_mono le_trans)

lemma yields_map:
  assumes "yields p Q w" "\<And>x. Q x \<Longrightarrow> Q' (f x) \<and> w' (f x) \<le> w x"
  shows "yields (\<lambda>r. map_option (\<lambda>(x, r'). (f x, r')) (p r)) Q' w'"
  unfolding yields_def
proof (intro allI impI)
  fix r y r'
  assume "map_option (\<lambda>(x, r'). (f x, r')) (p r) = Some (y, r')"
  then obtain x where x: "p r = Some (x, r')" "y = f x" by auto
  show "raw r' = raw r \<and> pos r + w' y \<le> pos r' \<and> pos r' \<le> max (pos r) (length (raw r)) \<and> Q' y"
    using yieldsD [OF assms(1) x(1)] assms(2) [of x] x(2) by auto
qed

lemma yields_bind:
  assumes "yields p Q w" "\<And>x. Q x \<Longrightarrow> yields (k x) Q' (\<lambda>y. w' y - w x)"
  shows "yields (\<lambda>r. case p r of None \<Rightarrow> None | Some (x, r1) \<Rightarrow> k x r1) Q' w'"
  unfolding yields_def
proof (intro allI impI)
  fix r y r'
  assume "(case p r of None \<Rightarrow> None | Some (x, r1) \<Rightarrow> k x r1) = Some (y, r')"
  then obtain x r1 where s: "p r = Some (x, r1)" "k x r1 = Some (y, r')" by (auto split: option.splits)
  note f = yieldsD [OF assms(1) s(1)]
  note g = yieldsD [OF assms(2) [OF f(4)] s(2)]
  show "raw r' = raw r \<and> pos r + w' y \<le> pos r' \<and> pos r' \<le> max (pos r) (length (raw r)) \<and> Q' y"
    using f g by auto
qed

lemma read_u8_yields: "yields read_u8 (\<lambda>_. True) (\<lambda>_. 1)"
  by (auto simp: yields_def read_u8_def split: if_splits)

lemma read_array_yields: "yields (read_array n) (\<lambda>bs. length bs = n) (\<lambda>_. n)"
  by (auto simp: yields_def read_array_def split: if_splits)

lemma read_u32_yields: "yields (read_u32 e) (\<lambda>_. True) (\<lambda>_. 4)"
  unfolding read_u32_def by (rule yields_map [OF read_array_yields]) simp

lemma read_f64_yields: "yields (read_f64 e) (\<lambda>_. True) (\<lambda>_. 8)"
  unfolding read_f64_def by (rule yields_map [OF read_array_yields]) simp

lemma read_endian_yields: "yields read_endian (\<lambda>_. True) (\<lambda>_. 1)"
  by (auto simp: yields_def read_endian_def read_u8_def split: if_splits option.splits)

lemma read_many_yields:
  assumes "yields p Q w"
  shows "yields (read_many n p) (\<lambda>xs. length xs = n \<and> list_all Q xs) (\<lambda>xs. sum_list (map w xs))"
proof (induction n)
  case 0
  show ?case by (simp add: yields_def)
next
  case (Suc n)
  have "yields (\<lambda>r. case p r of None \<Rightarrow> None
        | Some (x, r1) \<Rightarrow> map_option (\<lambda>(xs, r2). (x # xs, r2)) (read_many n p r1))
      (\<lambda>xs. length xs = Suc n \<and> list_all Q xs) (\<lambda>xs. sum_list (map w xs))"
    by (rule yields_bind [OF assms], rule yields_map [OF Suc]) auto
  moreover have "read_many (Suc n) p = (\<lambda>r. case p r of None \<Rightarrow> None
        | Some (x, r1) \<Rightarrow> map_option (\<lambda>(xs, r2). (x # xs, r2)) (read_many n p r1))"
    by (auto simp: fun_eq_iff split: option.splits)
  ultimately show ?case by simp
qed

lemma read_counted_yields:
  assumes "yields p Q w"
  shows "yields (read_counted e p) (list_all Q) (\<lambda>xs. 4 + sum_list (map w xs))"
  unfolding read_counted_def
  by (rule yields_bind [OF read_u32_yields], rule yields_mono [OF read_many_yields [OF assms]]) auto

text \<open>
  The shape of a coordinate and of a point, the bytes they take at least, and the same of geometries.
  Lines and polygons inside a multi-geometry are only known to be uniform in themselves.
\<close>

definition coord_ok :: "WkbDimensions \<Rightarrow> coordinate \<Rightarrow> bool" where
  "coord_ok dims c \<longleftrightarrow> length c = coordinate_len dims"

definition point_ok :: "WkbDimensions \<Rightarrow> coordinate option \<Rightarrow> bool" where
  "point_ok dims p \<longleftrightarrow> (case p of None \<Rightarrow> True | Some c \<Rightarrow> coord_ok dims c \<and> \<not> list_all is_nan c)"

definition uniform :: "(WkbDimensions \<Rightarrow> 'a \<Rightarrow> bool) \<Rightarrow> 'a \<Rightarrow> bool" where
  "uniform ok x \<longleftrightarrow> list_ex (\<lambda>(z, m). ok \<lparr>has_z = z, has_m = m\<rparr> x) [(False, False), (True, False), (False, True), (True, True)]"

primrec well_typed :: "WkbGeometry \<Rightarrow> bool" where
  "well_typed (Point dims p) = point_ok dims p"
| "well_typed (LineString dims ps) = list_all (coord_ok dims) ps"
| "well_typed (Polygon dims rings) = list_all (list_all (coord_ok dims)) rings"
| "well_typed (MultiPoint dims ps) = list_all (point_ok dims) ps"
| "well_typed (MultiLineString dims lines) = list_all (uniform (\<lambda>d. list_all (coord_ok d))) lines"
| "well_typed (MultiPolygon dims polygons) = list_all (uniform (\<lambda>d. list_all (list_all (coord_ok d)))) polygons"
| "well_typed (GeometryCollection dims gs) = list_all id (map well_typed gs)"

definition coord_bytes :: "coordinate \<Rightarrow> nat" where
  "coord_bytes c = 8 * length c"

definition point_bytes :: "coordinate option \<Rightarrow> nat" where
  "point_bytes p = (case p of None \<Rightarrow> 16 | Some c \<Rightarrow> coord_bytes c)"

definition list_bytes :: "('a \<Rightarrow> nat) \<Rightarrow> 'a list \<Rightarrow> nat" where
  "list_bytes w xs = 4 + sum_list (map w xs)"

primrec geometry_bytes :: "WkbGeometry \<Rightarrow> nat" where
  "geometry_bytes (Point dims p) = 5 + point_bytes p"
| "geometry_bytes (LineString dims ps) = 5 + list_bytes coord_bytes ps"
| "geometry_bytes (Polygon dims rings) = 5 + list_bytes (list_bytes coord_bytes) rings"
| "geometry_bytes (MultiPoint dims ps) = 5 + list_bytes (\<lambda>p. 5 + point_bytes p) ps"
| "geometry_bytes (MultiLineString dims lines) = 5 + list_bytes (\<lambda>l. 5 + list_bytes coord_bytes l) lines"
| "geometry_bytes (MultiPolygon dims polygons) =
     5 + list_bytes (\<lambda>p. 5 + list_bytes (list_bytes coord_bytes) p) polygons"
| "geometry_bytes (GeometryCollection dims gs) = 5 + (4 + sum_list (map geometry_bytes gs))"

lemma read_coordinate_yields: "yields (read_coordinate e dims) (coord_ok dims) coord_bytes"
  unfolding read_coordinate_def
  by (rule yields_mono [OF read_many_yields [OF read_f64_yields]])
     (simp add: coord_ok_def coord_bytes_def sum_list_triv)

lemma point_of_ok: "coord_ok dims c \<Longrightarrow> point_ok dims (point_of c) \<and> point_bytes (point_of c) \<le> coord_bytes c"
  by (simp add: point_of_def point_ok_def point_bytes_def coord_ok_def coord_bytes_def coordinate_len_def)

lemma parse_wkb_points_yields:
  "yields (parse_wkb_points e dims) (list_all (coord_ok dims)) (list_bytes coord_bytes)"
  unfolding parse_wkb_points_def list_bytes_def by (rule read_counted_yields [OF read_coordinate_yields])

lemma read_point_yields:
  "yields (\<lambda>r. map_option (\<lambda>(c, r'). (point_of c, r')) (read_coordinate e dims r)) (point_ok dims) point_bytes"
  by (rule yields_map [OF read_coordinate_yields]) (rule point_of_ok)

lemma yields_None: "yields (\<lambda>r. None) Q w"
  by (simp add: yields_def)

lemma read_wkb_point_coords_yields:
  "yields (read_wkb_point_coords dims) (point_ok dims) (\<lambda>p. 5 + point_bytes p)"
  unfolding read_wkb_point_coords_def
proof (rule yields_bind [OF read_endian_yields], rule yields_bind [OF read_u32_yields])
  fix e and t :: "32 word"
  obtain b d s where t: "parse_wkb_dimensions t = (b, d, s)" by (cases "parse_wkb_dimensions t")
  have skip: "yields (skip_srid e s) (\<lambda>_. True) (\<lambda>_. 0)" for s
    using yields_map [OF read_u32_yields, of "\<lambda>_. True" "\<lambda>_. ()" "\<lambda>_. 0"]
    by (cases s) (simp_all add: skip_srid_def [abs_def] yields_def)
  have "yields (\<lambda>r. case skip_srid e s r of None \<Rightarrow> None
      | Some (_, r3) \<Rightarrow> map_option (\<lambda>(c, r4). (point_of c, r4)) (read_coordinate e dims r3)) (point_ok dims) point_bytes"
    by (rule yields_bind [OF skip]) (simp add: read_point_yields)
  then show "yields (\<lambda>r. let (base_type, parsed_dims, has_srid) = parse_wkb_dimensions t
      in if base_type \<noteq> 1 \<or> parsed_dims \<noteq> dims then None
         else (case skip_srid e has_srid r of
             None \<Rightarrow> None
           | Some (_, r3) \<Rightarrow> map_option (\<lambda>(coords, r4). (point_of coords, r4)) (read_coordinate e parsed_dims r3)))
     (point_ok dims) (\<lambda>p. 5 + point_bytes p - 1 - 4)"
    by (cases "b = 1 \<and> d = dims") (simp_all add: t yields_None)
qed

lemma parse_simple_yields: "yields (parse_simple e b dims) well_typed (\<lambda>g. geometry_bytes g - 5)"
proof -
  have "yields (\<lambda>r. map_option (\<lambda>(c, r'). (Point dims (point_of c), r')) (read_coordinate e dims r))
      well_typed (\<lambda>g. geometry_bytes g - 5)"
    by (rule yields_map [OF read_coordinate_yields]) (use point_of_ok in auto)
  moreover have "yields (\<lambda>r. map_option (\<lambda>(ps, r'). (LineString dims ps, r')) (parse_wkb_points e dims r))
      well_typed (\<lambda>g. geometry_bytes g - 5)"
    by (rule yields_map [OF parse_wkb_points_yields]) simp
  moreover have "yields (\<lambda>r. map_option (\<lambda>(rs, r'). (Polygon dims rs, r')) (read_counted e (parse_wkb_points e dims) r))
      well_typed (\<lambda>g. geometry_bytes g - 5)"
    by (rule yields_map [OF read_counted_yields [OF parse_wkb_points_yields]]) (simp add: list_bytes_def)
  moreover have "yields (\<lambda>r. map_option (\<lambda>(ps, r'). (MultiPoint dims ps, r')) (read_counted e (read_wkb_point_coords dims) r))
      well_typed (\<lambda>g. geometry_bytes g - 5)"
    by (rule yields_map [OF read_counted_yields [OF read_wkb_point_coords_yields]]) (simp add: list_bytes_def)
  ultimately show ?thesis
    unfolding parse_simple_def by (cases "b = 1"; cases "b = 2"; cases "b = 3"; cases "b = 4") (simp_all add: yields_None)
qed

lemma read_header_progress:
  assumes "read_header r = Some (h, r')"
  shows "raw r' = raw r" "pos r + 5 \<le> pos r'" "pos r' \<le> length (raw r)"
proof -
  obtain e r1 t r2 where s: "read_endian r = Some (e, r1)" "read_u32 e r1 = Some (t, r2)"
    using assms by (auto simp: read_header_def split: option.splits)
  note 1 = yieldsD [OF read_endian_yields s(1)] and 2 = yieldsD [OF read_u32_yields s(2)]
  have "r' = r2 \<or> (\<exists>v. read_u32 e r2 = Some (v, r'))"
    using assms by (auto simp: read_header_def s Let_def split: option.splits if_splits prod.splits)
  then have "raw r' = raw r2 \<and> pos r2 \<le> pos r' \<and> pos r' \<le> max (pos r2) (length (raw r2))"
    using yieldsD [OF read_u32_yields] by fastforce
  then show "raw r' = raw r" "pos r + 5 \<le> pos r'" "pos r' \<le> length (raw r)" using 1 2 by auto
qed

lemma parser_progress:
  "parse_wkb_geometry_parse_children_dom (Inl r) \<Longrightarrow> parse_wkb_geometry r = Some (x, r') \<Longrightarrow>
     raw r' = raw r \<and> pos r < pos r' \<and> pos r' \<le> length (raw r)"
  "parse_wkb_geometry_parse_children_dom (Inr (b, n, s)) \<Longrightarrow> parse_children b n s = Some (xs, s') \<Longrightarrow>
     raw s' = raw s \<and> pos s \<le> pos s' \<and> pos s' \<le> max (pos s) (length (raw s))"
proof (induction r and b n s arbitrary: x r' and xs s' rule: parse_wkb_geometry_parse_children.pinduct)
  case (1 r)
  obtain e b d i r1 where h: "read_header r = Some ((e, b, d, i), r1)"
    using 1(3) by (auto simp: parse_wkb_geometry.psimps [OF 1(1)] split: option.splits)
  note p = read_header_progress [OF h]
  show ?case
  proof (cases "b = 5 \<or> b = 6 \<or> b = 7")
    case True
    then obtain c r2 gs where s: "read_u32 e r1 = Some (c, r2)" "parse_children b (unat c) r2 = Some (gs, r')"
      using 1(3) by (auto simp: parse_wkb_geometry.psimps [OF 1(1)] h split: option.splits)
    show ?thesis
      using 1(2) [OF h refl refl refl refl True s(1) refl s(2)] yieldsD [OF read_u32_yields s(1)] p by auto
  next
    case False
    then obtain g where "parse_simple e b d r1 = Some (g, r')"
      using 1(3) by (auto simp: parse_wkb_geometry.psimps [OF 1(1)] h)
    from yieldsD [OF parse_simple_yields this] p show ?thesis by auto
  qed
next
  case (2 b r)
  then show ?case by (simp add: parse_children.psimps)
next
  case (3 b n r)
  obtain g i r1 gs where s: "parse_wkb_geometry r = Some ((g, i), r1)" "accepts b g"
      "parse_children b n r1 = Some (gs, s')"
    using 3(4) by (auto simp: parse_children.psimps(2) [OF 3(1)] split: option.splits if_splits)
  from 3(2) [OF s(1)] 3(3) [OF s(1) refl refl s(2,3)] show ?case by auto
qed

lemma remaining_header: "read_header r = Some (h, r') \<Longrightarrow> remaining r' < remaining r"
  using read_header_progress [of r h r'] by (auto simp: remaining_def)

lemma remaining_u32: "read_u32 e r = Some (v, r') \<Longrightarrow> remaining r' \<le> remaining r"
  using yieldsD [OF read_u32_yields, of e r v r'] by (auto simp: remaining_def)

lemma remaining_geometry:
  "parse_wkb_geometry_parse_children_dom (Inl r) \<Longrightarrow> parse_wkb_geometry r = Some (x, r') \<Longrightarrow> remaining r' < remaining r"
  using parser_progress(1) [of r x r'] by (auto simp: remaining_def)

termination parse_wkb_geometry
proof (relation "measure (\<lambda>a. case a of Inl r \<Rightarrow> 2 * remaining r | Inr (b, n, r) \<Rightarrow> 2 * remaining r + 1)", goal_cases)
  case 2
  then show ?case by (auto dest!: remaining_header remaining_u32)
next
  case 4
  then show ?case by (auto dest!: remaining_geometry)
qed simp_all

section \<open>Entry points\<close>

definition decode_wkb_geometry :: "(f64 \<Rightarrow> string) \<Rightarrow> 8 word list \<Rightarrow> DecodedGeometry option" where
  "decode_wkb_geometry show_f64 bytes = (case parse_wkb_geometry (reader_new bytes) of
     None \<Rightarrow> None
   | Some ((geometry, srid_value), r) \<Rightarrow>
       if pos r \<noteq> length bytes then None else Some \<lparr>wkt = to_wkt show_f64 geometry, srid = srid_value\<rparr>)"

definition wkb_to_wkt :: "(f64 \<Rightarrow> string) \<Rightarrow> 8 word list \<Rightarrow> string option" where
  "wkb_to_wkt show_f64 bytes = map_option wkt (decode_wkb_geometry show_f64 bytes)"

end
