(* ===== verification/Wkb_Laws.thy ===== *)
theory Wkb_Laws
  imports Wkb
begin

text \<open>
  Laws of the geometry decoder: what it returns is well typed and no larger than what it read, and it
  reads back every geometry written by a reference encoder, in both byte orders and with both
  conventions for marking dimensions.
\<close>

section \<open>What is read is well typed and bounded by the input\<close>

lemma uniformI: "ok dims x \<Longrightarrow> uniform ok x"
  by (cases dims; cases "has_z dims"; cases "has_m dims") (auto simp: uniform_def)

lemma accepted_line: "accepts 5 g \<Longrightarrow> \<exists>dims ps. g = LineString dims ps"
  by (cases g) (auto simp: accepts_def)

lemma accepted_polygon: "accepts 6 g \<Longrightarrow> \<exists>dims rs. g = Polygon dims rs"
  by (cases g) (auto simp: accepts_def)

lemma collect_lines:
  assumes "list_all well_typed gs" "list_all (accepts 5) gs"
  shows "well_typed (collect_children 5 dims gs)"
    "geometry_bytes (collect_children 5 dims gs) = 9 + sum_list (map geometry_bytes gs)"
  using assms
  by (induction gs) (auto simp: collect_children_def list_bytes_def dest!: accepted_line intro: uniformI)

lemma collect_polygons:
  assumes "list_all well_typed gs" "list_all (accepts 6) gs"
  shows "well_typed (collect_children 6 dims gs)"
    "geometry_bytes (collect_children 6 dims gs) = 9 + sum_list (map geometry_bytes gs)"
  using assms
  by (induction gs) (auto simp: collect_children_def list_bytes_def dest!: accepted_polygon intro: uniformI)

lemma collect_any:
  assumes "list_all well_typed gs"
  shows "well_typed (collect_children 7 dims gs)"
    "geometry_bytes (collect_children 7 dims gs) = 9 + sum_list (map geometry_bytes gs)"
  using assms by (simp_all add: collect_children_def list_all_iff)

lemma collect_children:
  assumes "b = 5 \<or> b = 6 \<or> b = 7" "list_all well_typed gs" "list_all (accepts b) gs"
  shows "well_typed (collect_children b dims gs) \<and>
    geometry_bytes (collect_children b dims gs) = 9 + sum_list (map geometry_bytes gs)"
  using assms(1)
  by (elim disjE) (use assms collect_lines collect_polygons collect_any in auto)

lemma parser_yields:
  "parse_wkb_geometry r = Some ((g, i), r') \<Longrightarrow>
     raw r' = raw r \<and> pos r + geometry_bytes g \<le> pos r' \<and> pos r' \<le> length (raw r) \<and> well_typed g"
  "parse_children b n s = Some (gs, s') \<Longrightarrow>
     raw s' = raw s \<and> pos s + sum_list (map geometry_bytes gs) \<le> pos s' \<and> pos s' \<le> max (pos s) (length (raw s)) \<and>
     list_all well_typed gs \<and> list_all (accepts b) gs \<and> length gs = n"
proof (induction r and b n s arbitrary: g i r' and gs s' rule: parse_wkb_geometry_parse_children.induct)
  case (1 r)
  obtain e b d j r1 where h: "read_header r = Some ((e, b, d, j), r1)"
    using 1(2) by (auto split: option.splits)
  note p = read_header_progress [OF h]
  show ?case
  proof (cases "b = 5 \<or> b = 6 \<or> b = 7")
    case True
    then obtain c r2 gs where s: "read_u32 e r1 = Some (c, r2)" "parse_children b (unat c) r2 = Some (gs, r')"
        "g = collect_children b d gs"
      using 1(2) h by (auto split: option.splits)
    note k = 1(1) [OF h refl refl refl refl True s(1) refl s(2)]
    show ?thesis
      using k yieldsD [OF read_u32_yields s(1)] p collect_children [OF True, of gs d] s(3) by auto
  next
    case False
    then have "parse_simple e b d r1 = Some (g, r')" using 1(2) h by auto
    from yieldsD [OF parse_simple_yields this] p show ?thesis by auto
  qed
next
  case (3 b n r)
  obtain g i r1 gs' where s: "parse_wkb_geometry r = Some ((g, i), r1)" "accepts b g"
      "parse_children b n r1 = Some (gs', s')" "gs = g # gs'"
    using 3(3) by (auto split: option.splits if_splits)
  from 3(1) [OF s(1)] 3(2) [OF s(1) refl refl s(2,3)] s(2,4) show ?case by auto
qed simp

section \<open>A reference encoder\<close>

primrec nat_bytes :: "nat \<Rightarrow> nat \<Rightarrow> 8 word list" where
  "nat_bytes 0 v = []"
| "nat_bytes (Suc n) v = nat_bytes n (v div 256) @ [word_of_nat v]"

definition encode_word :: "nat \<Rightarrow> WkbEndian \<Rightarrow> 'a::len word \<Rightarrow> 8 word list" where
  "encode_word n e w = (case e of Big \<Rightarrow> nat_bytes n (unat w) | Little \<Rightarrow> rev (nat_bytes n (unat w)))"

lemma length_nat_bytes [simp]: "length (nat_bytes n v) = n"
  by (induction n arbitrary: v) simp_all

lemma length_encode_word [simp]: "length (encode_word n e w) = n"
  by (cases e) (simp_all add: encode_word_def)

lemma fold_nat_bytes: "foldl (\<lambda>n b. n * 256 + unat b) 0 (nat_bytes n v) = v mod 256 ^ n"
proof (induction n arbitrary: v)
  case (Suc n)
  have "v mod 256 ^ Suc n = 256 * (v div 256 mod 256 ^ n) + v mod 256" by (simp add: mod_mult2_eq)
  then show ?case by (simp add: Suc unat_of_nat)
qed simp

lemma from_encode_word: "LENGTH('a::len) \<le> 8 * n \<Longrightarrow> from_bytes e (encode_word n e (w :: 'a word)) = w"
proof -
  assume "LENGTH('a) \<le> 8 * n"
  then have "(2::nat) ^ LENGTH('a) \<le> 2 ^ (8 * n)" by (rule power_increasing) simp
  then have "unat w < 256 ^ n" using less_le_trans [OF unsigned_less] by (simp add: power_mult)
  then show ?thesis by (cases e) (simp_all add: from_bytes_def encode_word_def from_be_bytes_def fold_nat_bytes)
qed

datatype marking = Flags | Iso

definition type_word :: "marking \<Rightarrow> WkbDimensions \<Rightarrow> 32 word \<Rightarrow> bool \<Rightarrow> 32 word" where
  "type_word marking dims base with_srid =
     (case marking of
        Flags \<Rightarrow> base + (if has_z dims then 0x80000000 else 0) + (if has_m dims then 0x40000000 else 0)
      | Iso \<Rightarrow> base + (if has_z dims then 1000 else 0) + (if has_m dims then 2000 else 0))
     + (if with_srid then 0x20000000 else 0)"

lemma type_words_parsed:
  "list_all (\<lambda>base. list_all (\<lambda>mk. list_all (\<lambda>z. list_all (\<lambda>m. list_all (\<lambda>s.
      parse_wkb_dimensions (type_word mk \<lparr>has_z = z, has_m = m\<rparr> base s) = (base, \<lparr>has_z = z, has_m = m\<rparr>, s))
      [False, True]) [False, True]) [False, True]) [Flags, Iso]) [1, 2, 3, 4, 5, 6, 7]"
  by code_simp

lemma parse_type_word:
  assumes "base \<in> {1, 2, 3, 4, 5, 6, 7}"
  shows "parse_wkb_dimensions (type_word marking dims base s) = (base, dims, s)"
proof -
  obtain z m where d: "dims = \<lparr>has_z = z, has_m = m\<rparr>" by (cases dims) simp
  show ?thesis
    using assms type_words_parsed unfolding d list_all_iff by (cases marking; cases z; cases m; cases s) auto
qed

section \<open>Reading back\<close>

text \<open>
  A reader that, wherever the bytes of a value come next, returns the value and stops right after them.
\<close>

definition reads :: "(WkbReader \<Rightarrow> ('a \<times> WkbReader) option) \<Rightarrow> 8 word list \<Rightarrow> 'a \<Rightarrow> bool" where
  "reads p bs x \<longleftrightarrow> (\<forall>r post. drop (pos r) (raw r) = bs @ post \<longrightarrow> p r = Some (x, r\<lparr>pos := pos r + length bs\<rparr>))"

lemma readsD: "reads p bs x \<Longrightarrow> drop (pos r) (raw r) = bs @ post \<Longrightarrow> p r = Some (x, r\<lparr>pos := pos r + length bs\<rparr>)"
  by (simp add: reads_def)

lemma drop_after: "drop (pos r) (raw r) = bs @ post \<Longrightarrow> drop (pos r + length bs) (raw r) = post"
  by (metis add.commute append_eq_conv_conj drop_drop)

lemma reads_bind:
  assumes "reads p as x" "reads (k x) bs y"
  shows "reads (\<lambda>r. case p r of None \<Rightarrow> None | Some (x, r1) \<Rightarrow> k x r1) (as @ bs) y"
  unfolding reads_def
proof (intro allI impI)
  fix r :: WkbReader and post
  assume d: "drop (pos r) (raw r) = (as @ bs) @ post"
  then have 1: "p r = Some (x, r\<lparr>pos := pos r + length as\<rparr>)" using readsD [OF assms(1), of r "bs @ post"] by simp
  have "drop (pos r + length as) (raw r) = bs @ post" using drop_after [of r as "bs @ post"] d by simp
  then show "(case p r of None \<Rightarrow> None | Some (x, r1) \<Rightarrow> k x r1) = Some (y, r\<lparr>pos := pos r + length (as @ bs)\<rparr>)"
    using readsD [OF assms(2), of "r\<lparr>pos := pos r + length as\<rparr>" post] by (simp add: 1 add.assoc)
qed

lemma reads_map: "reads p bs x \<Longrightarrow> reads (\<lambda>r. map_option (\<lambda>(x, r'). (f x, r')) (p r)) bs (f x)"
  by (auto simp: reads_def)

lemma reads_cong: "reads p bs x \<Longrightarrow> p = q \<Longrightarrow> bs = cs \<Longrightarrow> x = y \<Longrightarrow> reads q cs y"
  by simp

lemma read_u8_reads: "reads read_u8 [b] b"
  by (auto simp: reads_def read_u8_def nth_via_drop)

lemma read_array_reads: "length bs = n \<Longrightarrow> 0 < n \<Longrightarrow> reads (read_array n) bs bs"
  unfolding reads_def
proof (intro allI impI)
  fix r :: WkbReader and post
  assume n: "length bs = n" "0 < n" and d: "drop (pos r) (raw r) = bs @ post"
  have "length (raw r) - pos r = n + length post" using arg_cong [OF d, of length] n by simp
  then have "pos r + n \<le> length (raw r)" using n(2) by linarith
  then show "read_array n r = Some (bs, r\<lparr>pos := pos r + length bs\<rparr>)"
    using n d by (auto simp: read_array_def)
qed

lemma read_u32_reads: "reads (read_u32 e) (encode_word 4 e w) w"
  using reads_map [OF read_array_reads, of "encode_word 4 e w" 4 "from_bytes e :: _ \<Rightarrow> 32 word"]
  by (simp add: read_u32_def [abs_def] from_encode_word)

lemma read_f64_reads: "reads (read_f64 e) (encode_word 8 e w) w"
  using reads_map [OF read_array_reads, of "encode_word 8 e w" 8 "from_bytes e :: _ \<Rightarrow> f64"]
  by (simp add: read_f64_def [abs_def] from_encode_word)

lemma read_many_reads:
  assumes "\<And>x. x \<in> set xs \<Longrightarrow> reads p (enc x) x"
  shows "reads (read_many (length xs) p) (concat (map enc xs)) xs"
  using assms
proof (induction xs)
  case Nil
  show ?case by (simp add: reads_def)
next
  case (Cons x xs)
  have "reads (\<lambda>r. case p r of None \<Rightarrow> None
        | Some (x, r1) \<Rightarrow> map_option (\<lambda>(xs, r2). (x # xs, r2)) (read_many (length xs) p r1)) (enc x @ concat (map enc xs)) (x # xs)"
    by (rule reads_bind [OF Cons.prems], simp, rule reads_map, rule Cons.IH, rule Cons.prems) simp
  then show ?case by (rule reads_cong) (auto simp: fun_eq_iff split: option.splits)
qed

definition encode_counted :: "WkbEndian \<Rightarrow> ('a \<Rightarrow> 8 word list) \<Rightarrow> 'a list \<Rightarrow> 8 word list" where
  "encode_counted e enc xs = encode_word 4 e (word_of_nat (length xs) :: 32 word) @ concat (map enc xs)"

definition fails :: "(WkbReader \<Rightarrow> ('a \<times> WkbReader) option) \<Rightarrow> 8 word list \<Rightarrow> bool" where
  "fails p bs \<longleftrightarrow> (\<forall>r post. drop (pos r) (raw r) = bs @ post \<longrightarrow> p r = None)"

lemma fails_bind:
  assumes "reads p as x" "fails (k x) bs"
  shows "fails (\<lambda>r. case p r of None \<Rightarrow> None | Some (x, r1) \<Rightarrow> k x r1) (as @ bs)"
  unfolding fails_def
proof (intro allI impI)
  fix r :: WkbReader and post
  assume d: "drop (pos r) (raw r) = (as @ bs) @ post"
  then have "p r = Some (x, r\<lparr>pos := pos r + length as\<rparr>)" using readsD [OF assms(1), of r "bs @ post"] by simp
  moreover have "drop (pos r + length as) (raw r) = bs @ post" using drop_after [of r as "bs @ post"] d by simp
  ultimately show "(case p r of None \<Rightarrow> None | Some (x, r1) \<Rightarrow> k x r1) = None" using assms(2) by (simp add: fails_def)
qed

lemma unat_count: "length xs < 2 ^ 32 \<Longrightarrow> unat (word_of_nat (length xs) :: 32 word) = length xs"
  by (simp add: unat_of_nat)

lemma read_counted_reads:
  assumes "length xs < 2 ^ 32" "\<And>x. x \<in> set xs \<Longrightarrow> reads p (enc x) x"
  shows "reads (read_counted e p) (encode_counted e enc xs) xs"
  unfolding read_counted_def encode_counted_def
  by (rule reads_bind [OF read_u32_reads], unfold unat_count [OF assms(1)], rule read_many_reads, rule assms(2))

definition encode_endian :: "WkbEndian \<Rightarrow> 8 word" where
  "encode_endian e = (case e of Big \<Rightarrow> 0 | Little \<Rightarrow> 1)"

definition encode_header :: "marking \<Rightarrow> WkbEndian \<Rightarrow> WkbDimensions \<Rightarrow> 32 word \<Rightarrow> 32 word option \<Rightarrow> 8 word list" where
  "encode_header mk e dims base id_opt =
     [encode_endian e] @ encode_word 4 e (type_word mk dims base (id_opt \<noteq> None)) @
     (case id_opt of None \<Rightarrow> [] | Some v \<Rightarrow> encode_word 4 e v)"

definition encode_coord :: "WkbEndian \<Rightarrow> coordinate \<Rightarrow> 8 word list" where
  "encode_coord e c = concat (map (encode_word 8 e) c)"

definition NaN :: f64 where
  "NaN = 0x7FF8000000000000"

definition encode_point :: "WkbEndian \<Rightarrow> WkbDimensions \<Rightarrow> coordinate option \<Rightarrow> 8 word list" where
  "encode_point e dims p = encode_coord e (case p of None \<Rightarrow> replicate (coordinate_len dims) NaN | Some c \<Rightarrow> c)"

definition encode_points :: "WkbEndian \<Rightarrow> coordinate list \<Rightarrow> 8 word list" where
  "encode_points e = encode_counted e (encode_coord e)"

definition encode_single :: "marking \<Rightarrow> WkbEndian \<Rightarrow> WkbDimensions \<Rightarrow> 32 word option \<Rightarrow> coordinate option \<Rightarrow> 8 word list" where
  "encode_single mk e dims i p = encode_header mk e dims 1 i @ encode_point e dims p"

definition encode_line :: "marking \<Rightarrow> WkbEndian \<Rightarrow> WkbDimensions \<Rightarrow> 32 word option \<Rightarrow> coordinate list \<Rightarrow> 8 word list" where
  "encode_line mk e dims i ps = encode_header mk e dims 2 i @ encode_points e ps"

definition encode_polygon ::
  "marking \<Rightarrow> WkbEndian \<Rightarrow> WkbDimensions \<Rightarrow> 32 word option \<Rightarrow> coordinate list list \<Rightarrow> 8 word list" where
  "encode_polygon mk e dims i rings = encode_header mk e dims 3 i @ encode_counted e (encode_points e) rings"

lemma encode_counted_cong [fundef_cong]:
  "xs = ys \<Longrightarrow> (\<And>x. x \<in> set ys \<Longrightarrow> f x = g x) \<Longrightarrow> encode_counted e f xs = encode_counted e g ys"
  unfolding encode_counted_def by (metis map_cong)

fun encode :: "marking \<Rightarrow> WkbEndian \<Rightarrow> 32 word option \<Rightarrow> WkbGeometry \<Rightarrow> 8 word list" where
  "encode mk e i (Point dims p) = encode_single mk e dims i p"
| "encode mk e i (LineString dims ps) = encode_line mk e dims i ps"
| "encode mk e i (Polygon dims rings) = encode_polygon mk e dims i rings"
| "encode mk e i (MultiPoint dims ps) =
     encode_header mk e dims 4 i @ encode_counted e (encode_single mk e dims None) ps"
| "encode mk e i (MultiLineString dims lines) =
     encode_header mk e dims 5 i @ encode_counted e (encode_line mk e dims None) lines"
| "encode mk e i (MultiPolygon dims polygons) =
     encode_header mk e dims 6 i @ encode_counted e (encode_polygon mk e dims None) polygons"
| "encode mk e i (GeometryCollection dims gs) =
     encode_header mk e dims 7 i @ encode_counted e (encode mk e None) gs"

text \<open>Geometries that can be written: counts fit in 32 bits and coordinates have the announced width.\<close>

definition enumerable :: "('a \<Rightarrow> bool) \<Rightarrow> 'a list \<Rightarrow> bool" where
  "enumerable ok xs \<longleftrightarrow> length xs < 2 ^ 32 \<and> list_all ok xs"

lemma enumerable_cong [fundef_cong]:
  "xs = ys \<Longrightarrow> (\<And>x. x \<in> set ys \<Longrightarrow> f x = g x) \<Longrightarrow> enumerable f xs = enumerable g ys"
  by (auto simp: enumerable_def list_all_iff)

fun encodable :: "WkbGeometry \<Rightarrow> bool" where
  "encodable (Point dims p) = point_ok dims p"
| "encodable (LineString dims ps) = enumerable (coord_ok dims) ps"
| "encodable (Polygon dims rings) = enumerable (enumerable (coord_ok dims)) rings"
| "encodable (MultiPoint dims ps) = enumerable (point_ok dims) ps"
| "encodable (MultiLineString dims lines) = enumerable (enumerable (coord_ok dims)) lines"
| "encodable (MultiPolygon dims polygons) = enumerable (enumerable (enumerable (coord_ok dims))) polygons"
| "encodable (GeometryCollection dims gs) = enumerable encodable gs"

definition kept_srid :: "32 word option \<Rightarrow> 32 word option" where
  "kept_srid i = (case i of None \<Rightarrow> None | Some v \<Rightarrow> if v \<noteq> 0 then Some v else None)"

lemma read_endian_reads: "reads read_endian [encode_endian e] e"
  using read_u8_reads [of "encode_endian e"]
  by (cases e) (auto simp: reads_def read_endian_def encode_endian_def)

lemma read_coordinate_reads: "coord_ok dims c \<Longrightarrow> reads (read_coordinate e dims) (encode_coord e c) c"
  unfolding coord_ok_def read_coordinate_def encode_coord_def
  using read_many_reads [of c "read_f64 e" "encode_word 8 e"] read_f64_reads by metis

lemma NaN_is_nan: "is_nan NaN"
  by (simp add: is_nan_def NaN_def)

lemma encode_point_reads:
  assumes "point_ok dims p"
  shows "reads (\<lambda>r. map_option (\<lambda>(c, r'). (point_of c, r')) (read_coordinate e dims r)) (encode_point e dims p) p"
proof (cases p)
  case None
  have "coord_ok dims (replicate (coordinate_len dims) NaN)" by (simp add: coord_ok_def)
  from reads_map [OF read_coordinate_reads [OF this], of point_of e] show ?thesis
    by (simp add: None encode_point_def point_of_def list_all_length NaN_is_nan)
next
  case (Some c)
  then have "coord_ok dims c" "point_of c = Some c" using assms by (simp_all add: point_ok_def point_of_def)
  then show ?thesis using reads_map [OF read_coordinate_reads, of dims c point_of e] by (simp add: Some encode_point_def)
qed

lemma parse_wkb_points_reads: "enumerable (coord_ok dims) ps \<Longrightarrow> reads (parse_wkb_points e dims) (encode_points e ps) ps"
  unfolding enumerable_def parse_wkb_points_def encode_points_def
  by (rule read_counted_reads) (auto simp: list_all_iff read_coordinate_reads)

lemma read_header_reads:
  assumes "base \<in> {1, 2, 3, 4, 5, 6, 7}"
  shows "reads read_header (encode_header mk e dims base i) (e, base, dims, kept_srid i)"
proof -
  have "reads (\<lambda>r. case read_endian r of None \<Rightarrow> None | Some (e, r1) \<Rightarrow> (case read_u32 e r1 of None \<Rightarrow> None
      | Some (t, r2) \<Rightarrow> (let (base_type, dims, has_srid) = parse_wkb_dimensions t
          in case (if has_srid then read_u32 e r2 else None) of
               None \<Rightarrow> Some ((e, base_type, dims, None), r2)
             | Some (v, r3) \<Rightarrow> Some ((e, base_type, dims, if v \<noteq> 0 then Some v else None), r3))))
     (encode_header mk e dims base i) (e, base, dims, kept_srid i)"
    unfolding encode_header_def
  proof (rule reads_bind [OF read_endian_reads], rule reads_bind [OF read_u32_reads])
    show "reads (\<lambda>r2. let (base_type, dims, has_srid) = parse_wkb_dimensions (type_word mk dims base (i \<noteq> None))
          in case (if has_srid then read_u32 e r2 else None) of
               None \<Rightarrow> Some ((e, base_type, dims, None), r2)
             | Some (v, r3) \<Rightarrow> Some ((e, base_type, dims, if v \<noteq> 0 then Some v else None), r3))
       (case i of None \<Rightarrow> [] | Some v \<Rightarrow> encode_word 4 e v) (e, base, dims, kept_srid i)"
      unfolding parse_type_word [OF assms]
      using readsD [OF read_u32_reads] by (cases i) (auto simp: reads_def kept_srid_def)
  qed
  then show ?thesis by (rule reads_cong) (simp_all add: read_header_def fun_eq_iff)
qed

definition parse_body ::
  "WkbEndian \<times> 32 word \<times> WkbDimensions \<times> 32 word option \<Rightarrow> WkbReader \<Rightarrow>
     ((WkbGeometry \<times> 32 word option) \<times> WkbReader) option" where
  "parse_body = (\<lambda>(e, b, d, i) r.
     if b = 5 \<or> b = 6 \<or> b = 7
     then map_option (\<lambda>(gs, r'). ((collect_children b d gs, i), r'))
       (case read_u32 e r of None \<Rightarrow> None | Some (n, r1) \<Rightarrow> parse_children b (unat n) r1)
     else map_option (\<lambda>(g, r'). ((g, i), r')) (parse_simple e b d r))"

lemma parse_header_body:
  "parse_wkb_geometry = (\<lambda>r. case read_header r of None \<Rightarrow> None | Some (h, r1) \<Rightarrow> parse_body h r1)"
  by (auto simp: fun_eq_iff parse_body_def split: option.splits)

declare parse_wkb_geometry.simps [simp del]

lemma geometry_reads:
  assumes "base \<in> {1, 2, 3, 4, 5, 6, 7}" "reads (parse_body (e, base, dims, kept_srid i)) body x"
  shows "reads parse_wkb_geometry (encode_header mk e dims base i @ body) x"
  unfolding parse_header_body by (rule reads_bind [where k = parse_body], rule read_header_reads, rule assms(1), rule assms(2))

lemma simple_reads:
  assumes "base \<in> {1, 2, 3, 4}" "reads (parse_simple e base dims) body g"
  shows "reads parse_wkb_geometry (encode_header mk e dims base i @ body) (g, kept_srid i)"
proof (rule geometry_reads)
  show "reads (parse_body (e, base, dims, kept_srid i)) body (g, kept_srid i)"
    using assms(1) reads_map [OF assms(2), of "\<lambda>g. (g, kept_srid i)"] by (auto simp: parse_body_def)
qed (use assms(1) in auto)

lemma children_read:
  assumes "\<And>g. g \<in> set gs \<Longrightarrow> reads parse_wkb_geometry (enc g) (g, None)" "list_all (accepts b) gs"
  shows "reads (parse_children b (length gs)) (concat (map enc gs)) gs"
  using assms
proof (induction gs)
  case Nil
  show ?case by (simp add: reads_def)
next
  case (Cons g gs)
  have "reads (\<lambda>r. case parse_wkb_geometry r of None \<Rightarrow> None | Some (x, r1) \<Rightarrow>
       (if accepts b (fst x) then map_option (\<lambda>(gs, r2). (fst x # gs, r2)) (parse_children b (length gs) r1) else None))
      (enc g @ concat (map enc gs)) (g # gs)"
    by (rule reads_bind [OF Cons.prems(1)], simp, use Cons.prems(2) in simp, rule reads_map, rule Cons.IH, rule Cons.prems)
      (use Cons.prems in auto)
  then show ?case by (rule reads_cong) (auto simp: fun_eq_iff split: option.splits)
qed

lemma container_reads:
  assumes "base \<in> {5, 6, 7}" "length gs < 2 ^ 32" "list_all (accepts base) gs"
    "\<And>g. g \<in> set gs \<Longrightarrow> reads parse_wkb_geometry (enc g) (g, None)"
  shows "reads parse_wkb_geometry (encode_header mk e dims base i @ encode_counted e enc gs)
    (collect_children base dims gs, kept_srid i)"
proof (rule geometry_reads)
  have "reads (\<lambda>r. case read_u32 e r of None \<Rightarrow> None | Some (n, r1) \<Rightarrow> parse_children base (unat n) r1)
      (encode_counted e enc gs) gs"
    unfolding encode_counted_def
    by (rule reads_bind [OF read_u32_reads], unfold unat_count [OF assms(2)], rule children_read [OF assms(4,3)])
  from reads_map [OF this, of "\<lambda>gs. (collect_children base dims gs, kept_srid i)"]
  show "reads (parse_body (e, base, dims, kept_srid i)) (encode_counted e enc gs) (collect_children base dims gs, kept_srid i)"
    using assms(1) by (auto simp: parse_body_def)
qed (use assms(1) in auto)

lemma kept_srid_None [simp]: "kept_srid None = None"
  by (simp add: kept_srid_def)

lemma point_reads: "point_ok dims p \<Longrightarrow> reads parse_wkb_geometry (encode_single mk e dims i p) (Point dims p, kept_srid i)"
  unfolding encode_single_def
  by (rule simple_reads) (use reads_map [OF encode_point_reads, of dims p "Point dims" e] in
      \<open>simp_all add: parse_simple_def [abs_def] option.map_comp comp_def case_prod_unfold\<close>)

lemma line_reads:
  "enumerable (coord_ok dims) ps \<Longrightarrow>
     reads parse_wkb_geometry (encode_line mk e dims i ps) (LineString dims ps, kept_srid i)"
  unfolding encode_line_def
  by (rule simple_reads) (simp_all add: parse_simple_def [abs_def] reads_map parse_wkb_points_reads)

lemma rings_read:
  assumes "enumerable (enumerable (coord_ok dims)) rings"
  shows "reads (read_counted e (parse_wkb_points e dims)) (encode_counted e (encode_points e) rings) rings"
  by (rule read_counted_reads) (use assms in \<open>auto simp: enumerable_def [of _ rings] list_all_iff intro: parse_wkb_points_reads\<close>)

lemma polygon_reads:
  "enumerable (enumerable (coord_ok dims)) rings \<Longrightarrow>
     reads parse_wkb_geometry (encode_polygon mk e dims i rings) (Polygon dims rings, kept_srid i)"
  unfolding encode_polygon_def
  by (rule simple_reads) (simp_all add: parse_simple_def [abs_def] reads_map rings_read)

lemma multi_point_child_reads:
  assumes "point_ok dims p"
  shows "reads (read_wkb_point_coords dims) (encode_single mk e dims None p) p"
proof -
  have "reads (\<lambda>r. case read_endian r of None \<Rightarrow> None | Some (endian, r1) \<Rightarrow> (case read_u32 endian r1 of None \<Rightarrow> None
      | Some (t, r2) \<Rightarrow>
         (let (base_type, parsed_dims, has_srid) = parse_wkb_dimensions t
          in if base_type \<noteq> 1 \<or> parsed_dims \<noteq> dims then None
             else (case skip_srid endian has_srid r2 of
                 None \<Rightarrow> None
               | Some (_, r3) \<Rightarrow> map_option (\<lambda>(coords, r4). (point_of coords, r4)) (read_coordinate endian parsed_dims r3)))))
    ([encode_endian e] @ encode_word 4 e (type_word mk dims 1 False) @ encode_point e dims p) p"
    by (rule reads_bind [OF read_endian_reads], rule reads_bind [OF read_u32_reads])
      (simp add: parse_type_word skip_srid_def encode_point_reads [OF assms])
  then show ?thesis
    by (rule reads_cong) (simp_all add: read_wkb_point_coords_def [abs_def] encode_single_def encode_header_def)
qed

lemma multi_point_reads:
  assumes "enumerable (point_ok dims) ps"
  shows "reads parse_wkb_geometry (encode_header mk e dims 4 i @ encode_counted e (encode_single mk e dims None) ps)
    (MultiPoint dims ps, kept_srid i)"
proof (rule simple_reads)
  have "reads (read_counted e (read_wkb_point_coords dims)) (encode_counted e (encode_single mk e dims None) ps) ps"
    by (rule read_counted_reads) (use assms in \<open>auto simp: enumerable_def list_all_iff intro: multi_point_child_reads\<close>)
  then show "reads (parse_simple e 4 dims) (encode_counted e (encode_single mk e dims None) ps) (MultiPoint dims ps)"
    by (simp add: parse_simple_def [abs_def] reads_map)
qed simp

lemma encode_counted_map: "encode_counted e enc (map f xs) = encode_counted e (\<lambda>x. enc (f x)) xs"
  by (simp add: encode_counted_def comp_def)

lemma encode_reads: "encodable g \<Longrightarrow> reads parse_wkb_geometry (encode mk e i g) (g, kept_srid i)"
proof (induction mk e i g rule: encode.induct)
  case (5 mk e i dims lines)
  have "reads parse_wkb_geometry
      (encode_header mk e dims 5 i @ encode_counted e (encode mk e None) (map (LineString dims) lines))
      (collect_children 5 dims (map (LineString dims) lines), kept_srid i)"
    by (rule container_reads)
      (use 5 line_reads [where i = None] in \<open>auto simp: enumerable_def [of _ lines] list_all_iff accepts_def\<close>)
  then show ?case by (simp add: encode_counted_map collect_children_def comp_def)
next
  case (6 mk e i dims polygons)
  have "reads parse_wkb_geometry
      (encode_header mk e dims 6 i @ encode_counted e (encode mk e None) (map (Polygon dims) polygons))
      (collect_children 6 dims (map (Polygon dims) polygons), kept_srid i)"
    by (rule container_reads)
      (use 6 polygon_reads [where i = None] in \<open>auto simp: enumerable_def [of _ polygons] list_all_iff accepts_def\<close>)
  then show ?case by (simp add: encode_counted_map collect_children_def comp_def)
next
  case (7 mk e i dims gs)
  have "reads parse_wkb_geometry (encode_header mk e dims 7 i @ encode_counted e (encode mk e None) gs)
      (collect_children 7 dims gs, kept_srid i)"
    by (rule container_reads) (use 7 in \<open>auto simp: enumerable_def list_all_iff accepts_def split: WkbGeometry.split\<close>)
  then show ?case by (simp add: collect_children_def)
qed (simp_all add: point_reads line_reads polygon_reads multi_point_reads)

lemma decode_reads:
  assumes "reads parse_wkb_geometry bytes (g, i)"
  shows "decode_wkb_geometry show_f64 bytes = Some \<lparr>wkt = to_wkt show_f64 g, srid = i\<rparr>"
  using readsD [OF assms, of "reader_new bytes" "[]"] by (simp add: decode_wkb_geometry_def reader_new_def)

lemma multi_point_child_fails:
  assumes "d \<noteq> dims"
  shows "fails (read_wkb_point_coords dims) (encode_single mk e d None p)"
  unfolding read_wkb_point_coords_def encode_single_def encode_header_def append_assoc
  by (rule fails_bind [OF read_endian_reads], rule fails_bind [OF read_u32_reads])
    (simp add: parse_type_word fails_def assms)

lemma multi_point_fails:
  assumes "d \<noteq> dims"
  shows "fails parse_wkb_geometry (encode_header mk e dims 4 i @ encode_counted e (encode_single mk e d None) [p])"
proof -
  have "fails (read_counted e (read_wkb_point_coords dims)) (encode_counted e (encode_single mk e d None) [p])"
    unfolding read_counted_def encode_counted_def
    by (rule fails_bind [OF read_u32_reads]) (use multi_point_child_fails [OF assms, of mk e p] in \<open>simp add: fails_def\<close>)
  then have body: "fails (parse_body (e, 4, dims, kept_srid i)) (encode_counted e (encode_single mk e d None) [p])"
    by (simp add: parse_body_def parse_simple_def fails_def)
  show ?thesis
    unfolding parse_header_body by (rule fails_bind [where k = parse_body], rule read_header_reads, simp, rule body)
qed

lemma decode_fails: "fails parse_wkb_geometry bytes \<Longrightarrow> wkb_to_wkt show_f64 bytes = None"
  by (simp add: fails_def wkb_to_wkt_def decode_wkb_geometry_def reader_new_def)

lemma multi_line_reads:
  assumes "enumerable (coord_ok d) ps"
  shows "reads parse_wkb_geometry (encode_header mk e dims 5 None @ encode_counted e (encode_line mk e d None) [ps])
    (MultiLineString dims [ps], None)"
proof -
  have "reads parse_wkb_geometry (encode_header mk e dims 5 None @ encode_counted e (encode mk e None) [LineString d ps])
      (collect_children 5 dims [LineString d ps], kept_srid None)"
    by (rule container_reads) (use line_reads [OF assms, where i = None] in \<open>auto simp: accepts_def\<close>)
  then show ?thesis by (simp add: encode_counted_def collect_children_def)
qed

section \<open>Properties\<close>

definition xy :: WkbDimensions where
  "xy = \<lparr>has_z = False, has_m = False\<rparr>"

definition xyz :: WkbDimensions where
  "xyz = \<lparr>has_z = True, has_m = False\<rparr>"

text \<open>
  C7: every geometry that can be written at all is decoded to its own text, with the SRID it was written
  with (zero counts as none), whether it is written big or little endian and whether dimensions are
  marked by the flags of PostGIS or by the thousands of the ISO standard.
\<close>

theorem wkb_round_trip:
  assumes "encodable g"
  shows "decode_wkb_geometry show_f64 (encode mk e i g) = Some \<lparr>wkt = to_wkt show_f64 g, srid = kept_srid i\<rparr>"
  by (rule decode_reads [OF encode_reads [OF assms]])

theorem wkb_round_trip_witness:
  "decode_wkb_geometry (\<lambda>_. ''1'') (encode Flags Little (Some 4326)
      (GeometryCollection xy [MultiPoint xyz [Some [1, 2, 3], None], MultiLineString xy [[], [[1, 2], [3, 4]]]])) =
    Some \<lparr>wkt = ''GEOMETRYCOLLECTION(MULTIPOINT Z((1 1 1),EMPTY),MULTILINESTRING((),(1 1,1 1)))'', srid = Some 4326\<rparr>"
  using wkb_round_trip [of "GeometryCollection xy [MultiPoint xyz [Some [1, 2, 3], None], MultiLineString xy [[], [[1, 2], [3, 4]]]]"
      "\<lambda>_. ''1''" Flags Little "Some 4326"]
  by (simp add: enumerable_def point_ok_def coord_ok_def coordinate_len_def is_nan_def xy_def xyz_def kept_srid_def
      tagged_def dims_suffix_def join_with_def parens_def format_wkb_coordinate_def format_wkb_coordinate_sequence_def)



text \<open>
  C39: a multi-line that announces one kind of dimensions takes lines written with any other, and prints
  their coordinates under its own tag; a multipoint in the same situation is rejected.
\<close>

theorem mixed_dimensions_accepted:
  assumes "enumerable (coord_ok d) ps" "d \<noteq> dims"
  shows "wkb_to_wkt show_f64 (encode_header mk e dims 5 None @ encode_counted e (encode_line mk e d None) [ps]) =
      Some (to_wkt show_f64 (MultiLineString dims [ps])) \<and>
    wkb_to_wkt show_f64 (encode_header mk e dims 4 None @ encode_counted e (encode_single mk e d None) [p]) = None"
  using decode_reads [OF multi_line_reads [OF assms(1)]] decode_fails [OF multi_point_fails [OF assms(2)]]
  by (simp add: wkb_to_wkt_def)

theorem mixed_dimensions_accepted_witness:
  "wkb_to_wkt (\<lambda>_. ''1'') (encode_header Iso Big xyz 5 None @ encode_counted Big (encode_line Iso Big xy None) [[[1, 1]]]) =
      Some ''MULTILINESTRING Z((1 1))'' \<and>
    wkb_to_wkt (\<lambda>_. ''1'') (encode_header Iso Big xyz 4 None @ encode_counted Big (encode_single Iso Big xy None) [Some [1, 1]]) = None"
  using mixed_dimensions_accepted [of xy "[[1, 1]]" xyz "\<lambda>_. ''1''" Iso Big "Some [1, 1]"]
  by (simp add: enumerable_def coord_ok_def coordinate_len_def xy_def xyz_def tagged_def dims_suffix_def join_with_def
      parens_def format_wkb_coordinate_def format_wkb_coordinate_sequence_def)

end
