(* ===== verification/Json_Values.thy ===== *)
theory Json_Values
  imports Prelude
begin

text \<open>
  JSON values as the program sees them, and the conversion of \<^verbatim>\<open>crates/dbx-types/src/json.rs\<close> that keeps
  integers exact for a JavaScript reader. Numbers keep the text they were written with
  (\<^verbatim>\<open>serde_json\<close> is built with \<^verbatim>\<open>arbitrary_precision\<close>), and an object keeps its entries in order.
\<close>

datatype json =
    JsNull
  | JsBool bool
  | JsNumber string
  | JsString string
  | JsArray "json list"
  | JsObject "(string \<times> json) list"

section \<open>Integers in text\<close>

definition all_digits :: "string \<Rightarrow> nat option" where
  "all_digits s = (if s = [] then None else digits_value 0 s)"

text \<open>\<^verbatim>\<open>str::parse::<i64>\<close> and \<^verbatim>\<open>str::parse::<u64>\<close>: digits after an optional sign, within the range of the type.\<close>

definition parse_i64 :: "string \<Rightarrow> int option" where
  "parse_i64 s = (case s of
     [] \<Rightarrow> None
   | c # r \<Rightarrow>
       if c = CHR ''-'' then Option.bind (all_digits r) (\<lambda>n. if n \<le> 2 ^ 63 then Some (- int n) else None)
       else Option.bind (all_digits (if c = CHR ''+'' then r else s)) (\<lambda>n. if n < 2 ^ 63 then Some (int n) else None))"

definition parse_u64_nat :: "string \<Rightarrow> nat option" where
  "parse_u64_nat s = (case s of
     [] \<Rightarrow> None
   | c # r \<Rightarrow> Option.bind (all_digits (if c = CHR ''+'' then r else s)) (\<lambda>n. if n < 2 ^ 64 then Some n else None))"

definition show_int :: "int \<Rightarrow> string" where
  "show_int i = (if i < 0 then CHR ''-'' # show_nat (nat (- i)) else show_nat (nat i))"

section \<open>Values for JavaScript\<close>

definition JS_MAX_SAFE_INTEGER :: int where
  "JS_MAX_SAFE_INTEGER = 9007199254740991"

definition safe_i64_to_json :: "int \<Rightarrow> json" where
  "safe_i64_to_json v =
     (if - JS_MAX_SAFE_INTEGER \<le> v \<and> v \<le> JS_MAX_SAFE_INTEGER then JsNumber (show_int v) else JsString (show_int v))"

definition safe_u64_to_json :: "nat \<Rightarrow> json" where
  "safe_u64_to_json v = (if int v > JS_MAX_SAFE_INTEGER then JsString (show_nat v) else JsNumber (show_nat v))"

definition js_number :: "string \<Rightarrow> json" where
  "js_number t = (case parse_i64 t of
     Some v \<Rightarrow> safe_i64_to_json v
   | None \<Rightarrow> (case parse_u64_nat t of
       Some v \<Rightarrow> safe_u64_to_json v
     | None \<Rightarrow> if list_all (\<lambda>c. c = CHR ''-'' \<or> (48 \<le> byte c \<and> byte c \<le> 57)) t then JsString t else JsNumber t))"

fun json_value_for_js :: "json \<Rightarrow> json" where
  "json_value_for_js (JsNumber t) = js_number t"
| "json_value_for_js (JsArray vs) = JsArray (map json_value_for_js vs)"
| "json_value_for_js (JsObject es) = JsObject (map (\<lambda>(k, v). (k, json_value_for_js v)) es)"
| "json_value_for_js v = v"

section \<open>Exactness\<close>

text \<open>The numbers anywhere inside a value.\<close>

fun json_numbers :: "json \<Rightarrow> string list" where
  "json_numbers (JsNumber t) = [t]"
| "json_numbers (JsArray vs) = concat (map json_numbers vs)"
| "json_numbers (JsObject es) = concat (map (\<lambda>(k, v). json_numbers v) es)"
| "json_numbers _ = []"

text \<open>The integer a text stands for, without a bound, when it is one.\<close>

definition integer_value :: "string \<Rightarrow> int option" where
  "integer_value t = (case t of
     [] \<Rightarrow> None
   | c # r \<Rightarrow> if c = CHR ''-'' then map_option (\<lambda>n. - int n) (all_digits r) else map_option int (all_digits t))"

lemma digit_value_digits: "digits_value a s = Some n \<Longrightarrow> list_all (\<lambda>c. 48 \<le> byte c \<and> byte c \<le> 57) s"
  by (induction s arbitrary: a) (auto simp: digit_value_def split: option.splits if_splits)

lemma integer_value_shape:
  assumes "integer_value t = Some v"
  shows "list_all (\<lambda>c. c = CHR ''-'' \<or> (48 \<le> byte c \<and> byte c \<le> 57)) t"
proof -
  have *: "list_all (\<lambda>c. c = CHR ''-'' \<or> (48 \<le> byte c \<and> byte c \<le> 57)) r" if "all_digits r = Some n" for r n
    using digit_value_digits [of 0 r n] that by (auto simp: all_digits_def list_all_iff split: if_splits)
  show ?thesis
  proof (cases t)
    case (Cons c r)
    then show ?thesis
      using assms * [of r] * [of t] by (cases "c = CHR ''-''") (auto simp: integer_value_def)
  qed simp
qed

lemma show_nat_digits: "digits_value a (show_nat n @ s) = digits_value (a * 10 ^ length (show_nat n) + n) s"
proof (induction n arbitrary: a s rule: show_nat.induct)
  case (1 n)
  have d: "digit_value (char_of (48 + d)) = Some d" if "d < 10" for d :: nat
    using that by (simp add: digit_value_def)
  show ?case
  proof (cases "n < 10")
    case True
    then show ?thesis by (simp add: show_nat.simps [of n] d)
  next
    case False
    let ?q = "show_nat (n div 10)"
    have "digits_value a (show_nat n @ s) = digits_value a (?q @ char_of (48 + n mod 10) # s)"
      using False by (simp add: show_nat.simps [of n])
    also have "\<dots> = digits_value ((a * 10 ^ length ?q + n div 10) * 10 + n mod 10) s"
      using 1 [OF False, of a "char_of (48 + n mod 10) # s"] d [of "n mod 10"] by simp
    also have "(a * 10 ^ length ?q + n div 10) * 10 + n mod 10 = a * 10 ^ length (show_nat n) + n"
      using False by (simp add: show_nat.simps [of n] algebra_simps)
    finally show ?thesis .
  qed
qed

lemma show_nat_nonempty: "show_nat n \<noteq> []"
  by (subst show_nat.simps) simp

lemma all_digits_show_nat [simp]: "all_digits (show_nat n) = Some n"
  using show_nat_digits [of 0 n "[]"] by (simp add: all_digits_def show_nat_nonempty)

lemma show_nat_head: "show_nat n = c # r \<Longrightarrow> c \<noteq> CHR ''-''"
  using digit_value_digits [of 0 "show_nat n"] all_digits_show_nat [of n] by (auto simp: all_digits_def)

lemma integer_value_show_nat: "integer_value (show_nat n) = Some (int n)"
proof (cases "show_nat n")
  case (Cons c r)
  then show ?thesis using show_nat_head [OF Cons] all_digits_show_nat [of n] by (simp add: integer_value_def)
qed (simp add: show_nat_nonempty)

lemma integer_value_show_int: "integer_value (show_int i) = Some i"
  by (auto simp: show_int_def integer_value_show_nat) (simp add: integer_value_def)

text \<open>A number as the grammar of JSON has it: an optional minus, digits, then nothing or a fraction or an exponent.\<close>

definition json_number_text :: "string \<Rightarrow> bool" where
  "json_number_text t =
     (let r = (if take 1 t = ''-'' then tl t else t);
          rest = dropWhile (\<lambda>c. 48 \<le> byte c \<and> byte c \<le> 57) r
      in rest \<noteq> r \<and> (rest = [] \<or> hd rest \<in> set ''.eE''))"

text \<open>
  What a value may become: a number that is an integer stays that integer, as a number or as a string,
  any other number and everything else stays as it is.
\<close>

fun same_integer :: "string \<Rightarrow> json \<Rightarrow> bool" where
  "same_integer t (JsNumber u) = (if integer_value t = None then u = t else integer_value u = integer_value t)"
| "same_integer t (JsString u) = (integer_value t \<noteq> None \<and> integer_value u = integer_value t)"
| "same_integer t _ = False"

fun exact :: "json \<Rightarrow> json \<Rightarrow> bool" where
  "exact (JsNumber t) r = same_integer t r"
| "exact (JsArray vs) r = (case r of JsArray ws \<Rightarrow> list_all2 exact vs ws | _ \<Rightarrow> False)"
| "exact (JsObject es) r = (case r of JsObject fs \<Rightarrow> list_all2 (\<lambda>(k, v) (l, w). k = l \<and> exact v w) es fs | _ \<Rightarrow> False)"
| "exact v r = (r = v)"

definition js_safe :: "string \<Rightarrow> bool" where
  "js_safe t = (case integer_value t of None \<Rightarrow> True | Some i \<Rightarrow> \<bar>i\<bar> \<le> JS_MAX_SAFE_INTEGER)"

lemma parse_i64_value: "json_number_text t \<Longrightarrow> parse_i64 t = Some v \<Longrightarrow> integer_value t = Some v"
  by (cases t) (auto simp: parse_i64_def integer_value_def json_number_text_def Let_def split: if_splits option.splits bind_splits)

lemma parse_u64_value: "json_number_text t \<Longrightarrow> parse_u64_nat t = Some v \<Longrightarrow> integer_value t = Some (int v)"
  by (cases t) (auto simp: parse_u64_nat_def integer_value_def json_number_text_def all_digits_def digit_value_def
      Let_def split: if_splits option.splits bind_splits)

lemma digits_value_total: "list_all (\<lambda>c. 48 \<le> byte c \<and> byte c \<le> 57) s \<Longrightarrow> \<exists>n. digits_value a s = Some n"
  by (induction s arbitrary: a) (auto simp: digit_value_def)

lemma all_digits_total: "dropWhile (\<lambda>c. 48 \<le> byte c \<and> byte c \<le> 57) r = [] \<Longrightarrow> r \<noteq> [] \<Longrightarrow> \<exists>n. all_digits r = Some n"
  using digits_value_total [of r 0] by (auto simp: all_digits_def list_all_iff dropWhile_eq_Nil_conv)

lemma dashes_integer:
  assumes "json_number_text t" "list_all (\<lambda>c. c = CHR ''-'' \<or> (48 \<le> byte c \<and> byte c \<le> 57)) t"
  shows "integer_value t \<noteq> None"
proof -
  define r where "r = (if take 1 t = ''-'' then tl t else t)"
  define rest where "rest = dropWhile (\<lambda>c. 48 \<le> byte c \<and> byte c \<le> 57) r"
  have "set rest \<subseteq> set r" unfolding rest_def by (auto dest: set_dropWhileD)
  also have "set r \<subseteq> set t" by (cases t) (auto simp: r_def)
  finally have "set rest \<subseteq> set t" .
  then have "rest \<noteq> [] \<Longrightarrow> hd rest \<in> set t" by (meson hd_in_set subsetD)
  then have "rest = []" using assms by (fastforce simp: json_number_text_def Let_def r_def rest_def list_all_iff)
  moreover have "r \<noteq> []" using assms(1) by (auto simp: json_number_text_def Let_def r_def)
  ultimately obtain n where "all_digits r = Some n" using all_digits_total unfolding rest_def by blast
  then show ?thesis by (cases t) (auto simp: integer_value_def r_def all_digits_def split: if_splits)
qed

lemma js_number_exact:
  assumes "json_number_text t"
  shows "same_integer t (js_number t) \<and> list_all js_safe (json_numbers (js_number t))"
proof (cases "parse_i64 t")
  case (Some v)
  then show ?thesis using parse_i64_value [OF assms Some]
    by (auto simp: js_number_def safe_i64_to_json_def js_safe_def integer_value_show_int)
next
  case i64: None
  show ?thesis
  proof (cases "parse_u64_nat t")
    case (Some v)
    then show ?thesis using parse_u64_value [OF assms Some]
      by (auto simp: js_number_def i64 safe_u64_to_json_def js_safe_def integer_value_show_nat)
  next
    case None
    have "integer_value t = None" if "\<not> list_all (\<lambda>c. c = CHR ''-'' \<or> (48 \<le> byte c \<and> byte c \<le> 57)) t"
      using that integer_value_shape by (cases "integer_value t") auto
    then show ?thesis using dashes_integer [OF assms]
      by (auto simp: js_number_def i64 None js_safe_def)
  qed
qed



end
