(* ===== verification/D1_Sql.thy ===== *)
theory D1_Sql
  imports Prelude
begin

text \<open>
  SQL for Cloudflare D1, \<^verbatim>\<open>crates/dbx-drivers/src/db/cloudflare_d1\<close>: the lexer and the statement
  splitter of \<^verbatim>\<open>sql_lexer.rs\<close>, the guard of \<^verbatim>\<open>sql_guard.rs\<close>, the size limits and batches of
  \<^verbatim>\<open>sql_limits.rs\<close> and the reading of trigger declarations of \<^verbatim>\<open>trigger.rs\<close>.

  The scanner's index is represented by what remains of the text, next to the index itself; an inner
  loop that moves the index is a function to the text that remains after it. An error message is a
  constructor with the values that are formatted into it.
\<close>

section \<open>Lexer\<close>

datatype SqlLexeme = Word string | Number string | Symbol char | Semicolon nat

definition ascii_digit :: "char \<Rightarrow> bool" where
  "ascii_digit c \<longleftrightarrow> 48 \<le> byte c \<and> byte c \<le> 57"

definition ascii_alphabetic :: "char \<Rightarrow> bool" where
  "ascii_alphabetic c \<longleftrightarrow> (65 \<le> byte c \<and> byte c \<le> 90) \<or> (97 \<le> byte c \<and> byte c \<le> 122)"

definition word_start :: "char \<Rightarrow> bool" where
  "word_start c \<longleftrightarrow> ascii_alphabetic c \<or> c = CHR ''_''"

definition word_byte :: "char \<Rightarrow> bool" where
  "word_byte c \<longleftrightarrow> ascii_alphabetic c \<or> ascii_digit c \<or> c = CHR ''_'' \<or> c = CHR ''$''"

definition symbol_byte :: "char \<Rightarrow> bool" where
  "symbol_byte c \<longleftrightarrow> c \<in> set ''()=.,-+''"

definition quote_byte :: "char \<Rightarrow> bool" where
  "quote_byte c \<longleftrightarrow> c = CHR 0x27 \<or> c = CHR 0x22 \<or> c = CHR 0x60"

definition skip_line :: "string \<Rightarrow> string" where
  "skip_line s = dropWhile (\<lambda>c. c \<noteq> CHR 0x0A) s"

fun skip_block :: "string \<Rightarrow> string" where
  "skip_block (a # b # s) = (if a = CHR ''*'' \<and> b = CHR ''/'' then s else skip_block (b # s))"
| "skip_block s = []"

fun skip_quoted :: "char \<Rightarrow> string \<Rightarrow> string" where
  "skip_quoted q [] = []"
| "skip_quoted q [a] = []"
| "skip_quoted q (a # b # s) =
     (if a \<noteq> q then skip_quoted q (b # s) else if b = q then skip_quoted q s else b # s)"

text \<open>One round of the scanner at index \<open>i\<close>: the lexeme it pushes, if any, and what remains.\<close>

definition lex_step :: "nat \<Rightarrow> char \<Rightarrow> string \<Rightarrow> SqlLexeme option \<times> string" where
  "lex_step i c s =
     (if c = CHR ''-'' \<and> take 1 s = ''-'' then (None, skip_line (tl s))
      else if c = CHR ''/'' \<and> take 1 s = ''*'' then (None, skip_block (tl s))
      else if quote_byte c then (None, skip_quoted c s)
      else if c = CHR ''['' then (None, skip_quoted (CHR '']'') s)
      else if c = CHR '';'' then (Some (Semicolon i), s)
      else if ascii_digit c then (Some (Number (c # takeWhile ascii_digit s)), dropWhile ascii_digit s)
      else if word_start c then (Some (Word (c # takeWhile word_byte s)), dropWhile word_byte s)
      else if symbol_byte c then (Some (Symbol c), s)
      else (None, s))"

lemma skip_block_length: "length (skip_block s) \<le> length s"
  by (induction s rule: skip_block.induct) auto

lemma skip_quoted_length: "length (skip_quoted q s) \<le> length s"
  by (induction q s rule: skip_quoted.induct) auto

lemma skip_line_length: "length (skip_line s) \<le> length s"
  by (simp add: skip_line_def length_dropWhile_le)

lemma lex_step_length: "length (snd (lex_step i c s)) \<le> length s"
proof -
  have "length (skip_line (tl s)) \<le> length s" "length (skip_block (tl s)) \<le> length s"
    by (rule le_trans [OF skip_line_length], simp) (rule le_trans [OF skip_block_length], simp)
  then show ?thesis by (simp add: lex_step_def skip_quoted_length length_dropWhile_le)
qed

function lex_from :: "nat \<Rightarrow> string \<Rightarrow> SqlLexeme list" where
  "lex_from i [] = []"
| "lex_from i (c # s) =
     (case lex_step i c s of (l, rest) \<Rightarrow>
        (case l of None \<Rightarrow> [] | Some x \<Rightarrow> [x]) @ lex_from (i + (Suc (length s) - length rest)) rest)"
  by pat_completeness auto

termination
  by (relation "measure (\<lambda>(i, s). length s)") (auto, metis le_imp_less_Suc lex_step_length snd_conv)

definition lex_sql :: "string \<Rightarrow> SqlLexeme list" where
  "lex_sql sql = lex_from 0 sql"

section \<open>Statements\<close>

definition eq_ignore_ascii_case :: "string \<Rightarrow> string \<Rightarrow> bool" where
  "eq_ignore_ascii_case a b \<longleftrightarrow> to_ascii_lowercase a = to_ascii_lowercase b"

definition nth_word :: "nat \<Rightarrow> string list \<Rightarrow> string option" where
  "nth_word n ws = (if n < length ws then Some (ws ! n) else None)"

definition word_is :: "nat \<Rightarrow> string \<Rightarrow> string list \<Rightarrow> bool" where
  "word_is n keyword ws = is_some_and (\<lambda>w. eq_ignore_ascii_case w keyword) (nth_word n ws)"

definition is_create_trigger_prefix :: "string list \<Rightarrow> bool" where
  "is_create_trigger_prefix words \<longleftrightarrow>
     word_is 0 ''CREATE'' words \<and>
     (word_is 1 ''TRIGGER'' words \<or>
      (word_is 1 ''TEMP'' words \<or> word_is 1 ''TEMPORARY'' words) \<and> word_is 2 ''TRIGGER'' words)"

definition push_statement :: "string \<Rightarrow> nat \<Rightarrow> nat \<Rightarrow> string list \<Rightarrow> string list" where
  "push_statement sql start end_pos statements =
     (let statement = trim (take (end_pos - start) (drop start sql))
      in if statement \<noteq> [] then statements @ [statement] else statements)"

record splitter =
  sp_statements :: "string list"
  sp_start :: nat
  sp_prefix :: "string list"
  sp_is_trigger :: bool
  sp_body_started :: bool
  sp_depth :: nat

definition splitter_init :: splitter where
  "splitter_init = \<lparr>sp_statements = [], sp_start = 0, sp_prefix = [], sp_is_trigger = False,
     sp_body_started = False, sp_depth = 0\<rparr>"

definition split_word :: "string \<Rightarrow> splitter \<Rightarrow> splitter" where
  "split_word word st =
     (let st = (if length (sp_prefix st) < 3
                then st\<lparr>sp_prefix := sp_prefix st @ [word],
                        sp_is_trigger := is_create_trigger_prefix (sp_prefix st @ [word])\<rparr>
                else st)
      in if \<not> sp_is_trigger st then st
         else if \<not> sp_body_started st \<and> eq_ignore_ascii_case word ''BEGIN''
           then st\<lparr>sp_body_started := True, sp_depth := 1\<rparr>
         else if sp_body_started st \<and> (eq_ignore_ascii_case word ''BEGIN'' \<or> eq_ignore_ascii_case word ''CASE'')
           then st\<lparr>sp_depth := sp_depth st + 1\<rparr>
         else if sp_body_started st \<and> eq_ignore_ascii_case word ''END''
           then st\<lparr>sp_depth := sp_depth st - 1\<rparr>
         else st)"

definition in_trigger_body :: "splitter \<Rightarrow> bool" where
  "in_trigger_body st \<longleftrightarrow> sp_is_trigger st \<and> sp_body_started st \<and> sp_depth st > 0"

definition split_lexeme :: "string \<Rightarrow> SqlLexeme \<Rightarrow> splitter \<Rightarrow> splitter" where
  "split_lexeme sql lexeme st = (case lexeme of
     Word word \<Rightarrow> split_word word st
   | Semicolon position \<Rightarrow>
       if in_trigger_body st then st
       else \<lparr>sp_statements = push_statement sql (sp_start st) position (sp_statements st), sp_start = position + 1,
             sp_prefix = [], sp_is_trigger = False, sp_body_started = False, sp_depth = 0\<rparr>
   | Number _ \<Rightarrow> st
   | Symbol _ \<Rightarrow> st)"

definition complete_sql_statements :: "string \<Rightarrow> string list" where
  "complete_sql_statements sql =
     (let st = fold (split_lexeme sql) (lex_sql sql) splitter_init
      in push_statement sql (sp_start st) (length sql) (sp_statements st))"

section \<open>Guard\<close>

datatype D1Error =
    TransactionUnsupported
  | AttachUnsupported
  | TemporaryUnsupported
  | VirtualModuleUnsupported
  | PragmaNameRequired
  | PragmaUnsupported string
  | OptimizeUnsupported
  | StatementTooLarge nat nat
  | ItemTooLarge string nat nat

definition SUPPORTED_PRAGMAS :: "string list" where
  "SUPPORTED_PRAGMAS = [''case_sensitive_like'', ''defer_foreign_keys'', ''foreign_key_check'', ''foreign_key_list'',
     ''foreign_keys'', ''ignore_check_constraints'', ''index_info'', ''index_list'', ''index_xinfo'',
     ''legacy_alter_table'', ''optimize'', ''quick_check'', ''recursive_triggers'', ''reverse_unordered_selects'',
     ''table_info'', ''table_list'', ''table_xinfo'']"

fun lexeme_words :: "SqlLexeme list \<Rightarrow> string list" where
  "lexeme_words [] = []"
| "lexeme_words (Word w # ls) = w # lexeme_words ls"
| "lexeme_words (_ # ls) = lexeme_words ls"

fun contains_negative_one :: "SqlLexeme list \<Rightarrow> bool" where
  "contains_negative_one (a # b # ls) \<longleftrightarrow>
     a = Symbol (CHR ''-'') \<and> b = Number ''1'' \<or> contains_negative_one (b # ls)"
| "contains_negative_one _ \<longleftrightarrow> False"

definition validate_pragma :: "string list \<Rightarrow> SqlLexeme list \<Rightarrow> D1Error + unit" where
  "validate_pragma words lexemes =
     (let pragma = (if word_is 1 ''main'' words \<or> word_is 1 ''temp'' words then nth_word 2 words else nth_word 1 words)
      in case pragma of
           None \<Rightarrow> Inl PragmaNameRequired
         | Some pragma \<Rightarrow>
             if \<not> list_ex (eq_ignore_ascii_case pragma) SUPPORTED_PRAGMAS then Inl (PragmaUnsupported pragma)
             else if eq_ignore_ascii_case pragma ''optimize'' \<and> contains_negative_one lexemes then Inl OptimizeUnsupported
             else Inr ())"

fun after_using :: "string list \<Rightarrow> string option" where
  "after_using [] = None"
| "after_using (w # ws) = (if eq_ignore_ascii_case w ''USING'' then nth_word 0 ws else after_using ws)"

definition validate_create_statement :: "string list \<Rightarrow> D1Error + unit" where
  "validate_create_statement words =
     (if word_is 1 ''TEMP'' words \<or> word_is 1 ''TEMPORARY'' words then Inl TemporaryUnsupported
      else if \<not> (word_is 1 ''VIRTUAL'' words \<and> word_is 2 ''TABLE'' words) then Inr ()
      else if is_some_and (\<lambda>m. eq_ignore_ascii_case m ''fts5'' \<or> eq_ignore_ascii_case m ''fts5vocab'') (after_using words)
        then Inr ()
      else Inl VirtualModuleUnsupported)"

definition TRANSACTION_KEYWORDS :: "string list" where
  "TRANSACTION_KEYWORDS = [''BEGIN'', ''COMMIT'', ''END'', ''ROLLBACK'', ''SAVEPOINT'', ''RELEASE'', ''START'']"

definition validate_lexemes :: "SqlLexeme list \<Rightarrow> D1Error + unit" where
  "validate_lexemes lexemes =
     (let words = lexeme_words lexemes
      in case words of
           [] \<Rightarrow> Inr ()
         | first # _ \<Rightarrow>
             if list_ex (eq_ignore_ascii_case first) TRANSACTION_KEYWORDS then Inl TransactionUnsupported
             else if eq_ignore_ascii_case first ''ATTACH'' \<or> eq_ignore_ascii_case first ''DETACH'' then Inl AttachUnsupported
             else (case (if eq_ignore_ascii_case first ''CREATE'' then validate_create_statement words else Inr ()) of
                 Inl e \<Rightarrow> Inl e
               | Inr _ \<Rightarrow> if eq_ignore_ascii_case first ''PRAGMA'' then validate_pragma words lexemes else Inr ()))"

definition validate_statement :: "string \<Rightarrow> D1Error + unit" where
  "validate_statement statement = validate_lexemes (lex_sql statement)"

fun first_error :: "('a \<Rightarrow> 'e + unit) \<Rightarrow> 'a list \<Rightarrow> 'e + unit" where
  "first_error f [] = Inr ()"
| "first_error f (x # xs) = (case f x of Inl e \<Rightarrow> Inl e | Inr _ \<Rightarrow> first_error f xs)"

definition validate_sql :: "string \<Rightarrow> D1Error + unit" where
  "validate_sql sql = first_error validate_statement (complete_sql_statements sql)"

section \<open>Limits\<close>

definition MAX_SQL_STATEMENT_BYTES :: nat where
  "MAX_SQL_STATEMENT_BYTES = 100000"

definition validate_statement_sizes :: "string \<Rightarrow> D1Error + unit" where
  "validate_statement_sizes sql =
     first_error (\<lambda>(index, statement).
        if length statement > MAX_SQL_STATEMENT_BYTES then Inl (StatementTooLarge (index + 1) (length statement)) else Inr ())
       (List.enumerate 0 (complete_sql_statements sql))"

record SqlBatch =
  batch_sql :: string
  batch_item_count :: nat

text \<open>The inner loop of a batch: one more item at a time while the statement stays within the limit.\<close>

function extend_batch :: "nat \<Rightarrow> nat \<Rightarrow> (nat \<Rightarrow> nat \<Rightarrow> string) \<Rightarrow> nat \<Rightarrow> nat \<Rightarrow> string \<Rightarrow> nat \<times> string" where
  "extend_batch item_count max_items render start end_pos accepted =
     (if end_pos < item_count \<and> end_pos - start < max_items
      then (let candidate = render start (end_pos + 1)
            in if length candidate > MAX_SQL_STATEMENT_BYTES then (end_pos, accepted)
               else extend_batch item_count max_items render start (end_pos + 1) candidate)
      else (end_pos, accepted))"
  by pat_completeness auto

termination
  by (relation "measure (\<lambda>(item_count, _, _, _, end_pos, _). item_count - end_pos)") auto

declare extend_batch.simps [simp del]

lemma extend_batch_end: "end_pos \<le> fst (extend_batch n m render start end_pos acc)"
proof (induction n m render start end_pos acc rule: extend_batch.induct)
  case (1 n m render start end_pos acc)
  then show ?case by (subst extend_batch.simps) (force simp: Let_def)
qed

function batches_from :: "nat \<Rightarrow> nat \<Rightarrow> string \<Rightarrow> (nat \<Rightarrow> nat \<Rightarrow> string) \<Rightarrow> nat \<Rightarrow> D1Error + SqlBatch list" where
  "batches_from item_count max_items item_label render start =
     (if start < item_count
      then (let first = render start (start + 1)
            in if length first > MAX_SQL_STATEMENT_BYTES then Inl (ItemTooLarge item_label (start + 1) (length first))
               else (case extend_batch item_count max_items render start (start + 1) first of (end_pos, accepted) \<Rightarrow>
                  map_sum id ((@) (if trim accepted \<noteq> [] then [\<lparr>batch_sql = accepted, batch_item_count = end_pos - start\<rparr>] else []))
                    (batches_from item_count max_items item_label render end_pos)))
      else Inr [])"
  by pat_completeness auto

termination
proof (relation "measure (\<lambda>(item_count, _, _, _, start). item_count - start)", goal_cases)
  case (2 item_count max_items item_label render start p end_pos acc)
  then show ?case
    using extend_batch_end [of "start + 1" item_count max_items render start "render start (start + 1)"]
    by (cases "extend_batch item_count max_items render start (start + 1) (render start (start + 1))") auto
qed simp

declare batches_from.simps [simp del]

definition build_sql_batches :: "nat \<Rightarrow> nat \<Rightarrow> string \<Rightarrow> (nat \<Rightarrow> nat \<Rightarrow> string) \<Rightarrow> D1Error + SqlBatch list" where
  "build_sql_batches item_count max_items item_label render =
     batches_from item_count (max max_items 1) item_label render 0"

section \<open>Trigger declarations\<close>

record TriggerMetadata =
  timing :: string
  event :: string

definition position_of :: "('a \<Rightarrow> bool) \<Rightarrow> 'a list \<Rightarrow> nat option" where
  "position_of p xs = (let n = length (takeWhile (\<lambda>x. \<not> p x) xs) in if n < length xs then Some n else None)"

fun adjacent :: "('a \<Rightarrow> 'a \<Rightarrow> bool) \<Rightarrow> 'a list \<Rightarrow> bool" where
  "adjacent p (a # b # xs) \<longleftrightarrow> p a b \<or> adjacent p (b # xs)"
| "adjacent p _ \<longleftrightarrow> False"

fun declared_event :: "string list \<Rightarrow> string" where
  "declared_event [] = ''UNKNOWN''"
| "declared_event (w # ws) =
     (case find (eq_ignore_ascii_case w) [''DELETE'', ''INSERT'', ''UPDATE''] of Some e \<Rightarrow> e | None \<Rightarrow> declared_event ws)"

definition metadata_from_sql :: "string \<Rightarrow> TriggerMetadata" where
  "metadata_from_sql sql =
     (let words = lexeme_words (lex_sql sql);
          declaration_start = (case position_of (\<lambda>w. eq_ignore_ascii_case w ''TRIGGER'') words of None \<Rightarrow> 0 | Some i \<Rightarrow> i + 1);
          tail_words = drop declaration_start words;
          declaration = (case position_of (\<lambda>w. eq_ignore_ascii_case w ''ON'' \<or> eq_ignore_ascii_case w ''BEGIN'') tail_words of
              None \<Rightarrow> tail_words | Some i \<Rightarrow> take i tail_words)
      in \<lparr>timing =
            (if adjacent (\<lambda>a b. eq_ignore_ascii_case a ''INSTEAD'' \<and> eq_ignore_ascii_case b ''OF'') declaration then ''INSTEAD OF''
             else if list_ex (\<lambda>w. eq_ignore_ascii_case w ''AFTER'') declaration then ''AFTER'' else ''BEFORE''),
          event = declared_event declaration\<rparr>)"

end
