(* ===== verification/D1_Sql_Laws.thy ===== *)
theory D1_Sql_Laws
  imports D1_Sql
begin

text \<open>
  Laws of the SQL front end of Cloudflare D1: the splitter cuts the text exactly at semicolons that the
  lexer sees, what the guard lexes again is what the splitter saw, and batches are the longest ones that
  fit.
\<close>

section \<open>Lexing\<close>

fun shift_lexeme :: "nat \<Rightarrow> SqlLexeme \<Rightarrow> SqlLexeme" where
  "shift_lexeme n (Semicolon p) = Semicolon (p + n)"
| "shift_lexeme n l = l"

fun erase :: "SqlLexeme \<Rightarrow> SqlLexeme" where
  "erase (Semicolon p) = Semicolon 0"
| "erase l = l"

definition tokens :: "string \<Rightarrow> SqlLexeme list" where
  "tokens s = map erase (lex_sql s)"

lemma lex_step_shift: "lex_step (i + n) c s = (map_option (shift_lexeme n) (fst (lex_step i c s)), snd (lex_step i c s))"
  by (simp add: lex_step_def)

lemma erase_shift [simp]: "erase (shift_lexeme n l) = erase l"
  by (cases l) simp_all

lemma lex_from_shift: "lex_from (i + n) s = map (shift_lexeme n) (lex_from i s)"
proof (induction i s rule: lex_from.induct)
  case (2 i c s)
  obtain l rest where "lex_step i c s = (l, rest)" by (cases "lex_step i c s")
  with 2 [OF this [symmetric]] show ?case
    by (simp add: lex_step_shift [of i n] add.assoc add.commute add.left_commute split: option.split)
qed simp

lemma erase_lex_from: "map erase (lex_from i s) = tokens s"
  using lex_from_shift [of 0 i s] by (simp add: tokens_def lex_sql_def)

lemma lex_step_semicolon: "fst (lex_step i c s) = Some (Semicolon p) \<Longrightarrow> p = i \<and> c = CHR '';'' \<and> snd (lex_step i c s) = s"
  by (auto simp: lex_step_def quote_byte_def split: if_splits)

lemma semicolon_position: "Semicolon p \<in> set (lex_from i s) \<Longrightarrow> i \<le> p \<and> p < i + length s"
proof (induction i s rule: lex_from.induct)
  case (2 i c s)
  obtain l rest where l: "lex_step i c s = (l, rest)" by (cases "lex_step i c s")
  have "length rest \<le> length s" using lex_step_length [of i c s] l by simp
  moreover have "l = Some (Semicolon p) \<Longrightarrow> p = i" using lex_step_semicolon [of i c s p] l by simp
  ultimately show ?case using 2(1) [OF l [symmetric]] 2(2) l by (auto split: option.splits)
qed simp

lemma skip_quoted_cut:
  "q \<noteq> CHR '';'' \<Longrightarrow> length t < length (skip_quoted q (s @ CHR '';'' # t)) \<Longrightarrow>
     skip_quoted q (s @ CHR '';'' # t) = skip_quoted q s @ CHR '';'' # t"
proof (induction q s rule: skip_quoted.induct)
  case (1 q)
  then show ?case using skip_quoted_length [of q t] by (cases t) auto
next
  case (2 q a)
  then show ?case using skip_quoted_length [of q t] by (cases t) (auto split: if_splits)
next
  case (3 q a b s)
  then show ?case by (auto split: if_splits)
qed

lemma skip_block_cut:
  "length t < length (skip_block (s @ CHR '';'' # t)) \<Longrightarrow> skip_block (s @ CHR '';'' # t) = skip_block s @ CHR '';'' # t"
proof (induction s rule: skip_block.induct)
  case (1 a b s)
  then show ?case by (auto split: if_splits)
next
  case "2_1"
  then show ?case using skip_block_length [of t] by (cases t) auto
next
  case "2_2"
  then show ?case using skip_block_length [of t] by (cases t) (auto split: if_splits)
qed

lemma skip_line_cut:
  "length t < length (skip_line (s @ CHR '';'' # t)) \<Longrightarrow> skip_line (s @ CHR '';'' # t) = skip_line s @ CHR '';'' # t"
proof (induction s)
  case Nil
  then show ?case using skip_line_length [of t] by (simp add: skip_line_def)
qed (auto simp: skip_line_def split: if_splits)

lemma takeWhile_cut: "\<not> p c \<Longrightarrow> takeWhile p (s @ c # t) = takeWhile p s"
  by (induction s) auto

lemma dropWhile_cut: "\<not> p c \<Longrightarrow> dropWhile p (s @ c # t) = dropWhile p s @ c # t"
  by (induction s) auto

lemma semicolon_bytes: "\<not> ascii_digit (CHR '';'')" "\<not> word_byte (CHR '';'')"
  by (simp_all add: ascii_digit_def word_byte_def ascii_alphabetic_def)

lemma lex_step_line: "lex_step i (CHR ''-'') (CHR ''-'' # s) = (None, skip_line s)"
  by (simp add: lex_step_def)

lemma lex_step_block: "lex_step i (CHR ''/'') (CHR ''*'' # s) = (None, skip_block s)"
  by (simp add: lex_step_def)

definition plain_step :: "nat \<Rightarrow> char \<Rightarrow> string \<Rightarrow> SqlLexeme option \<times> string" where
  "plain_step i c s =
     (if quote_byte c then (None, skip_quoted c s)
      else if c = CHR ''['' then (None, skip_quoted (CHR '']'') s)
      else if c = CHR '';'' then (Some (Semicolon i), s)
      else if ascii_digit c then (Some (Number (c # takeWhile ascii_digit s)), dropWhile ascii_digit s)
      else if word_start c then (Some (Word (c # takeWhile word_byte s)), dropWhile word_byte s)
      else if symbol_byte c then (Some (Symbol c), s)
      else (None, s))"

definition opens_comment :: "char \<Rightarrow> string \<Rightarrow> bool" where
  "opens_comment c s \<longleftrightarrow> c = CHR ''-'' \<and> take 1 s = ''-'' \<or> c = CHR ''/'' \<and> take 1 s = ''*''"

lemma lex_step_plain: "\<not> opens_comment c s \<Longrightarrow> lex_step i c s = plain_step i c s"
  unfolding lex_step_def plain_step_def opens_comment_def by (simp only: de_Morgan_disj if_False simp_thms)

lemma opens_comment_cases:
  assumes "opens_comment c s"
  obtains (line) s' where "c = CHR ''-''" "s = CHR ''-'' # s'" | (block) s' where "c = CHR ''/''" "s = CHR ''*'' # s'"
  using assms by (cases s) (auto simp: opens_comment_def)

lemma opens_comment_append: "x \<noteq> CHR ''-'' \<Longrightarrow> x \<noteq> CHR ''*'' \<Longrightarrow> opens_comment c (s @ x # t) \<longleftrightarrow> opens_comment c s"
  by (cases s) (auto simp: opens_comment_def)

lemma plain_step_cut:
  assumes "length t < length (snd (plain_step i c (s @ CHR '';'' # t)))"
  shows "plain_step i c (s @ CHR '';'' # t) = (fst (plain_step i c s), snd (plain_step i c s) @ CHR '';'' # t)"
proof -
  have "quote_byte c \<Longrightarrow> c \<noteq> CHR '';''" by (auto simp: quote_byte_def)
  then show ?thesis
    using assms skip_quoted_cut [of c t s] skip_quoted_cut [of "CHR '']''" t s]
    by (cases "quote_byte c"; cases "c = CHR ''[''") (simp_all add: plain_step_def semicolon_bytes takeWhile_cut dropWhile_cut)
qed

lemma lex_step_cut:
  assumes "length t < length (snd (lex_step i c (s @ CHR '';'' # t)))"
  shows "lex_step i c (s @ CHR '';'' # t) = (fst (lex_step i c s), snd (lex_step i c s) @ CHR '';'' # t)"
proof (cases "opens_comment c s")
  case True
  then show ?thesis
    by (cases rule: opens_comment_cases) (use assms skip_line_cut skip_block_cut in \<open>auto simp: lex_step_line lex_step_block\<close>)
next
  case False
  then show ?thesis
    using assms plain_step_cut [of t i c s] opens_comment_append [of "CHR '';''" c s t] by (simp add: lex_step_plain)
qed

lemma lex_cut:
  "Semicolon (i + length s) \<in> set (lex_from i (s @ CHR '';'' # t)) \<Longrightarrow>
     lex_from i (s @ CHR '';'' # t) = lex_from i s @ Semicolon (i + length s) # lex_from (i + length s + 1) t"
proof (induction i s rule: lex_from.induct)
  case (1 i)
  have "lex_step i (CHR '';'') t = (Some (Semicolon i), t)" by (simp add: lex_step_def quote_byte_def)
  then show ?case by simp
next
  case (2 i c s)
  obtain l rest where l: "lex_step i c (s @ CHR '';'' # t) = (l, rest)"
    by (cases "lex_step i c (s @ CHR '';'' # t)")
  show ?case
  proof (cases "length t < length rest")
    case True
    obtain l' r where "lex_step i c s = (l', r)" by (cases "lex_step i c s")
    then have r: "lex_step i c s = (l, r)" "rest = r @ CHR '';'' # t"
      using lex_step_cut [of t i c s] True l by simp_all
    define j where "j = i + (Suc (length s) - length r)"
    have "length r \<le> length s" using lex_step_length [of i c s] r by simp
    then have j: "i + (Suc (length (s @ CHR '';'' # t)) - length rest) = j" "j + length r = i + length (c # s)"
      by (simp_all add: r j_def)
    have "l \<noteq> Some (Semicolon (i + length (c # s)))" using lex_step_semicolon [of i c s] r by fastforce
    then have "Semicolon (j + length r) \<in> set (lex_from j (r @ CHR '';'' # t))"
      using 2(2) l j by (auto simp: r(2) split: option.splits)
    from 2(1) [OF r(1) [symmetric], folded j_def, OF this] show ?thesis
      using l j by (simp add: r j_def split: option.split)
  next
    case False
    have "Semicolon (i + length (c # s)) \<notin> set (lex_from (i + (Suc (length (s @ CHR '';'' # t)) - length rest)) rest)"
      using False semicolon_position by fastforce
    moreover have "l \<noteq> Some (Semicolon (i + length (c # s)))"
      using lex_step_semicolon [of i c "s @ CHR '';'' # t"] l by fastforce
    ultimately show ?thesis using 2(2) l by (auto split: option.splits)
  qed
qed

section \<open>White space\<close>

definition blank_byte :: "char \<Rightarrow> bool" where
  "blank_byte b \<longleftrightarrow> ws1 b \<or> 128 \<le> byte b"

lemma blank_not:
  assumes "blank_byte b"
  shows "\<not> ascii_digit b" "\<not> word_byte b" "\<not> word_start b" "\<not> symbol_byte b" "\<not> quote_byte b"
    "b \<noteq> CHR '';''" "b \<noteq> CHR ''-''" "b \<noteq> CHR ''/''" "b \<noteq> CHR ''*''" "b \<noteq> CHR ''[''" "b \<noteq> CHR '']''"
  using assms
  by (auto simp: blank_byte_def ws1_def ascii_digit_def word_byte_def word_start_def ascii_alphabetic_def symbol_byte_def quote_byte_def)

lemma tokens_blank_front: "blank_byte b \<Longrightarrow> tokens (b # s) = tokens s"
  using erase_lex_from [of 1 s] by (simp add: tokens_def lex_sql_def lex_step_def blank_not)

lemma skip_quoted_blank:
  "b \<noteq> q \<Longrightarrow> skip_quoted q (s @ [b]) = skip_quoted q s @ [b] \<or> skip_quoted q (s @ [b]) = [] \<and> skip_quoted q s = []"
  by (induction q s rule: skip_quoted.induct) auto

lemma skip_block_blank:
  "b \<noteq> CHR ''/'' \<Longrightarrow> skip_block (s @ [b]) = skip_block s @ [b] \<or> skip_block (s @ [b]) = [] \<and> skip_block s = []"
  by (induction s rule: skip_block.induct) auto

lemma skip_line_blank: "skip_line (s @ [b]) = skip_line s @ [b] \<or> skip_line (s @ [b]) = [] \<and> skip_line s = []"
  by (induction s) (auto simp: skip_line_def)

definition blank_after :: "char \<Rightarrow> SqlLexeme option \<times> string \<Rightarrow> SqlLexeme option \<times> string \<Rightarrow> bool" where
  "blank_after b x y \<longleftrightarrow> fst x = fst y \<and> (snd x = snd y @ [b] \<or> snd x = [] \<and> snd y = [])"

lemma plain_step_blank:
  assumes "blank_byte b"
  shows "blank_after b (plain_step i c (s @ [b])) (plain_step i c s)"
proof -
  have "quote_byte c \<Longrightarrow> b \<noteq> c" using blank_not(5) [OF assms] by auto
  then show ?thesis
    using skip_quoted_blank [of b c s] skip_quoted_blank [OF blank_not(11) [OF assms], of s]
    by (simp add: plain_step_def blank_after_def blank_not [OF assms] takeWhile_cut dropWhile_cut)
qed

lemma lex_step_blank:
  assumes "blank_byte b"
  shows "blank_after b (lex_step i c (s @ [b])) (lex_step i c s)"
proof (cases "opens_comment c s")
  case True
  then show ?thesis
    by (cases rule: opens_comment_cases)
      (use skip_line_blank skip_block_blank [OF blank_not(8) [OF assms]] in \<open>auto simp: lex_step_line lex_step_block blank_after_def\<close>)
next
  case False
  then show ?thesis
    using plain_step_blank [OF assms] opens_comment_append [of b c s "[]"] blank_not [OF assms] by (simp add: lex_step_plain)
qed

lemma lex_from_blank_end: "blank_byte b \<Longrightarrow> lex_from i (s @ [b]) = lex_from i s"
proof (induction i s rule: lex_from.induct)
  case (1 i)
  then show ?case by (simp add: lex_step_def blank_not)
next
  case (2 i c s)
  obtain l r where l: "lex_step i c s = (l, r)" by (cases "lex_step i c s")
  obtain l' r' where l': "lex_step i c (s @ [b]) = (l', r')" by (cases "lex_step i c (s @ [b])")
  have "length r \<le> length s" using lex_step_length [of i c s] l by simp
  moreover have "l' = l" "r' = r @ [b] \<or> r' = [] \<and> r = []"
    using lex_step_blank [OF 2(2), of i c s] by (simp_all add: l l' blank_after_def)
  ultimately show ?case using 2(1) [OF l [symmetric] 2(2)] l l' by (auto simp: Suc_diff_le)
qed

lemma tokens_blanks:
  "list_all blank_byte p \<Longrightarrow> tokens (p @ s) = tokens s"
  "list_all blank_byte q \<Longrightarrow> tokens (s @ q) = tokens s"
proof -
  show "list_all blank_byte p \<Longrightarrow> tokens (p @ s) = tokens s" by (induction p) (simp_all add: tokens_blank_front)
  show "list_all blank_byte q \<Longrightarrow> tokens (s @ q) = tokens s"
  proof (induction q rule: rev_induct)
    case (snoc b q)
    then show ?case using lex_from_blank_end [of b 0 "s @ q"] by (simp add: tokens_def lex_sql_def)
  qed simp
qed

lemma drop_ws_blank:
  assumes "\<And>a. w1 a \<Longrightarrow> blank_byte a" "\<And>a b. w2 a b \<Longrightarrow> blank_byte a \<and> blank_byte b"
    "\<And>a b c. w3 a b c \<Longrightarrow> blank_byte a \<and> blank_byte b \<and> blank_byte c"
  shows "\<exists>p. s = p @ drop_ws w1 w2 w3 s \<and> list_all blank_byte p"
  using assms
proof (induction w1 w2 w3 s rule: drop_ws.induct)
  case (2 w1 w2 w3 a)
  then show ?case by (auto intro: exI [of _ "[a]"])
next
  case (3 w1 w2 w3 a b)
  then show ?case by (auto intro: exI [of _ "[a]"] exI [of _ "[a, b]"])
next
  case (4 w1 w2 w3 a b c s)
  consider "w1 a" | "\<not> w1 a" "w2 a b" | "\<not> w1 a" "\<not> w2 a b" "w3 a b c" | "\<not> w1 a" "\<not> w2 a b" "\<not> w3 a b c" by blast
  then show ?case
  proof cases
    case 1
    then obtain p where "b # c # s = p @ drop_ws w1 w2 w3 (b # c # s)" "list_all blank_byte p"
      using 4(1) [OF _ 4(4-6)] by blast
    then show ?thesis using 1 4(4) by (auto intro: exI [of _ "a # p"])
  next
    case 2
    then obtain p where "c # s = p @ drop_ws w1 w2 w3 (c # s)" "list_all blank_byte p"
      using 4(2) [OF _ _ 4(4-6)] by blast
    then show ?thesis using 2 4(5) by (auto intro: exI [of _ "a # b # p"])
  next
    case 3
    then obtain p where "s = p @ drop_ws w1 w2 w3 s" "list_all blank_byte p"
      using 4(3) [OF _ _ _ 4(4-6)] by blast
    then show ?thesis using 3 4(6) by (auto intro: exI [of _ "a # b # c # p"])
  qed auto
qed simp

lemma ws_blank: "ws1 a \<Longrightarrow> blank_byte a" "ws2 a b \<Longrightarrow> blank_byte a \<and> blank_byte b" "ws3 a b c \<Longrightarrow> blank_byte a \<and> blank_byte b \<and> blank_byte c"
  by (auto simp: blank_byte_def ws2_def ws3_def)

lemma tokens_trim: "tokens (trim s) = tokens s"
proof -
  obtain p where p: "s = p @ trim_start s" "list_all blank_byte p"
    unfolding trim_start_def using drop_ws_blank [of ws1 ws2 ws3 s] ws_blank by blast
  obtain q where "rev (trim_start s) = q @ rev (trim s)" "list_all blank_byte q"
    unfolding trim_def trim_end_def rev_rev_ident
    using drop_ws_blank [of ws1 "\<lambda>a b. ws2 b a" "\<lambda>a b c. ws3 c b a" "rev (trim_start s)"] ws_blank by blast
  then have "trim_start s = trim s @ rev q" "list_all blank_byte (rev q)" by (metis rev_append rev_rev_ident, simp)
  then show ?thesis using tokens_blanks p by metis
qed

section \<open>Splitting\<close>

fun joined_by :: "'a \<Rightarrow> 'a list list \<Rightarrow> 'a list" where
  "joined_by x [] = []"
| "joined_by x [s] = s"
| "joined_by x (s # t # ss) = s @ x # joined_by x (t # ss)"

lemma separated_snoc: "joined_by x (ss @ [s]) = concat (map (\<lambda>s. s @ [x]) ss) @ s"
proof (induction ss)
  case (Cons t ss)
  then show ?case by (cases ss) auto
qed simp

lemma create_trigger_append: "is_create_trigger_prefix ws \<Longrightarrow> is_create_trigger_prefix (ws @ vs)"
  by (auto simp: is_create_trigger_prefix_def word_is_def is_some_and_def nth_word_def nth_append split: if_splits)

lemma lexeme_words_append [simp]: "lexeme_words (xs @ ys) = lexeme_words xs @ lexeme_words ys"
  by (induction xs rule: lexeme_words.induct) auto

lemma lexeme_words_erase [simp]: "lexeme_words (map erase ls) = lexeme_words ls"
  by (induction ls rule: lexeme_words.induct) auto

text \<open>Only a statement that creates a trigger keeps semicolons inside.\<close>

definition semicolons_ok :: "SqlLexeme list \<Rightarrow> bool" where
  "semicolons_ok ls \<longleftrightarrow>
     list_ex (\<lambda>l. erase l = Semicolon 0) ls \<longrightarrow> is_create_trigger_prefix (take 3 (lexeme_words ls))"

text \<open>
  The state after some lexemes: the segments already cut off, and of the segment that is open the
  lexemes seen (\<open>seen\<close>) and to come (\<open>todo\<close>).
\<close>

definition split_inv :: "string \<Rightarrow> splitter \<Rightarrow> string list \<Rightarrow> SqlLexeme list \<Rightarrow> SqlLexeme list \<Rightarrow> bool" where
  "split_inv sql st segs seen todo \<longleftrightarrow>
     concat (map (\<lambda>s. s @ '';'') segs) @ drop (sp_start st) sql = sql \<and> sp_start st \<le> length sql \<and>
     sp_statements st = filter (\<lambda>s. s \<noteq> []) (map trim segs) \<and>
     lex_from (sp_start st) (drop (sp_start st) sql) = seen @ todo \<and>
     sp_prefix st = take 3 (lexeme_words seen) \<and> sp_is_trigger st = is_create_trigger_prefix (sp_prefix st) \<and>
     semicolons_ok seen \<and> list_all (\<lambda>s. semicolons_ok (tokens s)) segs \<and>
     tokens sql = concat (map (\<lambda>s. tokens s @ [Semicolon 0]) segs) @ map erase (seen @ todo)"

lemma semicolons_ok_word: "semicolons_ok seen \<Longrightarrow> semicolons_ok (seen @ [Word w])"
  by (auto simp: semicolons_ok_def create_trigger_append)

lemma semicolons_ok_erase [simp]: "semicolons_ok (map erase ls) = semicolons_ok ls"
proof -
  have "erase (erase l) = erase l" for l by (cases l) simp_all
  then show ?thesis by (simp add: semicolons_ok_def list_ex_iff)
qed

lemma split_word_fields:
  "sp_start (split_word w st) = sp_start st" "sp_statements (split_word w st) = sp_statements st"
  "sp_prefix (split_word w st) = (if length (sp_prefix st) < 3 then sp_prefix st @ [w] else sp_prefix st)"
  "sp_is_trigger (split_word w st) =
     (if length (sp_prefix st) < 3 then is_create_trigger_prefix (sp_prefix st @ [w]) else sp_is_trigger st)"
  by (simp_all add: split_word_def Let_def)

lemma split_inv_word:
  assumes "split_inv sql st segs seen (Word w # todo)"
  shows "split_inv sql (split_word w st) segs (seen @ [Word w]) todo"
proof -
  have p: "sp_prefix st = take 3 (lexeme_words seen)" using assms by (simp add: split_inv_def)
  have "sp_prefix (split_word w st) = take 3 (lexeme_words (seen @ [Word w]))"
    by (simp add: split_word_fields p min_def)
  moreover have "sp_is_trigger (split_word w st) = is_create_trigger_prefix (sp_prefix (split_word w st))"
    using assms by (simp add: split_word_fields split_inv_def)
  ultimately show ?thesis
    using assms semicolons_ok_word by (simp add: split_inv_def split_word_fields(1,2))
qed

lemma split_inv_inside:
  assumes "split_inv sql st segs seen (l # todo)" "lexeme_words [l] = []" "erase l \<noteq> Semicolon 0 \<or> sp_is_trigger st"
  shows "split_inv sql st segs (seen @ [l]) todo"
  using assms by (auto simp: split_inv_def semicolons_ok_def)

lemma skip_suffix: "\<exists>u. s = u @ skip_line s" "\<exists>u. s = u @ skip_block s" "\<exists>u. s = u @ skip_quoted q s"
proof -
  show "\<exists>u. s = u @ skip_line s" unfolding skip_line_def by (metis takeWhile_dropWhile_id)
  show "\<exists>u. s = u @ skip_block s"
    by (induction s rule: skip_block.induct) (auto, metis append_Cons append_Nil, metis append_Cons)
  show "\<exists>u. s = u @ skip_quoted q s"
    by (induction q s rule: skip_quoted.induct) (auto, metis append_Cons append_Nil, metis append_Cons, metis append_Cons append_Nil)
qed

lemma dropWhile_suffix: "\<exists>u. s = u @ dropWhile p s"
  by (metis takeWhile_dropWhile_id)

lemma lex_step_suffix: "\<exists>u. c # s = u @ snd (lex_step i c s) \<and> u \<noteq> []"
proof -
  have "\<exists>u. s = u @ snd (lex_step i c s)"
  proof (cases "opens_comment c s")
    case True
    then show ?thesis
      by (cases rule: opens_comment_cases) (simp_all add: lex_step_line lex_step_block, (metis append_Cons skip_suffix)+)
  next
    case False
    then show ?thesis
      using skip_suffix(3) [of s c] skip_suffix(3) [of s "CHR '']''"] dropWhile_suffix [of s ascii_digit]
        dropWhile_suffix [of s word_byte]
      by (auto simp: lex_step_plain plain_step_def)
  qed
  then show ?thesis by (metis append_Cons list.distinct(1))
qed

lemma semicolon_byte: "Semicolon p \<in> set (lex_from i s) \<Longrightarrow> s ! (p - i) = CHR '';''"
proof (induction i s rule: lex_from.induct)
  case (2 i c s)
  obtain l rest where l: "lex_step i c s = (l, rest)" by (cases "lex_step i c s")
  obtain u where u: "c # s = u @ rest" "u \<noteq> []" using lex_step_suffix [of c s i] l by auto
  define j where "j = i + (Suc (length s) - length rest)"
  have j: "j = i + length u" using arg_cong [OF u(1), of length] by (simp add: j_def)
  show ?case
  proof (cases "l = Some (Semicolon p)")
    case True
    then show ?thesis using lex_step_semicolon [of i c s p] l by simp
  next
    case False
    then have m: "Semicolon p \<in> set (lex_from j rest)" using 2(2) l by (auto simp: j_def split: option.splits)
    from 2(1) [OF l [symmetric], folded j_def, OF m] semicolon_position [OF m] u show ?thesis
      by (auto simp: j nth_append)
  qed
qed simp

lemma split_inv_cut:
  assumes inv: "split_inv sql st segs seen (Semicolon p # todo)"
  shows "\<exists>s. take (p - sp_start st) (drop (sp_start st) sql) = s \<and> split_inv sql
     \<lparr>sp_statements = push_statement sql (sp_start st) p (sp_statements st), sp_start = p + 1,
      sp_prefix = [], sp_is_trigger = False, sp_body_started = False, sp_depth = 0\<rparr> (segs @ [s]) [] todo"
proof -
  let ?d = "drop (sp_start st) sql"
  define k where "k = p - sp_start st"
  have mem: "Semicolon p \<in> set (lex_from (sp_start st) ?d)" using inv by (simp add: split_inv_def)
  then have k: "p = sp_start st + k" "k < length ?d" "?d ! k = CHR '';''"
    using semicolon_position [OF mem] semicolon_byte [OF mem] by (auto simp: k_def)
  define s t where "s = take k ?d" and "t = drop (Suc k) ?d"
  have d: "?d = s @ CHR '';'' # t" "length s = k" using k(2,3) id_take_nth_drop [of k ?d] by (simp_all add: s_def t_def)
  have cut: "lex_from (sp_start st) ?d = lex_from (sp_start st) s @ Semicolon p # lex_from (p + 1) t"
    using lex_cut [of "sp_start st" s t] mem d k(1) by simp
  have "Semicolon p \<notin> set (lex_from (sp_start st) s)" "Semicolon p \<notin> set (lex_from (p + 1) t)"
    using semicolon_position k(1) d(2) by fastforce+
  then have parts: "seen = lex_from (sp_start st) s" "todo = lex_from (p + 1) t"
    using inv cut by (simp_all add: split_inv_def append_Cons_eq_iff)
  have "drop (p + 1) sql = t" "p + 1 \<le> length sql" using k by (simp_all add: t_def add.commute)
  then show ?thesis
    using inv d k(1) parts erase_lex_from [of "sp_start st" s]
    by (intro exI [of _ s])
       (simp add: split_inv_def push_statement_def Let_def semicolons_ok_def [of "[]"] is_create_trigger_prefix_def
         word_is_def nth_word_def is_some_and_def semicolons_ok_erase [of "lex_from (sp_start st) s", symmetric]
         del: semicolons_ok_erase)
qed

lemma split_inv_step: "split_inv sql st segs seen (l # todo) \<Longrightarrow> \<exists>segs' seen'. split_inv sql (split_lexeme sql l st) segs' seen' todo"
proof (cases l)
  case (Semicolon p)
  assume inv: "split_inv sql st segs seen (l # todo)"
  show ?thesis
  proof (cases "in_trigger_body st")
    case True
    then show ?thesis
      using split_inv_inside [OF inv] Semicolon by (auto simp: split_lexeme_def in_trigger_body_def)
  next
    case False
    then show ?thesis using split_inv_cut [of sql st segs seen p todo] inv Semicolon by (auto simp: split_lexeme_def)
  qed
next
  case (Word w)
  assume "split_inv sql st segs seen (l # todo)"
  then show ?thesis using split_inv_word [of sql st segs seen w todo] Word by (auto simp: split_lexeme_def)
qed (use split_inv_inside [of sql st segs seen l todo] in \<open>auto simp: split_lexeme_def\<close>)

lemma split_inv_fold:
  "split_inv sql st segs seen todo \<Longrightarrow> \<exists>segs' seen'. split_inv sql (fold (split_lexeme sql) todo st) segs' seen' []"
proof (induction todo arbitrary: st segs seen)
  case (Cons l todo)
  obtain segs' seen' where "split_inv sql (split_lexeme sql l st) segs' seen' todo" using split_inv_step [OF Cons.prems] by blast
  from Cons.IH [OF this] show ?case by simp
qed auto

lemma split_inv_init: "split_inv sql splitter_init [] [] (lex_sql sql)"
  by (simp add: split_inv_def splitter_init_def lex_sql_def tokens_def semicolons_ok_def is_create_trigger_prefix_def
      word_is_def nth_word_def is_some_and_def)

lemma statements_of_segments:
  obtains segs where "joined_by (CHR '';'') segs = sql" "complete_sql_statements sql = filter (\<lambda>s. s \<noteq> []) (map trim segs)"
    "joined_by (Semicolon 0) (map (\<lambda>s. tokens (trim s)) segs) = tokens sql"
    "list_all (\<lambda>s. semicolons_ok (tokens (trim s))) segs"
proof -
  define st where "st = fold (split_lexeme sql) (lex_sql sql) splitter_init"
  obtain segs seen where inv: "split_inv sql st segs seen []"
    using split_inv_fold [OF split_inv_init] unfolding st_def by blast
  let ?d = "drop (sp_start st) sql"
  have "tokens ?d = map erase seen" using inv erase_lex_from [of "sp_start st" ?d] by (simp add: split_inv_def)
  moreover have "complete_sql_statements sql = filter (\<lambda>s. s \<noteq> []) (map trim (segs @ [?d]))"
    using inv by (simp add: complete_sql_statements_def st_def [symmetric] push_statement_def split_inv_def)
  ultimately show thesis
    using inv by (intro that [of "segs @ [?d]"])
      (simp_all add: separated_snoc tokens_trim split_inv_def comp_def
        semicolons_ok_erase [of seen, symmetric] del: semicolons_ok_erase)
qed

section \<open>Batches\<close>

definition fits :: "string \<Rightarrow> bool" where
  "fits sql \<longleftrightarrow> length sql \<le> MAX_SQL_STATEMENT_BYTES"

text \<open>A range that holds at least one item and no more than allowed, fits, and could not be longer.\<close>

definition range_ok :: "nat \<Rightarrow> nat \<Rightarrow> (nat \<Rightarrow> nat \<Rightarrow> string) \<Rightarrow> nat \<times> nat \<Rightarrow> bool" where
  "range_ok n m render = (\<lambda>(a, b). a < b \<and> b - a \<le> m \<and> fits (render a b) \<and>
     (b < n \<and> b - a < m \<longrightarrow> \<not> fits (render a (b + 1))))"

fun consecutive :: "nat \<Rightarrow> nat \<Rightarrow> (nat \<times> nat) list \<Rightarrow> bool" where
  "consecutive a n [] \<longleftrightarrow> a = n"
| "consecutive a n ((s, e) # rs) \<longleftrightarrow> s = a \<and> consecutive e n rs"

definition batches_of :: "(nat \<Rightarrow> nat \<Rightarrow> string) \<Rightarrow> (nat \<times> nat) list \<Rightarrow> SqlBatch list" where
  "batches_of render rs =
     map (\<lambda>(a, b). \<lparr>batch_sql = render a b, batch_item_count = b - a\<rparr>) (filter (\<lambda>(a, b). trim (render a b) \<noteq> []) rs)"

lemma extend_batch_ok:
  assumes "a < b" "b \<le> n" "b - a \<le> m" "acc = render a b" "fits acc"
  shows "case extend_batch n m render a b acc of (e, sql) \<Rightarrow> sql = render a e \<and> range_ok n m render (a, e) \<and> e \<le> n"
  using assms
proof (induction n m render a b acc rule: extend_batch.induct)
  case (1 n m render a b acc)
  show ?case
  proof (cases "b < n \<and> b - a < m \<and> fits (render a (b + 1))")
    case True
    then have "case extend_batch n m render a (b + 1) (render a (b + 1)) of (e, sql) \<Rightarrow>
        sql = render a e \<and> range_ok n m render (a, e) \<and> e \<le> n"
      using 1 by (intro 1(1)) (auto simp: fits_def)
    then show ?thesis using True by (simp add: extend_batch.simps [of n m render a b acc] fits_def)
  next
    case False
    then have "extend_batch n m render a b acc = (b, acc)"
      by (subst extend_batch.simps) (auto simp: fits_def Let_def)
    then show ?thesis using False 1(2-6) by (auto simp: range_ok_def)
  qed
qed

definition batches_spec :: "nat \<Rightarrow> nat \<Rightarrow> string \<Rightarrow> (nat \<Rightarrow> nat \<Rightarrow> string) \<Rightarrow> nat \<Rightarrow> D1Error + SqlBatch list \<Rightarrow> bool" where
  "batches_spec n m label render a result = (case result of
     Inl e \<Rightarrow> \<exists>i<n. \<not> fits (render i (i + 1)) \<and> e = ItemTooLarge label (i + 1) (length (render i (i + 1)))
   | Inr bs \<Rightarrow> \<exists>rs. consecutive a n rs \<and> list_all (range_ok n m render) rs \<and> bs = batches_of render rs)"

lemma batches_from_spec: "a \<le> n \<Longrightarrow> 1 \<le> m \<Longrightarrow> batches_spec n m label render a (batches_from n m label render a)"
proof (induction n m label render a rule: batches_from.induct)
  case (1 n m label render a)
  note eq = batches_from.simps [of n m label render a]
  consider (stop) "\<not> a < n" | (error) "a < n" "\<not> fits (render a (a + 1))" | (batch) "a < n" "fits (render a (a + 1))" by blast
  then show ?case
  proof cases
    case stop
    then have "batches_from n m label render a = Inr []" "a = n" using eq 1(2) by simp_all
    then show ?thesis by (auto simp: batches_spec_def batches_of_def intro: exI [of _ "[]"])
  next
    case error
    then have "batches_from n m label render a = Inl (ItemTooLarge label (a + 1) (length (render a (a + 1))))"
      using eq by (simp add: fits_def)
    then show ?thesis using error by (auto simp: batches_spec_def)
  next
    case batch
    obtain e sql where e: "extend_batch n m render a (a + 1) (render a (a + 1)) = (e, sql)"
      by (cases "extend_batch n m render a (a + 1) (render a (a + 1))")
    then have r: "sql = render a e" "range_ok n m render (a, e)" "e \<le> n"
      using extend_batch_ok [of a "a + 1" n m "render a (a + 1)" render] batch 1(3) by auto
    have "batches_spec n m label render e (batches_from n m label render e)"
      using 1(1) [OF batch(1) refl _ e [symmetric] r(3) 1(3)] batch(2) by (simp add: fits_def)
    moreover have "batches_from n m label render a = map_sum id
        ((@) (if trim sql \<noteq> [] then [\<lparr>batch_sql = sql, batch_item_count = e - a\<rparr>] else [])) (batches_from n m label render e)"
      using batch e by (simp add: eq fits_def)
    ultimately show ?thesis
      using r by (cases "batches_from n m label render e")
        (auto simp: batches_spec_def batches_of_def intro!: exI [of _ "(a, e) # _"])
  qed
qed

section \<open>Properties\<close>

text \<open>
  C16: splitting SQL text for D1 loses nothing and hides nothing. The text is its segments put together
  again with semicolons, the statements are the segments trimmed, without the blank ones, what the
  lexer sees in the statements is, semicolons between them apart, what it sees in the whole text (so
  the guard, which lexes each statement again, judges what will run), and a semicolon is left inside a
  segment only when that segment creates a trigger.
\<close>

theorem statements_cut_at_semicolons:
  "\<exists>segs. joined_by (CHR '';'') segs = sql \<and>
     complete_sql_statements sql = filter (\<lambda>s. s \<noteq> []) (map trim segs) \<and>
     joined_by (Semicolon 0) (map (\<lambda>s. tokens (trim s)) segs) = tokens sql \<and>
     list_all (\<lambda>s. semicolons_ok (tokens (trim s))) segs"
  using statements_of_segments [of sql] by metis


end
