(* ===== verification/D1_Client.thy ===== *)
theory D1_Client
  imports D1_Sql_Laws Json_Values Tool_Approval
begin

text \<open>
  The Cloudflare D1 client, \<^verbatim>\<open>crates/dbx-drivers/src/db/cloudflare_d1/mod.rs\<close>: what it posts to the
  service, how it reads the answers, and the queries behind the schema browser.

  The service and the HTTP client are an argument: what comes back for a text that is posted, given
  everything posted before it. The log of posted texts is the state. \<^verbatim>\<open>serde_json::from_str\<close> on a body
  and \<^verbatim>\<open>Display\<close> of a JSON value are arguments too. Fields of the results that the code always fills
  with an empty value are left out, as are execution times.
\<close>

section \<open>Requests and answers\<close>

datatype http_reply = SendFailed string | BodyFailed nat string | Reply nat string

record D1Meta =
  changes :: "64 word option"

record D1RawResult =
  columns :: "string list"
  rows :: "json list list"

record D1ApiError =
  code :: "64 word option"
  message :: string

record D1StatementResult =
  st_success :: "bool option"
  results :: D1RawResult
  meta :: D1Meta

record D1ApiResponse =
  success :: "bool option"
  errors :: "D1ApiError list"
  result_list :: "D1StatementResult list"

datatype D1ClientError =
    Rejected D1Error
  | RequestFailed string
  | ReadFailed string
  | ParseFailed string string
  | ApiFailed nat string
  | NoStatementResults
  | NoResult
  | ObjectNotFound
  | ObjectUnsupported
  | FieldRequired string
  | FieldInvalid string

type_synonym service = "string list \<Rightarrow> string \<Rightarrow> http_reply"
type_synonym parser = "string \<Rightarrow> string + D1ApiResponse"

definition response_excerpt :: "string \<Rightarrow> string" where
  "response_excerpt body = chars_take 1000 body @ (if chars_count body > 1000 then [CHR 0xE2, CHR 0x80, CHR 0xA6] else [])"

definition join_text :: "string \<Rightarrow> string list \<Rightarrow> string" where
  "join_text sep ts = (case ts of [] \<Rightarrow> [] | t # ts \<Rightarrow> t @ concat (map (\<lambda>t. sep @ t) ts))"

definition format_d1_error :: "nat \<Rightarrow> D1ApiError list \<Rightarrow> string \<Rightarrow> D1ClientError" where
  "format_d1_error status errs body =
     (let details = join_text ''; '' (map (\<lambda>e. case code e of
            Some c \<Rightarrow> message e @ '' ('' @ show_nat (unat c) @ '')''
          | None \<Rightarrow> message e) errs)
      in ApiFailed status (if details = [] then response_excerpt body else details))"

definition send_raw :: "service \<Rightarrow> parser \<Rightarrow> string \<Rightarrow> string list \<Rightarrow> (D1ClientError + D1StatementResult list) \<times> string list" where
  "send_raw reply parse sql log =
     ((case reply log sql of
         SendFailed e \<Rightarrow> Inl (RequestFailed e)
       | BodyFailed _ e \<Rightarrow> Inl (ReadFailed e)
       | Reply status body \<Rightarrow> (case parse body of
           Inl e \<Rightarrow> Inl (ParseFailed e (response_excerpt body))
         | Inr parsed \<Rightarrow>
             if \<not> (200 \<le> status \<and> status < 300) \<or> success parsed = Some False then Inl (format_d1_error status (errors parsed) body)
             else if list_ex (\<lambda>r. st_success r = Some False) (result_list parsed) then Inl (format_d1_error status (errors parsed) body)
             else if result_list parsed = [] then Inl NoStatementResults
             else Inr (result_list parsed))),
      log @ [sql])"

definition query_inner :: "service \<Rightarrow> parser \<Rightarrow> string \<Rightarrow> string list \<Rightarrow> (D1ClientError + D1RawResult) \<times> string list" where
  "query_inner reply parse sql log =
     (case send_raw reply parse sql log of
        (Inl e, log) \<Rightarrow> (Inl e, log)
      | (Inr [], log) \<Rightarrow> (Inl NoResult, log)
      | (Inr (statement # _), log) \<Rightarrow> (Inr (results statement), log))"

section \<open>Queries\<close>

record QueryResult =
  qr_columns :: "string list"
  qr_rows :: "json list list"
  qr_affected_rows :: "64 word"
  qr_truncated :: bool

definition MAX_ROWS :: nat where
  "MAX_ROWS = 10000"

definition query_result :: "D1RawResult \<Rightarrow> 64 word \<Rightarrow> nat option \<Rightarrow> QueryResult" where
  "query_result r affected_rows max_rows =
     (let converted = map (map json_value_for_js) (rows r);
          row_limit = max (unwrap_or MAX_ROWS max_rows) 1;
          truncated = length converted > row_limit
      in \<lparr>qr_columns = columns r, qr_rows = (if truncated then take row_limit converted else converted),
          qr_affected_rows = affected_rows, qr_truncated = truncated\<rparr>)"

definition empty_query_result :: QueryResult where
  "empty_query_result = query_result \<lparr>columns = [], rows = []\<rparr> 0 None"

text \<open>The rows of the last statement are shown; the changes of all are added up, in 64 bits.\<close>

definition execute_query_with_max_rows ::
  "service \<Rightarrow> parser \<Rightarrow> string \<Rightarrow> nat option \<Rightarrow> string list \<Rightarrow> (D1ClientError + QueryResult) \<times> string list" where
  "execute_query_with_max_rows reply parse sql max_rows log =
     (let sql = trim sql
      in if sql = [] then (Inr empty_query_result, log)
         else (case validate_sql sql of
             Inl e \<Rightarrow> (Inl (Rejected e), log)
           | Inr _ \<Rightarrow> (case validate_statement_sizes sql of
               Inl e \<Rightarrow> (Inl (Rejected e), log)
             | Inr _ \<Rightarrow> (case send_raw reply parse sql log of
                 (Inl e, log) \<Rightarrow> (Inl e, log)
               | (Inr statements, log) \<Rightarrow>
                   (let affected_rows = sum_list (map (\<lambda>s. unwrap_or 0 (changes (meta s))) statements);
                        display = (if statements = [] then \<lparr>columns = [], rows = []\<rparr> else results (last statements))
                    in (Inr (query_result display affected_rows max_rows), log))))))"

section \<open>Reading cells\<close>

definition value_as_string :: "(json \<Rightarrow> string) \<Rightarrow> json option \<Rightarrow> string option" where
  "value_as_string json_text v = (case v of
     None \<Rightarrow> None
   | Some JsNull \<Rightarrow> None
   | Some (JsString s) \<Rightarrow> Some s
   | Some (JsNumber t) \<Rightarrow> Some t
   | Some (JsBool b) \<Rightarrow> Some (if b then ''true'' else ''false'')
   | Some other \<Rightarrow> Some (json_text other))"

definition cell :: "nat \<Rightarrow> json list \<Rightarrow> json option" where
  "cell i row = (if i < length row then Some (row ! i) else None)"

definition value_by_column :: "(json \<Rightarrow> string) \<Rightarrow> string list \<Rightarrow> json list \<Rightarrow> string \<Rightarrow> string option" where
  "value_by_column json_text cols row name =
     (case position_of (\<lambda>c. eq_ignore_ascii_case c name) cols of
        None \<Rightarrow> None
      | Some i \<Rightarrow> value_as_string json_text (cell i row))"

definition integer_by_column :: "(json \<Rightarrow> string) \<Rightarrow> string list \<Rightarrow> json list \<Rightarrow> string \<Rightarrow> int" where
  "integer_by_column json_text cols row name =
     unwrap_or 0 (Option.bind (value_by_column json_text cols row name) parse_i64)"

definition first_string_cell :: "(json \<Rightarrow> string) \<Rightarrow> D1RawResult \<Rightarrow> D1ClientError + string" where
  "first_string_cell json_text r =
     (case rows r of
        [] \<Rightarrow> Inl ObjectNotFound
      | row # _ \<Rightarrow> (case value_as_string json_text (cell 0 row) of None \<Rightarrow> Inl ObjectNotFound | Some s \<Rightarrow> Inr s))"

section \<open>Schema\<close>

definition quote_with :: "char \<Rightarrow> string \<Rightarrow> string" where
  "quote_with q v = q # concat (map (\<lambda>c. if c = q then [q, q] else [c]) v) @ [q]"

definition sqlite_ident :: "string \<Rightarrow> string" where
  "sqlite_ident v = quote_with (CHR 0x22) v"

definition sqlite_string :: "string \<Rightarrow> string" where
  "sqlite_string v = quote_with (CHR 0x27) v"

definition LIST_TABLES_SQL :: string where
  "LIST_TABLES_SQL = ''SELECT name, type FROM sqlite_master WHERE type IN ('' @ sqlite_string ''table'' @ '', '' @
     sqlite_string ''view'' @ '') AND name NOT LIKE '' @ [CHR 0x27] @ ''sqlite'' @ [CHR 0x5C] @ ''_%'' @ [CHR 0x27] @
     '' ESCAPE '' @ [CHR 0x27, CHR 0x5C, CHR 0x27] @ '' AND name <> '' @ sqlite_string ''_cf_KV'' @ '' ORDER BY name''"

definition columns_sql :: "string \<Rightarrow> string" where
  "columns_sql table = ''PRAGMA table_xinfo('' @ sqlite_ident table @ '')''"

definition index_list_sql :: "string \<Rightarrow> string" where
  "index_list_sql table = ''PRAGMA index_list('' @ sqlite_ident table @ '')''"

definition index_info_sql :: "string \<Rightarrow> string" where
  "index_info_sql name = ''PRAGMA index_info('' @ sqlite_ident name @ '')''"

definition foreign_keys_sql :: "string \<Rightarrow> string" where
  "foreign_keys_sql table = ''PRAGMA foreign_key_list('' @ sqlite_ident table @ '')''"

definition triggers_sql :: "string \<Rightarrow> string" where
  "triggers_sql table = ''SELECT name, sql FROM sqlite_master WHERE type = '' @ sqlite_string ''trigger'' @
     '' AND tbl_name = '' @ sqlite_string table @ '' ORDER BY name''"

definition table_ddl_sql :: "string \<Rightarrow> string" where
  "table_ddl_sql table = ''SELECT sql FROM sqlite_master WHERE type='' @ sqlite_string ''table'' @ '' AND name='' @ sqlite_string table"

definition object_source_sql :: "string \<Rightarrow> string \<Rightarrow> string" where
  "object_source_sql kind name = ''SELECT sql FROM sqlite_master WHERE type='' @ sqlite_string kind @ '' AND name='' @ sqlite_string name"

record TableInfo =
  tbl_name :: string
  tbl_type :: string

record ColumnInfo =
  col_name :: string
  col_data_type :: string
  col_is_nullable :: bool
  col_default :: "string option"
  col_is_primary_key :: bool
  col_extra :: "string option"

record IndexInfo =
  idx_name :: string
  idx_columns :: "string list"
  idx_is_unique :: bool
  idx_is_primary :: bool

record ForeignKeyInfo =
  fk_name :: string
  fk_column :: string
  fk_ref_table :: string
  fk_ref_column :: string
  fk_on_update :: "string option"
  fk_on_delete :: "string option"

record TriggerInfo =
  tr_name :: string
  tr_event :: string
  tr_timing :: string
  tr_statement :: "string option"

definition list_databases :: "string list" where
  "list_databases = [''main'']"

definition list_tables ::
  "(json \<Rightarrow> string) \<Rightarrow> service \<Rightarrow> parser \<Rightarrow> string list \<Rightarrow> (D1ClientError + TableInfo list) \<times> string list" where
  "list_tables json_text reply parse log =
     (case query_inner reply parse LIST_TABLES_SQL log of
        (Inl e, log) \<Rightarrow> (Inl e, log)
      | (Inr r, log) \<Rightarrow> (Inr (map (\<lambda>row.
           let table_type = unwrap_or ''table'' (value_as_string json_text (cell 1 row))
           in \<lparr>tbl_name = unwrap_or [] (value_as_string json_text (cell 0 row)),
               tbl_type = (if eq_ignore_ascii_case table_type ''view'' then ''VIEW'' else ''BASE TABLE'')\<rparr>) (rows r)), log))"

definition get_columns ::
  "(json \<Rightarrow> string) \<Rightarrow> service \<Rightarrow> parser \<Rightarrow> string \<Rightarrow> string list \<Rightarrow> (D1ClientError + ColumnInfo list) \<times> string list" where
  "get_columns json_text reply parse table log =
     (case query_inner reply parse (columns_sql table) log of
        (Inl e, log) \<Rightarrow> (Inl e, log)
      | (Inr r, log) \<Rightarrow> (Inr (map (\<lambda>row.
           let hidden = integer_by_column json_text (columns r) row ''hidden'';
               text = value_by_column json_text (columns r) row
           in \<lparr>col_name = unwrap_or [] (text ''name''), col_data_type = unwrap_or [] (text ''type''),
               col_is_nullable = (integer_by_column json_text (columns r) row ''notnull'' = 0),
               col_default = text ''dflt_value'',
               col_is_primary_key = (integer_by_column json_text (columns r) row ''pk'' > 0),
               col_extra = (if hidden = 2 then Some ''generated always as virtual''
                            else if hidden = 3 then Some ''generated always as stored'' else None)\<rparr>) (rows r)), log))"

text \<open>One query for the list and one more for each index that has a name; the first failure ends it.\<close>

fun index_rows ::
  "(json \<Rightarrow> string) \<Rightarrow> service \<Rightarrow> parser \<Rightarrow> string list \<Rightarrow> json list list \<Rightarrow> string list \<Rightarrow>
     (D1ClientError + IndexInfo list) \<times> string list" where
  "index_rows json_text reply parse cols [] log = (Inr [], log)"
| "index_rows json_text reply parse cols (row # others) log =
     (let name = unwrap_or [] (value_by_column json_text cols row ''name'')
      in if name = [] then index_rows json_text reply parse cols others log
         else (case query_inner reply parse (index_info_sql name) log of
             (Inl e, log) \<Rightarrow> (Inl e, log)
           | (Inr info, log) \<Rightarrow> (case index_rows json_text reply parse cols others log of
               (Inl e, log) \<Rightarrow> (Inl e, log)
             | (Inr indexes, log) \<Rightarrow>
                 (Inr (\<lparr>idx_name = name,
                        idx_columns = List.map_filter (\<lambda>row. value_by_column json_text (columns info) row ''name'') (rows info),
                        idx_is_unique = (integer_by_column json_text cols row ''unique'' \<noteq> 0),
                        idx_is_primary = (unwrap_or [] (value_by_column json_text cols row ''origin'') = ''pk'')\<rparr> # indexes), log))))"

definition list_indexes ::
  "(json \<Rightarrow> string) \<Rightarrow> service \<Rightarrow> parser \<Rightarrow> string \<Rightarrow> string list \<Rightarrow> (D1ClientError + IndexInfo list) \<times> string list" where
  "list_indexes json_text reply parse table log =
     (case query_inner reply parse (index_list_sql table) log of
        (Inl e, log) \<Rightarrow> (Inl e, log)
      | (Inr r, log) \<Rightarrow> index_rows json_text reply parse (columns r) (rows r) log)"

definition list_foreign_keys ::
  "(json \<Rightarrow> string) \<Rightarrow> service \<Rightarrow> parser \<Rightarrow> string \<Rightarrow> string list \<Rightarrow> (D1ClientError + ForeignKeyInfo list) \<times> string list" where
  "list_foreign_keys json_text reply parse table log =
     (case query_inner reply parse (foreign_keys_sql table) log of
        (Inl e, log) \<Rightarrow> (Inl e, log)
      | (Inr r, log) \<Rightarrow> (Inr (map (\<lambda>row.
           let text = value_by_column json_text (columns r) row
           in \<lparr>fk_name = ''fk_'' @ unwrap_or ''0'' (text ''id''), fk_column = unwrap_or [] (text ''from''),
               fk_ref_table = unwrap_or [] (text ''table''), fk_ref_column = unwrap_or [] (text ''to''),
               fk_on_update = text ''on_update'', fk_on_delete = text ''on_delete''\<rparr>) (rows r)), log))"

definition list_triggers ::
  "(json \<Rightarrow> string) \<Rightarrow> service \<Rightarrow> parser \<Rightarrow> string \<Rightarrow> string list \<Rightarrow> (D1ClientError + TriggerInfo list) \<times> string list" where
  "list_triggers json_text reply parse table log =
     (case query_inner reply parse (triggers_sql table) log of
        (Inl e, log) \<Rightarrow> (Inl e, log)
      | (Inr r, log) \<Rightarrow> (Inr (map (\<lambda>row.
           let statement = value_as_string json_text (cell 1 row);
               metadata = metadata_from_sql (unwrap_or [] statement)
           in \<lparr>tr_name = unwrap_or [] (value_as_string json_text (cell 0 row)), tr_event = event metadata,
               tr_timing = timing metadata, tr_statement = statement\<rparr>) (rows r)), log))"

definition table_ddl ::
  "(json \<Rightarrow> string) \<Rightarrow> service \<Rightarrow> parser \<Rightarrow> string \<Rightarrow> string list \<Rightarrow> (D1ClientError + string) \<times> string list" where
  "table_ddl json_text reply parse table log =
     (case query_inner reply parse (table_ddl_sql table) log of
        (Inl e, log) \<Rightarrow> (Inl e, log)
      | (Inr r, log) \<Rightarrow> (first_string_cell json_text r, log))"

text \<open>Only the source of a view can be asked for.\<close>

definition object_source ::
  "(json \<Rightarrow> string) \<Rightarrow> service \<Rightarrow> parser \<Rightarrow> string \<Rightarrow> bool \<Rightarrow> string list \<Rightarrow> (D1ClientError + string) \<times> string list" where
  "object_source json_text reply parse name is_view log =
     (if \<not> is_view then (Inl ObjectUnsupported, log)
      else (case query_inner reply parse (object_source_sql ''view'' name) log of
          (Inl e, log) \<Rightarrow> (Inl e, log)
        | (Inr r, log) \<Rightarrow> (first_string_cell json_text r, log)))"

section \<open>Connecting\<close>

definition CLOUDFLARE_API_BASE_URL :: string where
  "CLOUDFLARE_API_BASE_URL = ''https://api.cloudflare.com/client/v4''"

record CloudflareD1Client =
  endpoint :: string
  api_token :: string

definition required_field :: "string \<Rightarrow> string \<Rightarrow> D1ClientError + string" where
  "required_field v label = (let v = trim v in if v = [] then Inl (FieldRequired label) else Inr v)"

definition required_identifier :: "string \<Rightarrow> string \<Rightarrow> D1ClientError + string" where
  "required_identifier v label = (case required_field v label of
     Inl e \<Rightarrow> Inl e
   | Inr v \<Rightarrow>
       if list_all (\<lambda>c. ascii_alphabetic c \<or> ascii_digit c \<or> c = CHR ''-'' \<or> c = CHR ''_'') v then Inr v
       else Inl (FieldInvalid label))"

definition endpoint_of :: "string \<Rightarrow> string \<Rightarrow> string" where
  "endpoint_of account_id database_id =
     CLOUDFLARE_API_BASE_URL @ ''/accounts/'' @ account_id @ ''/d1/database/'' @ database_id @ ''/raw''"

text \<open>The proxy, the certificates and the building of the HTTP client are one step of the HTTP library that may fail.\<close>

definition client_new :: "(string \<Rightarrow> D1ClientError + unit) \<Rightarrow> string \<Rightarrow> string \<Rightarrow> string \<Rightarrow> D1ClientError + CloudflareD1Client" where
  "client_new build account_id database_id token =
     (case required_identifier account_id ''Cloudflare Account ID'' of
        Inl e \<Rightarrow> Inl e
      | Inr account \<Rightarrow> (case required_identifier database_id ''Cloudflare D1 Database ID'' of
          Inl e \<Rightarrow> Inl e
        | Inr database \<Rightarrow> (case required_field token ''Cloudflare API Token'' of
            Inl e \<Rightarrow> Inl e
          | Inr token \<Rightarrow> (case build (endpoint_of account database) of
              Inl e \<Rightarrow> Inl e
            | Inr _ \<Rightarrow> Inr \<lparr>endpoint = endpoint_of account database, api_token = token\<rparr>))))"

end
