(* ===== verification/D1_Client_Laws.thy ===== *)
theory D1_Client_Laws
  imports D1_Client
begin

text \<open>
  Laws of the Cloudflare D1 client: names put into its queries stay inert, and what it posts for a user
  has passed the guard.
\<close>

section \<open>Quoting\<close>

definition plain_text :: "string \<Rightarrow> bool" where
  "plain_text p \<longleftrightarrow> list_all (\<lambda>c. \<not> quote_byte c \<and> c \<noteq> CHR ''['' \<and> c \<noteq> CHR ''-'' \<and> c \<noteq> CHR ''/'') p"

lemma quote_bytes:
  assumes "quote_byte q"
  shows "\<not> ascii_digit q" "\<not> word_byte q" "q \<noteq> CHR ''-''" "q \<noteq> CHR ''*''"
  using assms by (auto simp: quote_byte_def ascii_digit_def word_byte_def ascii_alphabetic_def)

lemma plain_text_Cons [simp]:
  "plain_text (c # p) \<longleftrightarrow> \<not> quote_byte c \<and> c \<noteq> CHR ''['' \<and> c \<noteq> CHR ''-'' \<and> c \<noteq> CHR ''/'' \<and> plain_text p"
  by (auto simp: plain_text_def)

lemma plain_text_dropWhile: "plain_text p \<Longrightarrow> plain_text (dropWhile f p)"
  by (induction p) (auto simp: plain_text_def)

lemma lex_step_text:
  assumes "plain_text (c # p)" "quote_byte q"
  shows "lex_step i c (p @ q # s) = (fst (lex_step i c p), snd (lex_step i c p) @ q # s)" "plain_text (snd (lex_step i c p))"
  using assms quote_bytes [OF assms(2)]
  by (simp_all add: lex_step_plain opens_comment_def plain_step_def takeWhile_cut dropWhile_cut plain_text_dropWhile)

lemma lex_from_text:
  "plain_text p \<Longrightarrow> quote_byte q \<Longrightarrow> lex_from i (p @ q # s) = lex_from i p @ lex_from (i + length p) (q # s)"
proof (induction i p rule: lex_from.induct)
  case (2 i c p)
  obtain l rest where l: "lex_step i c p = (l, rest)" by (cases "lex_step i c p")
  have "length rest \<le> length p" using lex_step_length [of i c p] l by simp
  moreover have "plain_text rest" using lex_step_text(2) [OF 2(2,3), of i] l by simp
  ultimately show ?case
    using 2(1) [OF l [symmetric] _ 2(3)] lex_step_text(1) [OF 2(2,3), of i s] l by (simp del: lex_from.simps(2) add: lex_from.simps(2) [of i])
qed simp

lemma skip_doubled:
  "r = [] \<or> hd r \<noteq> q \<Longrightarrow> skip_quoted q (concat (map (\<lambda>c. if c = q then [q, q] else [c]) v) @ q # r) = r"
proof (induction v)
  case Nil
  then show ?case by (cases r) auto
next
  case (Cons c v)
  let ?w = "concat (map (\<lambda>c. if c = q then [q, q] else [c]) v) @ q # r"
  have "?w \<noteq> []" by simp
  then obtain d w where "?w = d # w" by (metis neq_Nil_conv)
  then show ?case using Cons by (cases "c = q") auto
qed

lemma tokens_quoted:
  assumes "quote_byte q" "r = [] \<or> hd r \<noteq> q"
  shows "tokens (quote_with q v @ r) = tokens r"
proof -
  have "lex_step 0 q (concat (map (\<lambda>c. if c = q then [q, q] else [c]) v) @ q # r) = (None, r)"
    using assms quote_bytes [OF assms(1)] skip_doubled [OF assms(2), of v]
    by (auto simp: lex_step_def quote_byte_def)
  then show ?thesis using erase_lex_from by (simp add: tokens_def lex_sql_def quote_with_def)
qed

lemma tokens_text:
  assumes "plain_text p" "quote_byte q" "r = [] \<or> hd r \<noteq> q"
  shows "tokens (p @ quote_with q v @ r) = tokens p @ tokens r"
proof -
  obtain s where s: "quote_with q v @ r = q # s" by (simp add: quote_with_def)
  have "tokens (p @ q # s) = tokens p @ tokens (q # s)"
    using lex_from_text [OF assms(1,2), of 0 s] erase_lex_from [of "length p" "q # s"] by (simp add: tokens_def lex_sql_def)
  then show ?thesis using tokens_quoted [OF assms(2,3), of v, unfolded s] s by simp
qed

lemma tokens_text_end: "plain_text p \<Longrightarrow> quote_byte q \<Longrightarrow> tokens (p @ quote_with q v) = tokens p"
  using tokens_text [of p q "[]" v] by (simp add: tokens_def lex_sql_def)

lemma quote_marks: "quote_byte (CHR 0x22)" "quote_byte (CHR 0x27)"
  by (simp_all add: quote_byte_def)

lemma plain_prefixes:
  "plain_text ''PRAGMA table_xinfo(''" "plain_text ''PRAGMA index_list(''" "plain_text ''PRAGMA index_info(''"
  "plain_text ''PRAGMA foreign_key_list(''" "plain_text ''SELECT name, sql FROM sqlite_master WHERE type = ''"
  "plain_text '' AND tbl_name = ''" "plain_text ''SELECT sql FROM sqlite_master WHERE type=''" "plain_text '' AND name=''"
  by (simp_all add: plain_text_def quote_byte_def)

text \<open>The lexemes of each query do not depend on the name in it.\<close>

lemma pragma_tokens:
  "tokens (columns_sql t) = tokens (columns_sql [])" "tokens (index_list_sql t) = tokens (index_list_sql [])"
  "tokens (index_info_sql t) = tokens (index_info_sql [])" "tokens (foreign_keys_sql t) = tokens (foreign_keys_sql [])"
  by (simp_all add: columns_sql_def index_list_sql_def index_info_sql_def foreign_keys_sql_def sqlite_ident_def
      tokens_text [OF plain_prefixes(1)] tokens_text [OF plain_prefixes(2)] tokens_text [OF plain_prefixes(3)]
      tokens_text [OF plain_prefixes(4)] quote_marks del: append.simps)

lemma select_tokens:
  "tokens (triggers_sql t) = tokens (triggers_sql [])" "tokens (table_ddl_sql t) = tokens (table_ddl_sql [])"
  "tokens (object_source_sql kind t) = tokens (object_source_sql kind [])"
proof -
  have a: "tokens ('' AND tbl_name = '' @ sqlite_string t @ '' ORDER BY name'') = tokens '' AND tbl_name = '' @ tokens '' ORDER BY name''" for t
    unfolding sqlite_string_def by (rule tokens_text [OF plain_prefixes(6) quote_marks(2)]) simp
  have b: "tokens ('' AND name='' @ sqlite_string t) = tokens '' AND name=''" for t
    unfolding sqlite_string_def by (rule tokens_text_end [OF plain_prefixes(8) quote_marks(2)])
  have "tokens (triggers_sql t) =
      tokens ''SELECT name, sql FROM sqlite_master WHERE type = '' @ tokens ('' AND tbl_name = '' @ sqlite_string t @ '' ORDER BY name'')" for t
    unfolding triggers_sql_def sqlite_string_def [of "''trigger''"]
    by (rule tokens_text [OF plain_prefixes(5) quote_marks(2)]) simp
  then show "tokens (triggers_sql t) = tokens (triggers_sql [])" using a by metis
  have c: "tokens (''SELECT sql FROM sqlite_master WHERE type='' @ sqlite_string kind @ '' AND name='' @ sqlite_string t) =
      tokens ''SELECT sql FROM sqlite_master WHERE type='' @ tokens ('' AND name='' @ sqlite_string t)" for kind t
    unfolding sqlite_string_def [of kind] by (rule tokens_text [OF plain_prefixes(7) quote_marks(2)]) simp
  show "tokens (table_ddl_sql t) = tokens (table_ddl_sql [])"
    unfolding table_ddl_sql_def using b c by metis
  show "tokens (object_source_sql kind t) = tokens (object_source_sql kind [])"
    unfolding object_source_sql_def using b c by metis
qed

section \<open>What is posted\<close>

definition schema_shapes :: "SqlLexeme list list" where
  "schema_shapes = map tokens [LIST_TABLES_SQL, columns_sql [], index_list_sql [], index_info_sql [], foreign_keys_sql [],
     triggers_sql [], table_ddl_sql [], object_source_sql ''view'' []]"

definition posts_shapes :: "string list \<Rightarrow> string list \<Rightarrow> bool" where
  "posts_shapes log log' \<longleftrightarrow> (\<exists>qs. log' = log @ qs \<and> list_all (\<lambda>q. tokens q \<in> set schema_shapes) qs)"

lemma query_inner_log: "snd (query_inner reply parse sql log) = log @ [sql]"
  by (auto simp: query_inner_def send_raw_def Let_def split: sum.split list.split prod.split)

lemma posts_shapes_refl: "posts_shapes log log"
  by (simp add: posts_shapes_def)

lemma posts_shapes_trans: "posts_shapes a b \<Longrightarrow> posts_shapes b c \<Longrightarrow> posts_shapes a c"
  unfolding posts_shapes_def by fastforce

lemma query_inner_shape:
  assumes "query_inner reply parse sql log = (r, log')" "tokens sql \<in> set schema_shapes"
  shows "posts_shapes log log'"
  using query_inner_log [of reply parse sql log] assms by (simp add: posts_shapes_def)

lemma shapes:
  "tokens LIST_TABLES_SQL \<in> set schema_shapes" "tokens (columns_sql t) \<in> set schema_shapes"
  "tokens (index_list_sql t) \<in> set schema_shapes" "tokens (index_info_sql t) \<in> set schema_shapes"
  "tokens (foreign_keys_sql t) \<in> set schema_shapes" "tokens (triggers_sql t) \<in> set schema_shapes"
  "tokens (table_ddl_sql t) \<in> set schema_shapes" "tokens (object_source_sql ''view'' t) \<in> set schema_shapes"
  unfolding schema_shapes_def
  by (simp_all only: pragma_tokens [of t] select_tokens [of t] select_tokens(3) [of _ t] list.map list.set insert_iff simp_thms)

lemma index_rows_shapes: "posts_shapes log (snd (index_rows json_text reply parse cols rs log))"
proof (induction json_text reply parse cols rs log rule: index_rows.induct)
  case (2 json_text reply parse cols row others log)
  define name where "name = unwrap_or [] (value_by_column json_text cols row ''name'')"
  obtain r log1 where q: "query_inner reply parse (index_info_sql name) log = (r, log1)"
    by (cases "query_inner reply parse (index_info_sql name) log")
  have p: "posts_shapes log log1" by (rule query_inner_shape [OF q shapes(4)])
  show ?case
  proof (cases "name = []")
    case True
    then show ?thesis using 2(1) [OF name_def] by (simp add: name_def [symmetric] Let_def)
  next
    case False
    show ?thesis
    proof (cases r)
      case (Inl e)
      then show ?thesis using False p q by (simp add: name_def [symmetric] Let_def)
    next
      case (Inr info)
      have "posts_shapes log1 (snd (index_rows json_text reply parse cols others log1))"
        using 2(2) [OF name_def False _ Inr] q by simp
      with posts_shapes_trans [OF p this] show ?thesis
        using False q Inr
        by (cases "index_rows json_text reply parse cols others log1"; cases "fst (index_rows json_text reply parse cols others log1)")
          (simp_all add: name_def [symmetric] Let_def)
    qed
  qed
qed (simp add: posts_shapes_refl)

text \<open>
  C18: no name can turn a query of the schema browser into another one. Whatever the table is called, and
  whatever names the service answers with, every text these operations post has the lexemes of one of
  the eight fixed queries.
\<close>

theorem schema_names_inert:
  "posts_shapes log (snd (list_tables json_text reply parse log)) \<and>
   posts_shapes log (snd (get_columns json_text reply parse table log)) \<and>
   posts_shapes log (snd (list_indexes json_text reply parse table log)) \<and>
   posts_shapes log (snd (list_foreign_keys json_text reply parse table log)) \<and>
   posts_shapes log (snd (list_triggers json_text reply parse table log)) \<and>
   posts_shapes log (snd (table_ddl json_text reply parse table log)) \<and>
   posts_shapes log (snd (object_source json_text reply parse table is_view log))"
proof (intro conjI)
  note step = query_inner_shape [of reply parse _ log]
  show "posts_shapes log (snd (list_indexes json_text reply parse table log))"
    using step [OF _ shapes(3)] posts_shapes_trans [OF _ index_rows_shapes]
    unfolding list_indexes_def by (auto split: prod.split sum.split)
  show "posts_shapes log (snd (list_tables json_text reply parse log))"
    using step [OF _ shapes(1)] unfolding list_tables_def by (auto split: prod.split sum.split)
  show "posts_shapes log (snd (get_columns json_text reply parse table log))"
    using step [OF _ shapes(2)] unfolding get_columns_def by (auto split: prod.split sum.split)
  show "posts_shapes log (snd (list_foreign_keys json_text reply parse table log))"
    using step [OF _ shapes(5)] unfolding list_foreign_keys_def by (auto split: prod.split sum.split)
  show "posts_shapes log (snd (list_triggers json_text reply parse table log))"
    using step [OF _ shapes(6)] unfolding list_triggers_def by (auto split: prod.split sum.split)
  show "posts_shapes log (snd (table_ddl json_text reply parse table log))"
    using step [OF _ shapes(7)] unfolding table_ddl_def by (auto split: prod.split sum.split)
  show "posts_shapes log (snd (object_source json_text reply parse table is_view log))"
    using step [OF _ shapes(8)] posts_shapes_refl unfolding object_source_def by (auto split: prod.split sum.split)
qed

section \<open>The guard before a query\<close>

text \<open>What a statement may start with, by its lower-case words.\<close>

definition allowed_words :: "string list \<Rightarrow> bool" where
  "allowed_words ws = (case ws of
     [] \<Rightarrow> True
   | w # more_words \<Rightarrow>
       w \<notin> set [''begin'', ''commit'', ''end'', ''rollback'', ''savepoint'', ''release'', ''start'', ''attach'', ''detach''] \<and>
       (w = ''create'' \<longrightarrow> take 1 more_words \<notin> set [[''temp''], [''temporary'']]) \<and>
       (w = ''pragma'' \<longrightarrow> list_ex (\<lambda>p. p \<in> set SUPPORTED_PRAGMAS) (take 2 more_words)))"

definition guarded_text :: "string \<Rightarrow> bool" where
  "guarded_text sql \<longleftrightarrow> (\<exists>segs. joined_by (CHR '';'') segs = sql \<and>
     list_all (\<lambda>s. fits (trim s) \<and> allowed_words (map to_ascii_lowercase (lexeme_words (tokens (trim s)))) \<and>
       semicolons_ok (tokens (trim s))) segs)"

lemma first_error_ok: "first_error f xs = Inr () \<longleftrightarrow> list_all (\<lambda>x. f x = Inr ()) xs"
  by (induction xs) (auto split: sum.split)

lemma pragmas_lower: "list_all (\<lambda>p. to_ascii_lowercase p = p) SUPPORTED_PRAGMAS"
  by code_simp

lemma lower_keywords:
  "to_ascii_lowercase ''BEGIN'' = ''begin''" "to_ascii_lowercase ''COMMIT'' = ''commit''" "to_ascii_lowercase ''END'' = ''end''"
  "to_ascii_lowercase ''ROLLBACK'' = ''rollback''" "to_ascii_lowercase ''SAVEPOINT'' = ''savepoint''"
  "to_ascii_lowercase ''RELEASE'' = ''release''" "to_ascii_lowercase ''START'' = ''start''"
  "to_ascii_lowercase ''ATTACH'' = ''attach''" "to_ascii_lowercase ''DETACH'' = ''detach''"
  "to_ascii_lowercase ''CREATE'' = ''create''" "to_ascii_lowercase ''PRAGMA'' = ''pragma''"
  "to_ascii_lowercase ''TEMP'' = ''temp''" "to_ascii_lowercase ''TEMPORARY'' = ''temporary''"
  by (simp_all add: to_ascii_lowercase_def ascii_lower_def char_of_eq_iff)

lemma supported_pragma: "list_ex (eq_ignore_ascii_case p) SUPPORTED_PRAGMAS \<Longrightarrow> to_ascii_lowercase p \<in> set SUPPORTED_PRAGMAS"
  using pragmas_lower by (auto simp: list_ex_iff list_all_iff eq_ignore_ascii_case_def)

lemma validated_pragma:
  assumes "validate_pragma (w # ws) ls = Inr ()"
  shows "list_ex (\<lambda>p. p \<in> set SUPPORTED_PRAGMAS) (take 2 (map to_ascii_lowercase ws))"
proof -
  obtain p where p: "p \<in> set (take 2 ws)" "list_ex (eq_ignore_ascii_case p) SUPPORTED_PRAGMAS"
    using assms
    by (cases ws; cases "tl ws")
      (auto simp: validate_pragma_def nth_word_def Let_def split: if_splits option.splits)
  then show ?thesis using supported_pragma by (auto simp: list_ex_iff take_map)
qed

lemma validated_create:
  assumes "validate_create_statement (w # ws) = Inr ()"
  shows "take 1 (map to_ascii_lowercase ws) \<notin> set [[''temp''], [''temporary'']]"
  using assms
  by (cases ws) (auto simp: validate_create_statement_def word_is_def nth_word_def is_some_and_def
      eq_ignore_ascii_case_def lower_keywords split: if_splits)

lemma validated_allowed:
  assumes "validate_lexemes ls = Inr ()"
  shows "allowed_words (map to_ascii_lowercase (lexeme_words ls))"
proof (cases "lexeme_words ls")
  case (Cons w ws)
  have "to_ascii_lowercase w = ''create'' \<Longrightarrow> validate_create_statement (w # ws) = Inr ()"
    "to_ascii_lowercase w = ''pragma'' \<Longrightarrow> validate_pragma (w # ws) ls = Inr ()"
    "to_ascii_lowercase w \<notin> set [''begin'', ''commit'', ''end'', ''rollback'', ''savepoint'', ''release'', ''start'', ''attach'', ''detach'']"
    using assms
    by (auto simp: validate_lexemes_def Let_def Cons TRANSACTION_KEYWORDS_def eq_ignore_ascii_case_def lower_keywords
        split: if_splits sum.splits)
  then show ?thesis using validated_pragma [of w ws ls] validated_create [of w ws] by (simp add: Cons allowed_words_def)
qed (simp add: allowed_words_def)

lemma contains_negative_one_erase: "contains_negative_one (map erase ls) = contains_negative_one ls"
proof (induction ls rule: contains_negative_one.induct)
  case (1 a b ls)
  then show ?case by (cases a; cases b) auto
qed auto

lemma validate_statement_tokens: "validate_statement s = validate_lexemes (tokens s)"
proof -
  have "validate_pragma ws (map erase ls) = validate_pragma ws ls" for ws ls
    by (simp add: validate_pragma_def contains_negative_one_erase split: option.split)
  then show ?thesis by (simp add: validate_statement_def tokens_def validate_lexemes_def Let_def split: list.split sum.split)
qed

lemma allowed_blank: "trim s = [] \<Longrightarrow> fits (trim s) \<and> allowed_words (map to_ascii_lowercase (lexeme_words (tokens (trim s))))"
  by (simp add: fits_def tokens_def lex_sql_def allowed_words_def)

lemma sizes_fit:
  assumes "validate_statement_sizes sql = Inr ()" "s \<in> set (complete_sql_statements sql)"
  shows "fits s"
proof -
  obtain i where "i < length (complete_sql_statements sql)" "complete_sql_statements sql ! i = s"
    using assms(2) by (auto simp: in_set_conv_nth)
  then have "(i, s) \<in> set (List.enumerate 0 (complete_sql_statements sql))" by (auto simp: in_set_enumerate_eq)
  then show ?thesis
    using assms(1) by (auto simp: validate_statement_sizes_def first_error_ok list_all_iff fits_def split: if_splits)
qed

lemma validated_guarded:
  assumes "validate_sql sql = Inr ()" "validate_statement_sizes sql = Inr ()"
  shows "guarded_text sql"
proof -
  obtain segs where segs: "joined_by (CHR '';'') segs = sql" "complete_sql_statements sql = filter (\<lambda>s. s \<noteq> []) (map trim segs)"
      "list_all (\<lambda>s. semicolons_ok (tokens (trim s))) segs"
    using statements_of_segments [of sql] by metis
  have "fits (trim s) \<and> allowed_words (map to_ascii_lowercase (lexeme_words (tokens (trim s))))" if "s \<in> set segs" for s
  proof (cases "trim s = []")
    case False
    then have m: "trim s \<in> set (complete_sql_statements sql)" using segs(2) that by auto
    then have "validate_lexemes (tokens (trim s)) = Inr ()"
      using assms(1) by (auto simp: validate_sql_def first_error_ok list_all_iff validate_statement_tokens)
    then show ?thesis using validated_allowed sizes_fit [OF assms(2) m] by blast
  qed (use allowed_blank in simp)
  then show ?thesis using segs(1,3) by (auto simp: guarded_text_def list_all_iff)
qed


end
