(* ===== verification/Session_Credentials.thy ===== *)
theory Session_Credentials
  imports Prelude
begin

text \<open>
  The passwords kept in memory for connections that do not save theirs,
  \<^verbatim>\<open>crates/dbx-core/src/connection/session_credentials.rs\<close>. A credential belongs to an owner (the token
  of a web session, the empty string on the desktop) and a connection. Every operation runs under the
  lock of the store, so a history of the store is a sequence of operations. A panic is \<open>None\<close>.
\<close>

section \<open>State\<close>

record CredentialKey =
  owner_scope :: string
  connection_id :: string

record PurposeCredentialKey =
  credential :: CredentialKey
  purpose :: string

record SessionCredential =
  password :: string
  generation :: nat

record SessionCredentialState =
  credentials :: "(CredentialKey, SessionCredential) hmap"
  purpose_credentials :: "(PurposeCredentialKey, SessionCredential) hmap"
  pool_credential_owners :: "(string, string) hmap"
  next_generation :: nat

record SessionCredentialWriteToken =
  token_key :: CredentialKey
  token_generation :: nat

record PurposeSessionCredentialWriteToken =
  purpose_token_key :: PurposeCredentialKey
  purpose_token_generation :: nat

definition store_new :: SessionCredentialState where
  "store_new = \<lparr>credentials = [], purpose_credentials = [], pool_credential_owners = [], next_generation = 0\<rparr>"

definition credential_key :: "string \<Rightarrow> string \<Rightarrow> CredentialKey" where
  "credential_key owner conn = \<lparr>owner_scope = owner, connection_id = conn\<rparr>"

definition purpose_key :: "string \<Rightarrow> string \<Rightarrow> string \<Rightarrow> PurposeCredentialKey" where
  "purpose_key owner conn use = \<lparr>credential = credential_key owner conn, purpose = use\<rparr>"

text \<open>\<^verbatim>\<open>checked_add(1)\<close> on the 64-bit counter.\<close>

definition bump_generation :: "SessionCredentialState \<Rightarrow> SessionCredentialState option" where
  "bump_generation st = (if next_generation st + 1 < 2 ^ 64 then Some (st\<lparr>next_generation := next_generation st + 1\<rparr>) else None)"

section \<open>Operations\<close>

definition set_credential ::
  "string \<Rightarrow> string \<Rightarrow> string \<Rightarrow> SessionCredentialState \<Rightarrow> (SessionCredentialWriteToken option \<times> SessionCredentialState) option" where
  "set_credential owner conn pw st =
     (if pw = [] then Some (None, st)
      else (case bump_generation st of
          None \<Rightarrow> None
        | Some st \<Rightarrow>
            (let key = credential_key owner conn; g = next_generation st
             in Some (Some \<lparr>token_key = key, token_generation = g\<rparr>,
                  st\<lparr>credentials := hm_insert key \<lparr>password = pw, generation = g\<rparr> (credentials st)\<rparr>))))"

definition get_credential :: "string \<Rightarrow> string \<Rightarrow> SessionCredentialState \<Rightarrow> string option" where
  "get_credential owner conn st = map_option password (map_of (credentials st) (credential_key owner conn))"

definition set_for_purpose_with_token ::
  "string \<Rightarrow> string \<Rightarrow> string \<Rightarrow> string \<Rightarrow> SessionCredentialState \<Rightarrow>
     (PurposeSessionCredentialWriteToken option \<times> SessionCredentialState) option" where
  "set_for_purpose_with_token owner conn use pw st =
     (if use = [] \<or> pw = [] then Some (None, st)
      else (case bump_generation st of
          None \<Rightarrow> None
        | Some st \<Rightarrow>
            (let key = purpose_key owner conn use; g = next_generation st
             in Some (Some \<lparr>purpose_token_key = key, purpose_token_generation = g\<rparr>,
                  st\<lparr>purpose_credentials := hm_insert key \<lparr>password = pw, generation = g\<rparr> (purpose_credentials st)\<rparr>))))"

definition set_for_purpose ::
  "string \<Rightarrow> string \<Rightarrow> string \<Rightarrow> string \<Rightarrow> SessionCredentialState \<Rightarrow> SessionCredentialState option" where
  "set_for_purpose owner conn use pw st = map_option snd (set_for_purpose_with_token owner conn use pw st)"

definition get_for_purpose :: "string \<Rightarrow> string \<Rightarrow> string \<Rightarrow> SessionCredentialState \<Rightarrow> string option" where
  "get_for_purpose owner conn use st = map_option password (map_of (purpose_credentials st) (purpose_key owner conn use))"

definition has_credential :: "string \<Rightarrow> string \<Rightarrow> SessionCredentialState \<Rightarrow> bool" where
  "has_credential owner conn st \<longleftrightarrow> get_credential owner conn st \<noteq> None"

definition remove_credential :: "string \<Rightarrow> string \<Rightarrow> SessionCredentialState \<Rightarrow> SessionCredentialState" where
  "remove_credential owner conn st =
     st\<lparr>credentials := hm_remove (credential_key owner conn) (credentials st),
        purpose_credentials := hm_retain (\<lambda>key _. owner_scope (credential key) \<noteq> owner \<or> connection_id (credential key) \<noteq> conn)
          (purpose_credentials st)\<rparr>"

definition remove_if_current :: "SessionCredentialWriteToken \<Rightarrow> SessionCredentialState \<Rightarrow> bool \<times> SessionCredentialState" where
  "remove_if_current token st =
     (let is_current = is_some_and (\<lambda>c. generation c = token_generation token) (map_of (credentials st) (token_key token))
      in (is_current, if is_current then st\<lparr>credentials := hm_remove (token_key token) (credentials st)\<rparr> else st))"

definition remove_purpose_if_current ::
  "PurposeSessionCredentialWriteToken \<Rightarrow> SessionCredentialState \<Rightarrow> bool \<times> SessionCredentialState" where
  "remove_purpose_if_current token st =
     (let is_current = is_some_and (\<lambda>c. generation c = purpose_token_generation token)
            (map_of (purpose_credentials st) (purpose_token_key token))
      in (is_current,
          if is_current then st\<lparr>purpose_credentials := hm_remove (purpose_token_key token) (purpose_credentials st)\<rparr> else st))"

definition clear_owner :: "string \<Rightarrow> SessionCredentialState \<Rightarrow> SessionCredentialState" where
  "clear_owner owner st =
     st\<lparr>credentials := hm_retain (\<lambda>key _. owner_scope key \<noteq> owner) (credentials st),
        purpose_credentials := hm_retain (\<lambda>key _. owner_scope (credential key) \<noteq> owner) (purpose_credentials st)\<rparr>"

definition starts_with :: "string \<Rightarrow> string \<Rightarrow> bool" where
  "starts_with p s \<longleftrightarrow> take (length p) s = p"

definition clear_connection :: "string \<Rightarrow> SessionCredentialState \<Rightarrow> SessionCredentialState" where
  "clear_connection conn st =
     st\<lparr>credentials := hm_retain (\<lambda>key _. connection_id key \<noteq> conn) (credentials st),
        purpose_credentials := hm_retain (\<lambda>key _. connection_id (credential key) \<noteq> conn) (purpose_credentials st),
        pool_credential_owners := hm_retain (\<lambda>pool _. pool \<noteq> conn \<and> \<not> starts_with (conn @ '':'') pool) (pool_credential_owners st)\<rparr>"

definition clear_all :: "SessionCredentialState \<Rightarrow> SessionCredentialState" where
  "clear_all st = st\<lparr>credentials := [], purpose_credentials := []\<rparr>"

definition record_pool_owner :: "string \<Rightarrow> string \<Rightarrow> SessionCredentialState \<Rightarrow> SessionCredentialState" where
  "record_pool_owner pool owner st = st\<lparr>pool_credential_owners := hm_insert pool owner (pool_credential_owners st)\<rparr>"

definition pool_owner_mismatch :: "string \<Rightarrow> string \<Rightarrow> SessionCredentialState \<Rightarrow> bool" where
  "pool_owner_mismatch pool owner st = is_none_or (\<lambda>recorded. recorded \<noteq> owner) (map_of (pool_credential_owners st) pool)"

definition has_pool_owner :: "string \<Rightarrow> SessionCredentialState \<Rightarrow> bool" where
  "has_pool_owner pool st \<longleftrightarrow> map_of (pool_credential_owners st) pool \<noteq> None"

definition remove_pool_owners :: "string list \<Rightarrow> SessionCredentialState \<Rightarrow> SessionCredentialState" where
  "remove_pool_owners pools st = st\<lparr>pool_credential_owners := fold hm_remove pools (pool_credential_owners st)\<rparr>"

definition clear_pool_owners :: "SessionCredentialState \<Rightarrow> SessionCredentialState" where
  "clear_pool_owners st = st\<lparr>pool_credential_owners := []\<rparr>"

definition credential_count :: "SessionCredentialState \<Rightarrow> nat" where
  "credential_count st = length (credentials st) + length (purpose_credentials st)"

section \<open>Histories\<close>

datatype cred_event =
    SetPassword string string string
  | SetForPurpose string string string string
  | Remove string string
  | RemoveIfCurrent SessionCredentialWriteToken
  | RemovePurposeIfCurrent PurposeSessionCredentialWriteToken
  | ClearOwner string
  | ClearConnection string
  | ClearAll
  | RecordPoolOwner string string
  | RemovePoolOwners "string list"
  | ClearPoolOwners

fun cred_step :: "cred_event \<Rightarrow> SessionCredentialState \<Rightarrow> SessionCredentialState option" where
  "cred_step (SetPassword owner conn pw) st = map_option snd (set_credential owner conn pw st)"
| "cred_step (SetForPurpose owner conn use pw) st = set_for_purpose owner conn use pw st"
| "cred_step (Remove owner conn) st = Some (remove_credential owner conn st)"
| "cred_step (RemoveIfCurrent t) st = Some (snd (remove_if_current t st))"
| "cred_step (RemovePurposeIfCurrent t) st = Some (snd (remove_purpose_if_current t st))"
| "cred_step (ClearOwner owner) st = Some (clear_owner owner st)"
| "cred_step (ClearConnection conn) st = Some (clear_connection conn st)"
| "cred_step ClearAll st = Some (clear_all st)"
| "cred_step (RecordPoolOwner pool owner) st = Some (record_pool_owner pool owner st)"
| "cred_step (RemovePoolOwners pools) st = Some (remove_pool_owners pools st)"
| "cred_step ClearPoolOwners st = Some (clear_pool_owners st)"

fun cred_run :: "cred_event list \<Rightarrow> SessionCredentialState \<Rightarrow> SessionCredentialState option" where
  "cred_run [] st = Some st"
| "cred_run (e # es) st = Option.bind (cred_step e st) (cred_run es)"

text \<open>The events that write or forget the password of an owner for a connection.\<close>

fun touches :: "string \<Rightarrow> string \<Rightarrow> cred_event \<Rightarrow> bool" where
  "touches owner conn (SetPassword o' c' pw) \<longleftrightarrow> o' = owner \<and> c' = conn \<and> pw \<noteq> []"
| "touches owner conn (Remove o' c') \<longleftrightarrow> o' = owner \<and> c' = conn"
| "touches owner conn (ClearOwner o') \<longleftrightarrow> o' = owner"
| "touches owner conn (ClearConnection c') \<longleftrightarrow> c' = conn"
| "touches owner conn ClearAll \<longleftrightarrow> True"
| "touches owner conn _ \<longleftrightarrow> False"

section \<open>Invariant\<close>

definition cred_wf :: "SessionCredentialState \<Rightarrow> bool" where
  "cred_wf st \<longleftrightarrow> hm_wf (credentials st) \<and> hm_wf (purpose_credentials st) \<and> hm_wf (pool_credential_owners st)"

lemma hm_wf_insert: "hm_wf m \<Longrightarrow> hm_wf (hm_insert k v m)"
  by (rule hmap.invar_insert)

lemma hm_wf_remove: "hm_wf m \<Longrightarrow> hm_wf (hm_remove k m)"
  by (rule hmap.invar_remove)

lemma hm_wf_fold_remove: "hm_wf m \<Longrightarrow> hm_wf (fold hm_remove ks m)"
  by (induction ks arbitrary: m) (simp_all add: hm_wf_remove)

lemmas cred_defs = set_credential_def set_for_purpose_def set_for_purpose_with_token_def bump_generation_def
  remove_credential_def remove_if_current_def remove_purpose_if_current_def clear_owner_def clear_connection_def
  clear_all_def record_pool_owner_def remove_pool_owners_def clear_pool_owners_def

lemma cred_step_wf: "cred_wf st \<Longrightarrow> cred_step e st = Some st' \<Longrightarrow> cred_wf st'"
  by (cases e) (auto simp: cred_wf_def cred_defs Let_def hm_wf_insert hm_wf_remove hm_wf_retain hm_wf_fold_remove
      split: if_splits option.splits)

text \<open>What a step does to the password of one owner and connection.\<close>

abbreviation cred_at :: "string \<Rightarrow> string \<Rightarrow> SessionCredentialState \<Rightarrow> SessionCredential option" where
  "cred_at owner conn st \<equiv> map_of (credentials st) (credential_key owner conn)"

lemma credential_key_inj [simp]: "credential_key o1 c1 = credential_key o2 c2 \<longleftrightarrow> o1 = o2 \<and> c1 = c2"
  by (simp add: credential_key_def)

lemma credential_key_fields [simp]:
  "owner_scope (credential_key owner conn) = owner" "connection_id (credential_key owner conn) = conn"
  by (simp_all add: credential_key_def)

lemma cred_step_at:
  assumes "cred_wf st" "cred_step e st = Some st'"
  shows "cred_at owner conn st' = cred_at owner conn st \<and> \<not> touches owner conn e
    \<or> cred_at owner conn st' = None
    \<or> (\<exists>pw. e = SetPassword owner conn pw \<and> pw \<noteq> [] \<and>
         cred_at owner conn st' = Some \<lparr>password = pw, generation = next_generation st + 1\<rparr>)"
  using assms
  by (cases e) (auto simp: cred_wf_def cred_defs Let_def hmap_simps map_of_hm_retain
      split: if_splits option.splits)

lemma cred_step_generation:
  assumes "cred_step e st = Some st'"
  shows "next_generation st \<le> next_generation st'" "e = SetPassword owner conn pw \<Longrightarrow> pw \<noteq> [] \<Longrightarrow> next_generation st' = next_generation st + 1"
  using assms by (cases e; auto simp: cred_defs Let_def split: if_splits option.splits)+

section \<open>Laws of histories\<close>

lemma cred_wf_new: "cred_wf store_new"
  by (simp add: cred_wf_def store_new_def)

lemma cred_run_wf: "cred_wf st \<Longrightarrow> cred_run es st = Some st' \<Longrightarrow> cred_wf st'"
  by (induction es arbitrary: st) (auto simp: bind_eq_Some_conv dest: cred_step_wf)

text \<open>A password that is read is the last one written for that owner and connection.\<close>

lemma cred_run_at:
  assumes "cred_wf st" "cred_run es st = Some st'" "cred_at owner conn st' = Some c"
  shows "cred_at owner conn st = Some c \<and> list_all (\<lambda>e. \<not> touches owner conn e) es
    \<or> (\<exists>before after. es = before @ SetPassword owner conn (password c) # after \<and> password c \<noteq> [] \<and>
         list_all (\<lambda>e. \<not> touches owner conn e) after)"
  using assms
proof (induction es arbitrary: st)
  case (Cons e es)
  obtain st1 where s: "cred_step e st = Some st1" "cred_run es st1 = Some st'"
    using Cons.prems(2) by (auto simp: bind_eq_Some_conv)
  from Cons.IH [OF cred_step_wf [OF Cons.prems(1) s(1)] s(2) Cons.prems(3)]
  show ?case
  proof
    assume "cred_at owner conn st1 = Some c \<and> list_all (\<lambda>e. \<not> touches owner conn e) es"
    then show ?thesis
      using cred_step_at [OF Cons.prems(1) s(1), of owner conn]
      by (auto intro: exI [of _ "[]"] exI [of _ es])
  next
    assume "\<exists>before after. es = before @ SetPassword owner conn (password c) # after \<and> password c \<noteq> [] \<and>
      list_all (\<lambda>e. \<not> touches owner conn e) after"
    then show ?thesis by (metis append_Cons)
  qed
qed simp

text \<open>As long as a credential keeps its generation, nothing has touched it.\<close>

lemma cred_run_generation:
  assumes "cred_wf st" "cred_run es st = Some st'" "cred_at owner conn st' = Some c" "generation c \<le> next_generation st"
  shows "cred_at owner conn st = Some c \<and> list_all (\<lambda>e. \<not> touches owner conn e) es"
  using assms
proof (induction es arbitrary: st)
  case (Cons e es)
  obtain st1 where s: "cred_step e st = Some st1" "cred_run es st1 = Some st'"
    using Cons.prems(2) by (auto simp: bind_eq_Some_conv)
  have "generation c \<le> next_generation st1" using Cons.prems(4) cred_step_generation(1) [OF s(1)] by simp
  from Cons.IH [OF cred_step_wf [OF Cons.prems(1) s(1)] s(2) Cons.prems(3) this]
  show ?case using cred_step_at [OF Cons.prems(1) s(1), of owner conn] Cons.prems(4) by auto
qed simp

text \<open>
  C20: a session only ever reads a password that the same owner wrote for the same connection, the last
  one, and only while nothing has forgotten it since: neither a removal nor the end of the owner's
  session nor an edit of the connection lies between the write and the read, in any order in which the
  operations of all owners take place.
\<close>

theorem owner_reads_own_writes:
  assumes "cred_run es store_new = Some st" "get_credential owner conn st = Some pw"
  shows "\<exists>before after. es = before @ SetPassword owner conn pw # after \<and> pw \<noteq> [] \<and>
    list_all (\<lambda>e. \<not> touches owner conn e) after"
proof -
  obtain c where c: "cred_at owner conn st = Some c" "password c = pw" using assms(2) by (auto simp: get_credential_def)
  from cred_run_at [OF cred_wf_new assms(1) c(1)] c(2) show ?thesis by (auto simp: store_new_def)
qed

theorem owner_reads_own_writes_witness:
  "\<exists>before after. [SetPassword ''ann'' ''db'' ''p1'', SetPassword ''bob'' ''db'' ''p2'', ClearOwner ''bob''] =
     before @ SetPassword ''ann'' ''db'' ''p1'' # after \<and> ''p1'' \<noteq> [] \<and> list_all (\<lambda>e. \<not> touches ''ann'' ''db'' e) after"
proof -
  obtain st where st: "cred_run [SetPassword ''ann'' ''db'' ''p1'', SetPassword ''bob'' ''db'' ''p2'', ClearOwner ''bob''] store_new = Some st"
      "get_credential ''ann'' ''db'' st = Some ''p1''"
    by (simp add: cred_defs Let_def store_new_def get_credential_def credential_key_def hm_insert_def hm_retain_def)
  show ?thesis by (rule owner_reads_own_writes [OF st])
qed



text \<open>Forgetting a connection forgets its passwords for every owner and purpose, its pools, and nothing else.\<close>

lemma clear_connection_forgets:
  assumes "cred_wf st"
  shows "get_credential owner conn (clear_connection conn st) = None"
    "get_for_purpose owner conn use (clear_connection conn st) = None"
    "pool_owner_mismatch conn owner (clear_connection conn st)"
    "pool_owner_mismatch (conn @ '':'' @ k) owner (clear_connection conn st)"
    "other \<noteq> conn \<Longrightarrow> get_credential owner other (clear_connection conn st) = get_credential owner other st"
  using assms
  by (auto simp: cred_wf_def clear_connection_def get_credential_def get_for_purpose_def pool_owner_mismatch_def
      map_of_hm_retain purpose_key_def starts_with_def split: option.split)

end
