(* ===== verification/Task_Supervisor.thy ===== *)
theory Task_Supervisor
  imports Prelude
begin

text \<open>
  Background tasks, \<^verbatim>\<open>crates/dbx-core/src/connection/task_supervisor.rs\<close>. The supervisor keeps a handle
  per key; the tasks themselves belong to the runtime, which is represented by the tasks that are still
  live: an aborted task stops at its next await, and a one-shot task whose body has returned takes its
  own entry off the map with no await in between, so an abort no longer reaches it.

  Every operation that takes the lock is one step. A shutdown is four: it stops accepting, cancels the
  token, drains the handles, and drops them when they have been waited for or the deadline has passed.
\<close>

section \<open>State\<close>

record task =
  t_key :: string
  t_once :: bool
  t_ended :: bool
  t_abort :: bool

record TaskSupervisor =
  accepting :: bool
  cancelled :: bool
  tasks :: "(string, nat) hmap"
  live :: "(nat, task) hmap"
  held :: "nat list"
  next_id :: nat

definition supervisor_new :: TaskSupervisor where
  "supervisor_new = \<lparr>accepting = True, cancelled = False, tasks = [], live = [], held = [], next_id = 0\<rparr>"

section \<open>Operations\<close>

definition abort :: "nat \<Rightarrow> TaskSupervisor \<Rightarrow> TaskSupervisor" where
  "abort i st = (case map_of (live st) i of
     None \<Rightarrow> st
   | Some t \<Rightarrow> st\<lparr>live := hm_insert i (t\<lparr>t_abort := True\<rparr>) (live st)\<rparr>)"

definition spawn :: "string \<Rightarrow> bool \<Rightarrow> TaskSupervisor \<Rightarrow> TaskSupervisor" where
  "spawn key once st =
     st\<lparr>tasks := hm_insert key (next_id st) (tasks st),
        live := hm_insert (next_id st) \<lparr>t_key = key, t_once = once, t_ended = False, t_abort = False\<rparr> (live st),
        next_id := next_id st + 1\<rparr>"

definition spawn_replace :: "string \<Rightarrow> TaskSupervisor \<Rightarrow> bool \<times> TaskSupervisor" where
  "spawn_replace key st =
     (if \<not> accepting st then (False, st)
      else (True, (case map_of (tasks st) key of
              None \<Rightarrow> spawn key False st
            | Some previous \<Rightarrow> abort previous (spawn key False st))))"

definition spawn_once :: "string \<Rightarrow> TaskSupervisor \<Rightarrow> bool \<times> TaskSupervisor" where
  "spawn_once key st =
     (if \<not> accepting st \<or> map_of (tasks st) key \<noteq> None then (False, st) else (True, spawn key True st))"

definition stop :: "string \<Rightarrow> TaskSupervisor \<Rightarrow> TaskSupervisor" where
  "stop key st = (case map_of (tasks st) key of
     None \<Rightarrow> st
   | Some i \<Rightarrow> abort i (st\<lparr>tasks := hm_remove key (tasks st)\<rparr>))"

definition stop_many :: "string list \<Rightarrow> TaskSupervisor \<Rightarrow> TaskSupervisor" where
  "stop_many keys st = fold stop keys st"

definition active_count :: "TaskSupervisor \<Rightarrow> nat" where
  "active_count st = length (tasks st)"

definition remove_completed :: "string \<Rightarrow> TaskSupervisor \<Rightarrow> TaskSupervisor" where
  "remove_completed key st = st\<lparr>tasks := hm_remove key (tasks st)\<rparr>"

definition shutdown_store :: "TaskSupervisor \<Rightarrow> TaskSupervisor" where
  "shutdown_store st = st\<lparr>accepting := False\<rparr>"

definition shutdown_cancel :: "TaskSupervisor \<Rightarrow> TaskSupervisor" where
  "shutdown_cancel st = st\<lparr>cancelled := True\<rparr>"

definition shutdown_drain :: "TaskSupervisor \<Rightarrow> TaskSupervisor" where
  "shutdown_drain st = st\<lparr>tasks := [], held := held st @ map snd (tasks st)\<rparr>"

definition shutdown_drop :: "TaskSupervisor \<Rightarrow> TaskSupervisor" where
  "shutdown_drop st = (fold abort (held st) st)\<lparr>held := []\<rparr>"

section \<open>Steps\<close>

text \<open>
  The callers of the program name one-shot tasks and replaceable tasks differently, and stop only
  replaceable ones: \<open>once_key\<close> tells the names apart. A shutdown is a sequence of its four steps; the
  phase it has reached is part of the run.
\<close>

datatype shutdown_phase = Up | Closed | Cancelled | Drained | Down

inductive sup_run :: "(string \<Rightarrow> bool) \<Rightarrow> shutdown_phase \<Rightarrow> TaskSupervisor \<Rightarrow> bool" for once_key where
  run_new: "sup_run once_key Up supervisor_new"
| run_spawn_replace: "sup_run once_key ph st \<Longrightarrow> \<not> once_key key \<Longrightarrow> sup_run once_key ph (snd (spawn_replace key st))"
| run_spawn_once: "sup_run once_key ph st \<Longrightarrow> once_key key \<Longrightarrow> sup_run once_key ph (snd (spawn_once key st))"
| run_stop: "sup_run once_key ph st \<Longrightarrow> \<not> once_key key \<Longrightarrow> sup_run once_key ph (stop key st)"
| run_store: "sup_run once_key Up st \<Longrightarrow> sup_run once_key Closed (shutdown_store st)"
| run_cancel: "sup_run once_key Closed st \<Longrightarrow> sup_run once_key Cancelled (shutdown_cancel st)"
| run_drain: "sup_run once_key Cancelled st \<Longrightarrow> sup_run once_key Drained (shutdown_drain st)"
| run_drop: "sup_run once_key Drained st \<Longrightarrow> sup_run once_key Down (shutdown_drop st)"
| run_ends: "sup_run once_key ph st \<Longrightarrow> map_of (live st) i = Some t \<Longrightarrow> \<not> t_once t \<Longrightarrow>
    sup_run once_key ph (st\<lparr>live := hm_remove i (live st)\<rparr>)"
| run_aborted: "sup_run once_key ph st \<Longrightarrow> map_of (live st) i = Some t \<Longrightarrow> t_abort t \<Longrightarrow> \<not> t_ended t \<Longrightarrow>
    sup_run once_key ph (st\<lparr>live := hm_remove i (live st)\<rparr>)"
| run_body_ends: "sup_run once_key ph st \<Longrightarrow> map_of (live st) i = Some t \<Longrightarrow> t_once t \<Longrightarrow> \<not> t_ended t \<Longrightarrow>
    sup_run once_key ph (st\<lparr>live := hm_insert i (t\<lparr>t_ended := True\<rparr>) (live st)\<rparr>)"
| run_removes: "sup_run once_key ph st \<Longrightarrow> map_of (live st) i = Some t \<Longrightarrow> t_once t \<Longrightarrow> t_ended t \<Longrightarrow>
    sup_run once_key ph (remove_completed (t_key t) (st\<lparr>live := hm_remove i (live st)\<rparr>))"

section \<open>Every task is accounted for\<close>

definition tracked :: "TaskSupervisor \<Rightarrow> nat \<Rightarrow> task \<Rightarrow> bool" where
  "tracked st i t \<longleftrightarrow> map_of (tasks st) (t_key t) = Some i \<or> i \<in> set (held st)"

definition kept_track :: "(string \<Rightarrow> bool) \<Rightarrow> shutdown_phase \<Rightarrow> TaskSupervisor \<Rightarrow> nat \<Rightarrow> task \<Rightarrow> bool" where
  "kept_track once_key ph st i t \<longleftrightarrow>
     i < next_id st \<and> t_once t = once_key (t_key t) \<and> (\<not> t_abort t \<longrightarrow> tracked st i t) \<and>
     (t_once t \<and> ph \<notin> {Drained, Down} \<longrightarrow> \<not> t_abort t) \<and> (ph = Down \<longrightarrow> t_abort t)"

definition sup_inv :: "(string \<Rightarrow> bool) \<Rightarrow> shutdown_phase \<Rightarrow> TaskSupervisor \<Rightarrow> bool" where
  "sup_inv once_key ph st \<longleftrightarrow>
     (accepting st \<longleftrightarrow> ph = Up) \<and> (ph \<in> {Drained, Down} \<longrightarrow> tasks st = []) \<and> (ph \<noteq> Drained \<longrightarrow> held st = []) \<and>
     (\<forall>k i. map_of (tasks st) k = Some i \<longrightarrow> i < next_id st \<and> (\<forall>t. map_of (live st) i = Some t \<longrightarrow> t_key t = k)) \<and>
     (\<forall>i t. map_of (live st) i = Some t \<longrightarrow> kept_track once_key ph st i t)"

lemma sup_invD:
  assumes "sup_inv once_key ph st"
  shows "accepting st \<longleftrightarrow> ph = Up" "ph \<in> {Drained, Down} \<Longrightarrow> tasks st = []" "ph \<noteq> Drained \<Longrightarrow> held st = []"
    "map_of (tasks st) k = Some i \<Longrightarrow> i < next_id st"
    "map_of (tasks st) k = Some i \<Longrightarrow> map_of (live st) i = Some t \<Longrightarrow> t_key t = k"
    "map_of (live st) i = Some t \<Longrightarrow> kept_track once_key ph st i t"
  using assms by (simp_all add: sup_inv_def)

lemma abort_fields [simp]:
  "accepting (abort i st) = accepting st" "tasks (abort i st) = tasks st" "held (abort i st) = held st"
  "next_id (abort i st) = next_id st"
  by (simp_all add: abort_def split: option.split)

lemma live_abort:
  "map_of (live (abort i st)) j = (case map_of (live st) j of
     None \<Rightarrow> None | Some t \<Rightarrow> Some (if j = i then t\<lparr>t_abort := True\<rparr> else t))"
  by (auto simp: abort_def hmap_simps split: option.split)

lemma live_abortE:
  assumes "map_of (live (abort i st)) j = Some t"
  obtains u where "map_of (live st) j = Some u" "t = (if j = i then u\<lparr>t_abort := True\<rparr> else u)"
  using assms by (auto simp: live_abort split: option.splits)

lemma fold_abort_fields [simp]:
  "accepting (fold abort is st) = accepting st" "tasks (fold abort is st) = tasks st" "next_id (fold abort is st) = next_id st"
  by (induction "is" arbitrary: st) simp_all

lemma live_fold_abort:
  "map_of (live (fold abort is st)) j = (case map_of (live st) j of
     None \<Rightarrow> None | Some t \<Rightarrow> Some (if j \<in> set is then t\<lparr>t_abort := True\<rparr> else t))"
  by (induction "is" arbitrary: st) (auto simp: live_abort split: option.split)

lemma sup_inv_spawn_replace:
  assumes inv: "sup_inv once_key Up st" and "\<not> once_key key"
  shows "sup_inv once_key Up (snd (spawn_replace key st))"
proof -
  note d = sup_invD [OF inv]
  have h: "held st = []" "accepting st" using d(1,3) by simp_all
  define st' where "st' = snd (spawn_replace key st)"
  have f: "accepting st'" "held st' = []" "next_id st' = next_id st + 1" "map_of (tasks st') = (map_of (tasks st))(key \<mapsto> next_id st)"
    using h by (simp_all add: st'_def spawn_replace_def spawn_def hmap_simps split: option.split)
  have l: "(j = next_id st \<and> t = \<lparr>t_key = key, t_once = False, t_ended = False, t_abort = False\<rparr>)
      \<or> (j \<noteq> next_id st \<and> (\<exists>u. map_of (live st) j = Some u \<and> t = (if map_of (tasks st) key = Some j then u\<lparr>t_abort := True\<rparr> else u)))"
    if "map_of (live st') j = Some t" for j t
    using that h d(4) [of key] by (auto simp: st'_def spawn_replace_def spawn_def hmap_simps live_abort split: option.splits if_splits)
  have "kept_track once_key Up st' j t" if "map_of (live st') j = Some t" for j t
    using l [OF that]
  proof (elim disjE conjE exE)
    assume "j = next_id st" "t = \<lparr>t_key = key, t_once = False, t_ended = False, t_abort = False\<rparr>"
    then show ?thesis using assms(2) f by (simp add: kept_track_def tracked_def)
  next
    fix u
    assume u: "j \<noteq> next_id st" "map_of (live st) j = Some u" "t = (if map_of (tasks st) key = Some j then u\<lparr>t_abort := True\<rparr> else u)"
    have "kept_track once_key Up st j u" by (rule d(6) [OF u(2)])
    then show ?thesis using u f h assms(2) d(5) [of key j u] by (auto simp: kept_track_def tracked_def)
  qed
  moreover have "i < next_id st' \<and> (\<forall>t. map_of (live st') i = Some t \<longrightarrow> t_key t = k)" if "map_of (tasks st') k = Some i" for k i
    using that l d(4) [of k i] d(5) [of k i] f by (fastforce split: if_splits)
  ultimately show ?thesis unfolding st'_def [symmetric] by (simp add: sup_inv_def f)
qed

lemma sup_inv_spawn_once:
  assumes inv: "sup_inv once_key ph st" and "once_key key"
  shows "sup_inv once_key ph (snd (spawn_once key st))"
proof (cases "accepting st \<and> map_of (tasks st) key = None")
  case True
  note d = sup_invD [OF inv]
  have ph: "ph = Up" "held st = []" using True d(1,3) by auto
  have "kept_track once_key Up (spawn key True st) j t" if "map_of (live (spawn key True st)) j = Some t" for j t
  proof (cases "j = next_id st")
    case False
    then have "kept_track once_key Up st j t" using that d(6) ph by (simp add: spawn_def hmap_simps)
    then show ?thesis using True ph by (auto simp: kept_track_def tracked_def spawn_def hmap_simps)
  qed (use that assms(2) in \<open>auto simp: kept_track_def tracked_def spawn_def hmap_simps\<close>)
  moreover have "i < next_id (spawn key True st) \<and> (\<forall>t. map_of (live (spawn key True st)) i = Some t \<longrightarrow> t_key t = k)"
    if "map_of (tasks (spawn key True st)) k = Some i" for k i
    using that d(4) [of k i] d(5) [of k i] by (auto simp: spawn_def hmap_simps split: if_splits)
  ultimately show ?thesis using True ph by (simp add: spawn_once_def sup_inv_def spawn_def)
qed (use inv in \<open>auto simp: spawn_once_def\<close>)

lemma sup_inv_stop:
  assumes inv: "sup_inv once_key ph st" and "\<not> once_key key"
  shows "sup_inv once_key ph (stop key st)"
proof (cases "map_of (tasks st) key")
  case (Some p)
  note d = sup_invD [OF inv]
  let ?st = "abort p (st\<lparr>tasks := hm_remove key (tasks st)\<rparr>)"
  have t: "kept_track once_key ph ?st j t" if l: "map_of (live ?st) j = Some t" for j t
  proof -
    obtain u where u: "map_of (live st) j = Some u" "t = (if j = p then u\<lparr>t_abort := True\<rparr> else u)"
      using live_abortE [OF l] by auto
    show ?thesis
      using d(6) [OF u(1)] u d(5) [OF Some, of u] Some assms(2)
      by (cases "j = p") (auto simp: kept_track_def tracked_def hmap_simps)
  qed
  have k: "i < next_id st \<and> (\<forall>t. map_of (live ?st) i = Some t \<longrightarrow> t_key t = k)" if m: "map_of (tasks ?st) k = Some i" for k i
  proof -
    have "map_of (tasks st) k = Some i" using m by (auto simp: hmap_simps split: if_splits)
    then show ?thesis using d(4,5) [of k i] by (auto elim!: live_abortE)
  qed
  have "ph \<notin> {Drained, Down}" using d(2) Some by auto
  then show ?thesis using d(1,3) t k Some by (simp add: sup_inv_def stop_def)
qed (use inv in \<open>simp add: stop_def\<close>)

lemma sup_inv_live:
  assumes inv: "sup_inv once_key ph st"
    and "\<And>j t. map_of (live st') j = Some t \<Longrightarrow> \<exists>u. map_of (live st) j = Some u \<and> t_key t = t_key u \<and> t_once t = t_once u \<and> t_abort t = t_abort u"
    and "st' = st\<lparr>live := live st'\<rparr>"
  shows "sup_inv once_key ph st'"
proof -
  note d = sup_invD [OF inv]
  have f: "accepting st' = accepting st" "tasks st' = tasks st" "held st' = held st" "next_id st' = next_id st"
    by (subst assms(3), simp)+
  have "kept_track once_key ph st' j t" if "map_of (live st') j = Some t" for j t
    using assms(2) [OF that] d(6) [of j] by (auto simp: kept_track_def tracked_def f)
  moreover have "t_key t = k" if "map_of (tasks st) k = Some i" "map_of (live st') i = Some t" for k i t
    using assms(2) [OF that(2)] d(5) [OF that(1)] by auto
  ultimately show ?thesis using d by (simp add: sup_inv_def f)
qed

lemma sup_inv_removes:
  assumes inv: "sup_inv once_key ph st" and i: "map_of (live st) i = Some t" "t_once t"
  shows "sup_inv once_key ph (remove_completed (t_key t) (st\<lparr>live := hm_remove i (live st)\<rparr>))"
proof -
  note d = sup_invD [OF inv]
  have own: "j = i" if "map_of (tasks st) (t_key t) = Some j" for j
    using d(2,3) d(6) [OF i(1)] i(2) that by (cases ph) (auto simp: kept_track_def tracked_def)
  have "kept_track once_key ph (remove_completed (t_key t) (st\<lparr>live := hm_remove i (live st)\<rparr>)) j u"
    if "map_of (live st) j = Some u" "j \<noteq> i" for j u
    using d(6) [OF that(1)] own [of j] that(2) by (auto simp: kept_track_def tracked_def remove_completed_def hmap_simps)
  then show ?thesis
    using d by (auto simp: sup_inv_def remove_completed_def hmap_simps hm_remove_def [of _ "[]"] split: if_splits)
qed

lemma sup_inv_drain:
  assumes inv: "sup_inv once_key Cancelled st"
  shows "sup_inv once_key Drained (shutdown_drain st)"
proof -
  note d = sup_invD [OF inv]
  have "kept_track once_key Drained (shutdown_drain st) i t" if l: "map_of (live st) i = Some t" for i t
  proof -
    have "i \<in> set (map snd (tasks st))" if "map_of (tasks st) (t_key t) = Some i"
      using map_of_SomeD [OF that] by force
    then show ?thesis using d(6) [OF l] by (auto simp: kept_track_def tracked_def shutdown_drain_def)
  qed
  then show ?thesis using d(1) by (simp add: sup_inv_def shutdown_drain_def)
qed

lemma sup_inv_drop: "sup_inv once_key Drained st \<Longrightarrow> sup_inv once_key Down (shutdown_drop st)"
  by (fastforce simp: sup_inv_def shutdown_drop_def kept_track_def tracked_def live_fold_abort split: option.splits)

lemma sup_run_inv: "sup_run once_key ph st \<Longrightarrow> sup_inv once_key ph st"
proof (induction rule: sup_run.induct)
  case run_new
  show ?case by (simp add: sup_inv_def supervisor_new_def)
next
  case (run_spawn_replace ph st key)
  show ?case
  proof (cases "ph = Up")
    case False
    then show ?thesis using run_spawn_replace sup_invD(1) by (auto simp: spawn_replace_def)
  qed (use run_spawn_replace sup_inv_spawn_replace in auto)
next
  case (run_store st)
  then show ?case by (auto simp: sup_inv_def shutdown_store_def kept_track_def tracked_def)
next
  case (run_cancel st)
  then show ?case by (auto simp: sup_inv_def shutdown_cancel_def kept_track_def tracked_def)
next
  case (run_ends ph st i t)
  show ?case by (rule sup_inv_live [OF run_ends(4)]) (auto simp: hmap_simps split: if_splits)
next
  case (run_aborted ph st i t)
  show ?case by (rule sup_inv_live [OF run_aborted(5)]) (auto simp: hmap_simps split: if_splits)
next
  case (run_body_ends ph st i t)
  show ?case by (rule sup_inv_live [OF run_body_ends(5)]) (use run_body_ends(2) in \<open>auto simp: hmap_simps split: if_splits\<close>)
qed (auto intro: sup_inv_spawn_once sup_inv_stop sup_inv_removes sup_inv_drain sup_inv_drop)

text \<open>
  C10: no background task is lost. At any moment, in any interleaving of spawns, stops, ends of tasks and
  a shutdown, a task that is still live and has not been told to stop is the one its key points to, or
  is among the handles a shutdown holds; and once a shutdown is through, no task is accepted, none is
  registered and every task that is still live has been told to stop.
\<close>

theorem tasks_accounted_for:
  assumes "sup_run once_key ph st" "map_of (live st) i = Some t"
  shows "(t_abort t \<or> map_of (tasks st) (t_key t) = Some i \<or> i \<in> set (held st)) \<and>
    (ph = Down \<longrightarrow> \<not> accepting st \<and> active_count st = 0 \<and> t_abort t)"
proof -
  note d = sup_invD [OF sup_run_inv [OF assms(1)]]
  show ?thesis using d(1,2) d(6) [OF assms(2)] by (auto simp: kept_track_def tracked_def active_count_def)
qed

theorem tasks_accounted_for_witness:
  "map_of (tasks (snd (spawn_once ''close:1'' supervisor_new))) ''close:1'' = Some 0"
proof -
  have run: "sup_run (\<lambda>k. k = ''close:1'') Up (snd (spawn_once ''close:1'' supervisor_new))"
    by (rule run_spawn_once [OF run_new]) simp
  have "map_of (live (snd (spawn_once ''close:1'' supervisor_new))) 0 =
      Some \<lparr>t_key = ''close:1'', t_once = True, t_ended = False, t_abort = False\<rparr>"
    by (simp add: spawn_once_def spawn_def supervisor_new_def hmap_simps)
  from tasks_accounted_for [OF run this] show ?thesis
    by (simp add: spawn_once_def spawn_def supervisor_new_def)
qed

end
