(* ===== verification/Http_Auth.thy ===== *)
theory Http_Auth
  imports Prelude
begin

text \<open>
  Admission of requests to the MCP endpoint over HTTP, \<^verbatim>\<open>crates/dbx-mcp/src/http_auth.rs\<close>: the bearer
  token, the origins and the hosts, and their replacement while the server runs.

  Parsing of URLs, of authorities and of IP addresses is done by libraries; they are an argument, one
  record of functions. The configuration sits behind a lock that every operation takes once, so a
  history is a sequence of operations. Log lines are left out.
\<close>

unbundle bit_operations_syntax

section \<open>Libraries\<close>

record parsed_url =
  url_scheme :: string
  url_host_str :: "string option"
  url_path :: string
  url_query :: "string option"
  url_fragment :: "string option"
  url_origin_text :: string

record net_lib =
  url_parse :: "string \<Rightarrow> parsed_url option"
  authority_parse :: "string \<Rightarrow> (string \<times> 16 word option) option"
  is_ipv6 :: "string \<Rightarrow> bool"
  ip_loopback :: "string \<Rightarrow> bool option"

section \<open>Configuration\<close>

record HostRule =
  rule_host :: string
  rule_port :: "16 word option"

record HttpAuthConfig =
  token :: "string option"
  allowed_hosts :: "HostRule list"
  allowed_origins :: "string list"
  allow_loopback_origins :: bool

fun contains_ws :: "string \<Rightarrow> bool" where
  "contains_ws [] = False"
| "contains_ws (c # s) = (starts_ws ws1 ws2 ws3 (c # s) \<or> contains_ws s)"

definition validate_token :: "string option \<Rightarrow> string + string option" where
  "validate_token t = (case t of
     None \<Rightarrow> Inr None
   | Some t \<Rightarrow>
       (let t = trim t
        in if t = [] \<or> contains_ws t then Inl ''MCP HTTP bearer token must be non-empty and contain no whitespace''
           else Inr (Some t)))"

definition normalize_origin :: "net_lib \<Rightarrow> string \<Rightarrow> string + string" where
  "normalize_origin lib origin = (case url_parse lib origin of
     None \<Rightarrow> Inl (''invalid allowed origin: '' @ origin)
   | Some url \<Rightarrow>
       if \<not> (url_scheme url = ''http'' \<or> url_scheme url = ''https'') \<or> url_host_str url = None \<or> url_path url \<noteq> ''/'' \<or>
          url_query url \<noteq> None \<or> url_fragment url \<noteq> None
       then Inl (''allowed origin must be an HTTP(S) origin without a path: '' @ origin)
       else Inr (url_origin_text url))"

definition parse_host_rule :: "net_lib \<Rightarrow> string \<Rightarrow> string + HostRule" where
  "parse_host_rule lib v =
     (let v = trim v; normalized = (if is_ipv6 lib v then ''['' @ v @ '']'' else v)
      in case authority_parse lib normalized of
           None \<Rightarrow> Inl (''invalid allowed host: '' @ v)
         | Some (host, port) \<Rightarrow>
             if CHR ''@'' \<in> set v then Inl (''invalid allowed host: '' @ v)
             else if host = [] then Inl (''invalid allowed host: '' @ v)
             else Inr \<lparr>rule_host = to_ascii_lowercase host, rule_port = port\<rparr>)"

fun collect_results :: "('a \<Rightarrow> 'e + 'b) \<Rightarrow> 'a list \<Rightarrow> 'e + 'b list" where
  "collect_results f [] = Inr []"
| "collect_results f (x # xs) =
     (case f x of Inl e \<Rightarrow> Inl e | Inr y \<Rightarrow> map_sum id ((#) y) (collect_results f xs))"

definition normalize_origins :: "net_lib \<Rightarrow> string list \<Rightarrow> string + string list" where
  "normalize_origins lib origins = collect_results (normalize_origin lib) origins"

definition normalize_hosts :: "net_lib \<Rightarrow> string list \<Rightarrow> string + HostRule list" where
  "normalize_hosts lib hosts = collect_results (parse_host_rule lib) hosts"

definition new_with_hosts ::
  "net_lib \<Rightarrow> string option \<Rightarrow> string list \<Rightarrow> string list \<Rightarrow> bool \<Rightarrow> string + HttpAuthConfig" where
  "new_with_hosts lib tok hosts origins loopback =
     (case validate_token tok of
        Inl e \<Rightarrow> Inl e
      | Inr t \<Rightarrow> (case normalize_hosts lib hosts of
          Inl e \<Rightarrow> Inl e
        | Inr hs \<Rightarrow> (case normalize_origins lib origins of
            Inl e \<Rightarrow> Inl e
          | Inr os \<Rightarrow> Inr \<lparr>token = t, allowed_hosts = hs, allowed_origins = os, allow_loopback_origins = loopback\<rparr>)))"

definition auth_new :: "net_lib \<Rightarrow> string \<Rightarrow> string list \<Rightarrow> bool \<Rightarrow> string + HttpAuthConfig" where
  "auth_new lib tok origins loopback = new_with_hosts lib (Some tok) [] origins loopback"

text \<open>An error leaves the configuration as it was.\<close>

definition reconfigure ::
  "net_lib \<Rightarrow> string option \<Rightarrow> string list \<Rightarrow> string list \<Rightarrow> HttpAuthConfig \<Rightarrow> (string + unit) \<times> HttpAuthConfig" where
  "reconfigure lib tok hosts origins config =
     (case new_with_hosts lib tok hosts origins (allow_loopback_origins config) of
        Inl e \<Rightarrow> (Inl e, config)
      | Inr next_config \<Rightarrow> (Inr (), next_config))"

definition set_allowed_hosts :: "net_lib \<Rightarrow> string list \<Rightarrow> HttpAuthConfig \<Rightarrow> (string + unit) \<times> HttpAuthConfig" where
  "set_allowed_hosts lib hosts config = (case normalize_hosts lib hosts of
     Inl e \<Rightarrow> (Inl e, config)
   | Inr hs \<Rightarrow> (Inr (), config\<lparr>allowed_hosts := hs\<rparr>))"

definition enabled :: "HttpAuthConfig \<Rightarrow> bool" where
  "enabled config \<longleftrightarrow> token config \<noteq> None"

section \<open>Requests\<close>

definition byte_difference :: "string \<Rightarrow> string \<Rightarrow> nat" where
  "byte_difference a b = foldl (\<lambda>difference (expected, actual). difference OR (byte expected XOR byte actual)) 0 (zip a b)"

definition token_matches :: "HttpAuthConfig \<Rightarrow> string \<Rightarrow> bool" where
  "token_matches config candidate = (case token config of
     None \<Rightarrow> False
   | Some t \<Rightarrow> if length candidate \<noteq> length t then False else byte_difference t candidate = 0)"

definition origin_is_loopback :: "net_lib \<Rightarrow> string \<Rightarrow> bool" where
  "origin_is_loopback lib origin = (case url_parse lib origin of
     None \<Rightarrow> False
   | Some url \<Rightarrow> (case url_host_str url of
       None \<Rightarrow> False
     | Some host \<Rightarrow> host = ''localhost'' \<or> ip_loopback lib host = Some True))"

definition origin_is_allowed :: "net_lib \<Rightarrow> HttpAuthConfig \<Rightarrow> string \<Rightarrow> bool" where
  "origin_is_allowed lib config origin = (case normalize_origin lib origin of
     Inl _ \<Rightarrow> False
   | Inr origin \<Rightarrow> origin \<in> set (allowed_origins config) \<or> allow_loopback_origins config \<and> origin_is_loopback lib origin)"

text \<open>\<^verbatim>\<open>HeaderValue::to_str\<close> succeeds on visible ASCII and tabs.\<close>

definition to_str :: "string \<Rightarrow> string option" where
  "to_str v = (if list_all (\<lambda>c. (32 \<le> byte c \<and> byte c < 127) \<or> byte c = 9) v then Some v else None)"

record http_request =
  req_authority :: "string option"
  req_host :: "string option"
  req_origin :: "string option"
  req_authorization :: "string option"

definition host_is_allowed :: "net_lib \<Rightarrow> HttpAuthConfig \<Rightarrow> http_request \<Rightarrow> bool" where
  "host_is_allowed lib config req =
     (let authority = option_or (Option.bind (req_host req) to_str) (req_authority req)
      in case Option.bind authority (\<lambda>v. case parse_host_rule lib v of Inl _ \<Rightarrow> None | Inr r \<Rightarrow> Some r) of
           None \<Rightarrow> False
         | Some a \<Rightarrow>
             allowed_hosts config = [] \<or>
             list_ex (\<lambda>allowed. rule_host allowed = rule_host a \<and>
                is_none_or (\<lambda>port. rule_port a = Some port) (rule_port allowed)) (allowed_hosts config))"

definition bearer_token :: "string option \<Rightarrow> string option" where
  "bearer_token v =
     Option.bind (Option.bind v to_str) (\<lambda>v.
       Option.bind (split_once '' '' v) (\<lambda>(scheme, tok).
         if to_ascii_lowercase scheme = ''bearer'' \<and> tok \<noteq> [] \<and> \<not> contains_ws tok then Some tok else None))"

datatype admission = NotFound | Forbidden | Unauthorized | Passed

definition authorize_request :: "net_lib \<Rightarrow> HttpAuthConfig \<Rightarrow> http_request \<Rightarrow> admission" where
  "authorize_request lib config req =
     (if token config = None then NotFound
      else if \<not> (case req_origin req of
               None \<Rightarrow> True
             | Some origin \<Rightarrow> (case to_str origin of None \<Rightarrow> False | Some origin \<Rightarrow> origin_is_allowed lib config origin))
        then Forbidden
      else if \<not> host_is_allowed lib config req then Forbidden
      else (case bearer_token (req_authorization req) of
          None \<Rightarrow> Unauthorized
        | Some tok \<Rightarrow> if token_matches config tok then Passed else Unauthorized))"

section \<open>The token\<close>

lemma xor_zero: "(a :: nat) XOR b = 0 \<longleftrightarrow> a = b"
  by (auto simp: bit_eq_iff bit_xor_iff)

lemma or_zero: "(a :: nat) OR b = 0 \<longleftrightarrow> a = 0 \<and> b = 0"
  by (auto simp: bit_eq_iff bit_or_iff)

lemma difference_zero:
  "foldl (\<lambda>d (e, a). d OR (byte e XOR byte a)) d ps = 0 \<longleftrightarrow> d = 0 \<and> list_all (\<lambda>(e, a). e = a) ps"
proof (induction ps arbitrary: d)
  case (Cons p ps)
  obtain e a where p: "p = (e, a)" by (cases p)
  show ?case unfolding p by (simp only: foldl_Cons prod.case Cons.IH or_zero xor_zero of_char_eq_iff list.pred_inject conj_assoc)
qed simp

text \<open>Comparing without looking at where the texts differ is comparing them.\<close>

lemma token_matches_iff: "token_matches config candidate \<longleftrightarrow> token config = Some candidate"
proof (cases "token config")
  case (Some t)
  have "list_all (\<lambda>(e, a). e = a) (zip t candidate) \<longleftrightarrow> t = candidate" if "length candidate = length t"
    using that by (auto simp: list_all_length list_eq_iff_nth_eq)
  then show ?thesis using Some by (auto simp: token_matches_def byte_difference_def difference_zero)
qed (simp add: token_matches_def)

text \<open>A configuration that was made, replaced or changed by the operations.\<close>

inductive auth_reach :: "net_lib \<Rightarrow> HttpAuthConfig \<Rightarrow> bool" for lib where
  reach_new: "new_with_hosts lib tok hosts origins loopback = Inr config \<Longrightarrow> auth_reach lib config"
| reach_reconfigure: "auth_reach lib config \<Longrightarrow> auth_reach lib (snd (reconfigure lib tok hosts origins config))"
| reach_hosts: "auth_reach lib config \<Longrightarrow> auth_reach lib (snd (set_allowed_hosts lib hosts config))"

definition token_ok :: "HttpAuthConfig \<Rightarrow> bool" where
  "token_ok config = (case token config of None \<Rightarrow> True | Some t \<Rightarrow> t \<noteq> [] \<and> \<not> contains_ws t)"

lemma new_token_ok: "new_with_hosts lib tok hosts origins loopback = Inr config \<Longrightarrow> token_ok config"
  by (auto simp: new_with_hosts_def validate_token_def Let_def token_ok_def split: sum.splits option.splits if_splits)

lemma auth_reach_token: "auth_reach lib config \<Longrightarrow> token_ok config"
proof (induction rule: auth_reach.induct)
  case (reach_reconfigure config tok hosts origins)
  then show ?case using new_token_ok by (auto simp: reconfigure_def split: sum.split)
next
  case (reach_hosts config hosts)
  then show ?case by (auto simp: set_allowed_hosts_def token_ok_def split: sum.split)
qed (rule new_token_ok)

section \<open>Admission\<close>

lemma split_once_space:
  "split_once '' '' v = Some (a, b) \<longleftrightarrow> v = a @ CHR '' '' # b \<and> CHR '' '' \<notin> set a"
proof (induction v arbitrary: a)
  case (Cons c v)
  then show ?case by (cases a) (auto simp: strip_prefix_def)
qed simp

lemma bearer_no_space: "to_ascii_lowercase scheme = ''bearer'' \<Longrightarrow> CHR '' '' \<notin> set scheme"
proof
  assume l: "to_ascii_lowercase scheme = ''bearer''" and "CHR '' '' \<in> set scheme"
  then have "ascii_lower (CHR '' '') \<in> set ''bearer''" unfolding to_ascii_lowercase_def by (metis image_eqI set_map)
  then show False by (simp add: ascii_lower_def)
qed

lemma bearer_token_iff:
  "bearer_token h = Some t \<longleftrightarrow>
     (\<exists>scheme. h = Some (scheme @ CHR '' '' # t) \<and> to_str (scheme @ CHR '' '' # t) \<noteq> None \<and>
        to_ascii_lowercase scheme = ''bearer'' \<and> t \<noteq> [] \<and> \<not> contains_ws t)"
proof -
  have v: "Option.bind h to_str = Some v \<longleftrightarrow> h = Some v \<and> to_str v \<noteq> None" for v
    by (auto simp: to_str_def bind_eq_Some_conv split: if_splits)
  show ?thesis
    unfolding bearer_token_def bind_eq_Some_conv [of "Option.bind h to_str"] bind_eq_Some_conv [of "split_once '' '' _"] v
    using bearer_no_space by (auto simp: split_once_space split: if_splits)
qed

definition origin_ok :: "net_lib \<Rightarrow> HttpAuthConfig \<Rightarrow> http_request \<Rightarrow> bool" where
  "origin_ok lib config req = (case req_origin req of
     None \<Rightarrow> True
   | Some origin \<Rightarrow> to_str origin \<noteq> None \<and> origin_is_allowed lib config origin)"

lemma to_str_Some: "to_str v = Some w \<Longrightarrow> w = v"
  by (simp add: to_str_def split: if_splits)


definition sample_lib :: net_lib where
  "sample_lib = \<lparr>url_parse = (\<lambda>_. None), authority_parse = (\<lambda>v. Some (v, None)), is_ipv6 = (\<lambda>_. False), ip_loopback = (\<lambda>_. None)\<rparr>"

definition sample_config :: HttpAuthConfig where
  "sample_config = \<lparr>token = Some ''t0k'', allowed_hosts = [], allowed_origins = [], allow_loopback_origins = False\<rparr>"

lemma sample_reach: "auth_reach sample_lib sample_config"
proof (rule reach_new)
  have "trim ''t0k'' = ''t0k''" "\<not> contains_ws ''t0k''" by code_simp+
  then show "new_with_hosts sample_lib (Some ''t0k'') [] [] False = Inr sample_config"
    by (simp add: new_with_hosts_def validate_token_def normalize_hosts_def normalize_origins_def sample_config_def)
qed


text \<open>
  The text of an IPv6 host in a URL is in brackets, and a text in brackets is not an IP address, so an
  origin on the IPv6 loopback address is not recognised as loopback.
\<close>

lemma ipv6_origin_not_loopback:
  assumes "url_parse lib origin = Some url" "url_host_str url = Some (''['' @ a @ '']'')" "ip_loopback lib (''['' @ a @ '']'') = None"
  shows "\<not> origin_is_loopback lib origin"
  using assms by (simp add: origin_is_loopback_def)

end
