(* ===== verification/Schema_Cache.thy ===== *)
theory Schema_Cache
  imports Tool_Approval
begin

text \<open>
  The persistent cache of object metadata: its keys, \<^verbatim>\<open>crates/dbx-core/src/query/object_cache.rs\<close>, and the
  table \<^verbatim>\<open>schema_cache\<close> with its budgets, \<^verbatim>\<open>crates/dbx-core/src/persistence/storage.rs\<close>.

  The table is the map from keys to rows; each SQL statement is the function of the table it computes,
  text being compared by bytes and \<^verbatim>\<open>substr\<close> counting characters, as SQLite does. A failure of SQLite
  anywhere in a transaction rolls it back; whether and how it fails is an argument. Times are
  milliseconds, and the clock is an argument.
\<close>

section \<open>Keys\<close>

definition OBJECT_METADATA_CACHE_PREFIX :: string where
  "OBJECT_METADATA_CACHE_PREFIX = ''object-meta:v1''"

definition OBJECT_DDL_CACHE_PREFIX :: string where
  "OBJECT_DDL_CACHE_PREFIX = ''object-ddl:v1''"

definition unreserved :: "char \<Rightarrow> bool" where
  "unreserved c \<longleftrightarrow> (65 \<le> byte c \<and> byte c \<le> 90) \<or> (97 \<le> byte c \<and> byte c \<le> 122) \<or> (48 \<le> byte c \<and> byte c \<le> 57) \<or>
     c \<in> set ''-_.!~*()'' \<or> c = CHR 0x27"

definition HEX :: "nat \<Rightarrow> char" where
  "HEX n = ''0123456789ABCDEF'' ! n"

definition metadata_cache_segment :: "string \<Rightarrow> string" where
  "metadata_cache_segment v =
     concat (map (\<lambda>c. if unreserved c then [c] else [CHR ''%'', HEX (byte c div 16), HEX (byte c mod 16)]) v)"

definition object_metadata_cache_prefix :: "string \<Rightarrow> string \<Rightarrow> string" where
  "object_metadata_cache_prefix connection_id database =
     OBJECT_METADATA_CACHE_PREFIX @ '':'' @ metadata_cache_segment connection_id @ '':'' @ metadata_cache_segment database @ '':''"

text \<open>\<^verbatim>\<open>str::split(':')\<close>\<close>

fun split_colon :: "string \<Rightarrow> string list" where
  "split_colon [] = [[]]"
| "split_colon (c # s) = (if c = CHR '':'' then [] # split_colon s
     else (case split_colon s of [] \<Rightarrow> [[c]] | p # ps \<Rightarrow> (c # p) # ps))"

definition schema_cache_owner :: "string \<Rightarrow> string" where
  "schema_cache_owner cache_key = (case split_colon cache_key of
     a # b # owner # _ \<Rightarrow> if (a = ''object-ddl'' \<or> a = ''object-meta'') \<and> b = ''v1'' then owner else []
   | _ \<Rightarrow> [])"

section \<open>The table\<close>

record cache_row =
  row_payload :: string
  row_updated_at_ms :: int
  row_last_accessed_at_ms :: int
  row_byte_size :: int
  row_owner_id :: string

type_synonym schema_cache = "(string, cache_row) hmap"

record SchemaCachePolicy =
  max_total_bytes :: int
  max_connection_bytes :: int
  max_entries :: nat
  max_age_millis :: int

definition SCHEMA_CACHE_MAX_AGE_MILLIS :: int where
  "SCHEMA_CACHE_MAX_AGE_MILLIS = 24 * 60 * 60 * 1000"

definition default_cache_policy :: SchemaCachePolicy where
  "default_cache_policy = \<lparr>max_total_bytes = 256 * 1024 * 1024, max_connection_bytes = 64 * 1024 * 1024, max_entries = 50000,
     max_age_millis = SCHEMA_CACHE_MAX_AGE_MILLIS\<rparr>"

definition saturating_sub_i64 :: "int \<Rightarrow> int \<Rightarrow> int" where
  "saturating_sub_i64 a b = max (- (2 ^ 63)) (min (2 ^ 63 - 1) (a - b))"

definition total_bytes :: "schema_cache \<Rightarrow> int" where
  "total_bytes t = sum_list (map (row_byte_size \<circ> snd) t)"

definition owner_rows :: "string \<Rightarrow> schema_cache \<Rightarrow> schema_cache" where
  "owner_rows owner t = filter (\<lambda>(k, r). row_owner_id r = owner) t"

text \<open>\<^verbatim>\<open>ORDER BY last_accessed_at_ms ASC, updated_at_ms ASC, cache_key ASC LIMIT 1\<close>\<close>

definition older :: "string \<times> cache_row \<Rightarrow> string \<times> cache_row \<Rightarrow> bool" where
  "older a b \<longleftrightarrow>
     row_last_accessed_at_ms (snd a) < row_last_accessed_at_ms (snd b) \<or>
     row_last_accessed_at_ms (snd a) = row_last_accessed_at_ms (snd b) \<and>
       (row_updated_at_ms (snd a) < row_updated_at_ms (snd b) \<or>
        row_updated_at_ms (snd a) = row_updated_at_ms (snd b) \<and> fst a < fst b)"

fun first_by :: "('a \<Rightarrow> 'a \<Rightarrow> bool) \<Rightarrow> 'a list \<Rightarrow> 'a option" where
  "first_by before [] = None"
| "first_by before (x # xs) = (case first_by before xs of None \<Rightarrow> Some x | Some y \<Rightarrow> Some (if before y x then y else x))"

definition delete_oldest_schema_cache_entry :: "string option \<Rightarrow> schema_cache \<Rightarrow> bool \<times> schema_cache" where
  "delete_oldest_schema_cache_entry owner_id t =
     (case first_by older (case owner_id of Some owner \<Rightarrow> owner_rows owner t | None \<Rightarrow> t) of
        None \<Rightarrow> (False, t)
      | Some (k, _) \<Rightarrow> (True, hm_remove k t))"

text \<open>\<^verbatim>\<open>GROUP BY owner_id HAVING SUM(byte_size) > ?1 ORDER BY SUM(byte_size) DESC, owner_id ASC LIMIT 1\<close>\<close>

definition over_budget_owner :: "int \<Rightarrow> schema_cache \<Rightarrow> string option" where
  "over_budget_owner limit t =
     first_by (\<lambda>a b. total_bytes (owner_rows b t) < total_bytes (owner_rows a t) \<or>
         total_bytes (owner_rows a t) = total_bytes (owner_rows b t) \<and> a < b)
       (filter (\<lambda>owner. total_bytes (owner_rows owner t) > limit) (remdups (map (row_owner_id \<circ> snd) t)))"

lemma first_by_mem: "first_by before xs = Some x \<Longrightarrow> x \<in> set xs"
  by (induction xs arbitrary: x) (auto split: option.splits if_splits)

lemma first_by_None [simp]: "first_by before xs = None \<longleftrightarrow> xs = []"
  by (cases xs) (auto split: option.split)

lemma length_hm_remove: "(k, r) \<in> set t \<Longrightarrow> length (hm_remove k t) < length t"
  unfolding hm_remove_def AList.delete_eq by (rule length_filter_less) auto

lemma delete_oldest_shrinks: "delete_oldest_schema_cache_entry owner t = (True, t') \<Longrightarrow> length t' < length t"
  by (auto simp: delete_oldest_schema_cache_entry_def owner_rows_def intro!: length_hm_remove
      dest!: first_by_mem split: option.splits)

function prune_owners :: "int \<Rightarrow> schema_cache \<Rightarrow> schema_cache" where
  "prune_owners limit t = (case over_budget_owner limit t of
     None \<Rightarrow> t
   | Some owner \<Rightarrow> (case delete_oldest_schema_cache_entry (Some owner) t of
       (deleted, t') \<Rightarrow> if deleted then prune_owners limit t' else t))"
  by pat_completeness auto

termination
  by (relation "measure (\<lambda>(limit, t). length t)") (auto dest: delete_oldest_shrinks [OF sym])

definition within_total :: "SchemaCachePolicy \<Rightarrow> schema_cache \<Rightarrow> bool" where
  "within_total policy t \<longleftrightarrow> length t \<le> max_entries policy \<and> total_bytes t \<le> max (max_total_bytes policy) 0"

function prune_total :: "SchemaCachePolicy \<Rightarrow> schema_cache \<Rightarrow> schema_cache" where
  "prune_total policy t =
     (if within_total policy t then t
      else (case delete_oldest_schema_cache_entry None t of
          (deleted, t') \<Rightarrow> if deleted then prune_total policy t' else t))"
  by pat_completeness auto

termination
  by (relation "measure (\<lambda>(policy, t). length t)") (auto dest: delete_oldest_shrinks [OF sym])

declare prune_owners.simps [simp del] prune_total.simps [simp del]

definition prune_expired :: "int \<Rightarrow> schema_cache \<Rightarrow> schema_cache" where
  "prune_expired expires_before t =
     hm_retain (\<lambda>_ r. \<not> (row_updated_at_ms r = 0 \<or> row_updated_at_ms r \<le> expires_before)) t"

definition prune_schema_cache :: "SchemaCachePolicy \<Rightarrow> int \<Rightarrow> schema_cache \<Rightarrow> schema_cache" where
  "prune_schema_cache policy now_ms t =
     (let expires_before = saturating_sub_i64 now_ms (max (max_age_millis policy) 0)
      in prune_total policy (prune_owners (max (max_connection_bytes policy) 0) (prune_expired expires_before t)))"

section \<open>Operations\<close>

definition new_row :: "string \<Rightarrow> string \<Rightarrow> int \<Rightarrow> cache_row" where
  "new_row cache_key json now_ms = \<lparr>row_payload = json, row_updated_at_ms = now_ms, row_last_accessed_at_ms = now_ms,
     row_byte_size = min (int (length json)) (2 ^ 63 - 1), row_owner_id = schema_cache_owner cache_key\<rparr>"

definition save_schema_cache_with_policy ::
  "SchemaCachePolicy \<Rightarrow> string option \<Rightarrow> int \<Rightarrow> string \<Rightarrow> string + string \<Rightarrow> schema_cache \<Rightarrow> (string + unit) \<times> schema_cache" where
  "save_schema_cache_with_policy policy db_error now_ms cache_key encoded t = (case encoded of
     Inl e \<Rightarrow> (Inl e, t)
   | Inr json \<Rightarrow> (case db_error of
       Some e \<Rightarrow> (Inl e, t)
     | None \<Rightarrow> (Inr (), prune_schema_cache policy now_ms (hm_insert cache_key (new_row cache_key json now_ms) t))))"

definition save_schema_cache ::
  "string option \<Rightarrow> int \<Rightarrow> string \<Rightarrow> string + string \<Rightarrow> schema_cache \<Rightarrow> (string + unit) \<times> schema_cache" where
  "save_schema_cache = save_schema_cache_with_policy default_cache_policy"

definition load_schema_cache ::
  "(string \<Rightarrow> string + 'v) \<Rightarrow> string option \<Rightarrow> int \<Rightarrow> string \<Rightarrow> schema_cache \<Rightarrow> (string + 'v option) \<times> schema_cache" where
  "load_schema_cache decode db_error now_ms cache_key t = (case db_error of
     Some e \<Rightarrow> (Inl e, t)
   | None \<Rightarrow> (case map_of t cache_key of
       None \<Rightarrow> (Inr None, t)
     | Some r \<Rightarrow>
         if row_updated_at_ms r > saturating_sub_i64 now_ms (max SCHEMA_CACHE_MAX_AGE_MILLIS 0)
         then (map_sum id Some (decode (row_payload r)),
               hm_insert cache_key (r\<lparr>row_last_accessed_at_ms := now_ms\<rparr>) t)
         else (Inr None, t)))"

definition delete_schema_cache_prefix :: "string option \<Rightarrow> string \<Rightarrow> schema_cache \<Rightarrow> (string + unit) \<times> schema_cache" where
  "delete_schema_cache_prefix db_error prefix t = (case db_error of
     Some e \<Rightarrow> (Inl e, t)
   | None \<Rightarrow> (Inr (), hm_retain (\<lambda>k _. \<not> (k = prefix \<or> chars_take (length prefix) k = prefix)) t))"

text \<open>A failure for one namespace is logged and the next one is tried.\<close>

definition invalidate_connection_object_cache :: "(string \<Rightarrow> string option) \<Rightarrow> string \<Rightarrow> schema_cache \<Rightarrow> schema_cache" where
  "invalidate_connection_object_cache db_error connection_id t =
     fold (\<lambda>namespace t. snd (delete_schema_cache_prefix (db_error namespace)
         (namespace @ '':'' @ metadata_cache_segment connection_id @ '':'') t))
       [OBJECT_METADATA_CACHE_PREFIX, OBJECT_DDL_CACHE_PREFIX] t"

end
