(* ===== verification/Schema_Cache_Laws.thy ===== *)
theory Schema_Cache_Laws
  imports Schema_Cache
begin

text \<open>
  Laws of the metadata cache: the budgets hold after every write, the rows that go are the ones least
  recently used, and dropping a connection's rows drops exactly those.
\<close>

section \<open>Budgets\<close>

definition cache_wf :: "schema_cache \<Rightarrow> bool" where
  "cache_wf t \<longleftrightarrow> hm_wf t \<and> list_all (\<lambda>(k, r). 0 \<le> row_byte_size r) t"

definition part_of :: "schema_cache \<Rightarrow> schema_cache \<Rightarrow> bool" where
  "part_of t' t \<longleftrightarrow> (\<exists>P. t' = filter P t)"

lemma part_of_refl: "part_of t t"
  unfolding part_of_def by (rule exI [of _ "\<lambda>_. True"]) simp

lemma part_of_trans: "part_of a b \<Longrightarrow> part_of b c \<Longrightarrow> part_of a c"
  unfolding part_of_def by (metis filter_filter)

lemma part_of_remove: "part_of (hm_remove k t) t"
  unfolding part_of_def hm_remove_def AList.delete_eq by blast

lemma part_of_retain: "part_of (hm_retain p t) t"
  unfolding part_of_def hm_retain_def by blast

lemma part_of_delete: "delete_oldest_schema_cache_entry owner t = (b, t') \<Longrightarrow> part_of t' t"
  by (auto simp: delete_oldest_schema_cache_entry_def part_of_refl part_of_remove split: option.splits)

lemma cache_wf_part: "cache_wf t \<Longrightarrow> part_of t' t \<Longrightarrow> cache_wf t'"
  by (auto simp: cache_wf_def part_of_def hm_wf_def distinct_map_filter list_all_iff)

lemma cache_wf_insert:
  assumes "cache_wf t" "0 \<le> row_byte_size r"
  shows "cache_wf (hm_insert k r t)"
proof -
  have wf: "hm_wf t" "hm_wf (hm_insert k r t)" using assms(1) hmap.invar_insert by (auto simp: cache_wf_def)
  have "0 \<le> row_byte_size r'" if "(k', r') \<in> set (hm_insert k r t)" for k' r'
  proof -
    have "map_of (hm_insert k r t) k' = Some r'" using wf(2) that by (simp add: hm_wf_def)
    then have "r' = r \<or> (k', r') \<in> set t" by (auto simp: hmap_simps dest: map_of_SomeD split: if_splits)
    then show ?thesis using assms by (auto simp: cache_wf_def list_all_iff)
  qed
  then show ?thesis using wf(2) by (auto simp: cache_wf_def list_all_iff)
qed

lemma part_of_subset: "part_of t' t \<Longrightarrow> set t' \<subseteq> set t"
  by (auto simp: part_of_def)

lemma total_bytes_filter: "list_all (\<lambda>(k, r). 0 \<le> row_byte_size r) t \<Longrightarrow> total_bytes (filter P t) \<le> total_bytes t"
  by (induction t) (auto simp: total_bytes_def)

lemma owner_bytes_part:
  assumes "cache_wf t" "part_of t' t"
  shows "total_bytes (owner_rows owner t') \<le> total_bytes (owner_rows owner t)"
proof -
  obtain P where "t' = filter P t" using assms(2) by (auto simp: part_of_def)
  then have "owner_rows owner t' = filter P (owner_rows owner t)" by (simp add: owner_rows_def conj_commute)
  moreover have "list_all (\<lambda>(k, r). 0 \<le> row_byte_size r) (owner_rows owner t)"
    using assms(1) by (auto simp: cache_wf_def owner_rows_def list_all_iff)
  ultimately show ?thesis using total_bytes_filter by simp
qed

lemma over_budget_None:
  assumes "over_budget_owner limit t = None" "0 \<le> limit"
  shows "total_bytes (owner_rows owner t) \<le> limit"
proof (cases "owner \<in> set (map (row_owner_id \<circ> snd) t)")
  case True
  then show ?thesis using assms(1) by (fastforce simp: over_budget_owner_def filter_empty_conv)
next
  case False
  then have "owner_rows owner t = []" by (force simp: owner_rows_def filter_empty_conv)
  then show ?thesis using assms(2) by (simp add: total_bytes_def)
qed

lemma over_budget_Some: "over_budget_owner limit t = Some owner \<Longrightarrow> owner_rows owner t \<noteq> []"
  by (fastforce simp: over_budget_owner_def owner_rows_def filter_empty_conv dest!: first_by_mem)

lemma delete_oldest_deletes:
  "(case owner of Some i \<Rightarrow> owner_rows i t | None \<Rightarrow> t) \<noteq> [] \<Longrightarrow> \<exists>t'. delete_oldest_schema_cache_entry owner t = (True, t')"
  by (auto simp: delete_oldest_schema_cache_entry_def split: option.split)

lemma prune_owners_ok: "over_budget_owner limit (prune_owners limit t) = None \<and> part_of (prune_owners limit t) t"
proof (induction limit t rule: prune_owners.induct)
  case (1 limit t)
  show ?case
  proof (cases "over_budget_owner limit t")
    case None
    then show ?thesis by (simp add: prune_owners.simps [of limit t] part_of_refl)
  next
    case (Some owner)
    obtain t' where d: "delete_oldest_schema_cache_entry (Some owner) t = (True, t')"
      using delete_oldest_deletes [of t "Some owner"] over_budget_Some [OF Some] by auto
    then have "prune_owners limit t = prune_owners limit t'" by (simp add: prune_owners.simps [of limit t] Some)
    then show ?thesis using 1 [OF Some d [symmetric] TrueI] part_of_trans [OF _ part_of_delete [OF d]] by simp
  qed
qed

lemma prune_total_ok: "within_total policy (prune_total policy t) \<and> part_of (prune_total policy t) t"
proof (induction policy t rule: prune_total.induct)
  case (1 policy t)
  show ?case
  proof (cases "within_total policy t")
    case True
    then show ?thesis by (simp add: prune_total.simps [of policy t] part_of_refl)
  next
    case False
    then have "t \<noteq> []" by (auto simp: within_total_def total_bytes_def)
    then obtain t' where d: "delete_oldest_schema_cache_entry None t = (True, t')"
      using delete_oldest_deletes [of t None] by auto
    then have "prune_total policy t = prune_total policy t'" using False by (simp add: prune_total.simps [of policy t])
    then show ?thesis using 1 [OF False d [symmetric] TrueI] part_of_trans [OF _ part_of_delete [OF d]] by simp
  qed
qed

section \<open>Least recently used first\<close>

lemma older_trans: "older a b \<Longrightarrow> older b c \<Longrightarrow> older a c"
  by (auto simp: older_def)

lemma older_total: "fst a \<noteq> fst b \<Longrightarrow> older a b \<or> older b a"
  by (auto simp: older_def)

lemma first_by_older:
  "distinct (map fst t) \<Longrightarrow> first_by older t = Some a \<Longrightarrow> b \<in> set t \<Longrightarrow> b = a \<or> older a b"
proof (induction t arbitrary: a)
  case (Cons x t)
  show ?case
  proof (cases "first_by older t")
    case None
    then show ?thesis using Cons.prems by auto
  next
    case (Some y)
    have y: "b \<in> set t \<Longrightarrow> b = y \<or> older y b" using Cons.IH [OF _ Some] Cons.prems(1) by simp
    have "fst x \<notin> fst ` set t" using Cons.prems(1) by simp
    then have "fst y \<noteq> fst x" using first_by_mem [OF Some] by (metis image_eqI)
    then have "older y x \<or> older x y" using older_total by blast
    then show ?thesis
      using Cons.prems(2,3) Some y older_trans [of x y b] older_trans [of y x b] by (auto split: if_splits)
  qed
qed simp

lemma prune_total_order:
  "hm_wf t \<Longrightarrow> a \<in> set t \<Longrightarrow> a \<notin> set (prune_total policy t) \<Longrightarrow> b \<in> set (prune_total policy t) \<Longrightarrow> older a b"
proof (induction policy t rule: prune_total.induct)
  case (1 policy t)
  show ?case
  proof (cases "within_total policy t")
    case True
    then show ?thesis using 1 by (simp add: prune_total.simps [of policy t])
  next
    case False
    then have "t \<noteq> []" by (auto simp: within_total_def total_bytes_def)
    then obtain x where x: "first_by older t = Some x" by (cases "first_by older t") auto
    obtain k r where kr: "x = (k, r)" by (cases x)
    have d: "delete_oldest_schema_cache_entry None t = (True, hm_remove k t)"
      by (simp add: delete_oldest_schema_cache_entry_def x kr)
    have p: "prune_total policy t = prune_total policy (hm_remove k t)" using False d by (simp add: prune_total.simps [of policy t])
    have wf: "hm_wf (hm_remove k t)" using "1.prems"(1) by (rule hmap.invar_remove)
    have b: "b \<in> set (hm_remove k t)" using part_of_subset [of "prune_total policy (hm_remove k t)" "hm_remove k t"] prune_total_ok "1.prems"(4) p by auto
    show ?thesis
    proof (cases "a \<in> set (hm_remove k t)")
      case True
      then show ?thesis using 1(1) [OF False d [symmetric] _ wf True] "1.prems"(3,4) p by simp
    next
      case False
      then have "fst a = k" using "1.prems"(2) by (auto simp: hm_remove_def AList.delete_eq)
      then have "a = x"
        using "1.prems"(1,2) first_by_mem [OF x] kr by (auto simp: hm_wf_def distinct_map inj_on_def)
      moreover have "b \<noteq> x" "b \<in> set t" using b kr by (auto simp: hm_remove_def AList.delete_eq)
      ultimately show ?thesis using first_by_older [OF _ x, of b] "1.prems"(1) by (simp add: hm_wf_def)
    qed
  qed
qed

text \<open>A write that leaves the table within its budgets evicts nothing.\<close>

lemma prune_within:
  assumes "over_budget_owner limit t = None" "within_total policy t"
  shows "prune_total policy (prune_owners limit t) = t"
  using assms by (simp add: prune_owners.simps [of limit t] prune_total.simps [of policy t])

section \<open>Keys\<close>

lemma HEX_unreserved: "n < 16 \<Longrightarrow> HEX n \<noteq> CHR '':'' \<and> byte (HEX n) < 128"
proof -
  have "list_all (\<lambda>n. HEX n \<noteq> CHR '':'' \<and> byte (HEX n) < 128) [0..<16]" by code_simp
  then show "n < 16 \<Longrightarrow> ?thesis" by (simp add: list_all_iff)
qed

lemma HEX_inj: "n < 16 \<Longrightarrow> m < 16 \<Longrightarrow> HEX n = HEX m \<Longrightarrow> n = m"
proof -
  have "list_all (\<lambda>n. list_all (\<lambda>m. HEX n = HEX m \<longrightarrow> n = m) [0..<16]) [0..<16]" by code_simp
  then show "n < 16 \<Longrightarrow> m < 16 \<Longrightarrow> HEX n = HEX m \<Longrightarrow> n = m" by (simp add: list_all_iff)
qed

definition encode_byte :: "char \<Rightarrow> string" where
  "encode_byte c = (if unreserved c then [c] else [CHR ''%'', HEX (byte c div 16), HEX (byte c mod 16)])"

lemma segment_simps [simp]:
  "metadata_cache_segment [] = []"
  "metadata_cache_segment (c # v) = encode_byte c @ metadata_cache_segment v"
  by (simp_all add: metadata_cache_segment_def encode_byte_def)

lemma byte_less: "byte c < 256"
  using of_char_of [of "of_char c :: nat"] by (metis char_of_char mod_less_divisor of_char_mod_256 zero_less_numeral)

lemma nibbles: "byte c div 16 < 16" "byte c mod 16 < 16"
  using byte_less [of c] by (auto intro: less_mult_imp_div_less)

lemma encode_byte_inj:
  assumes "encode_byte c @ x = encode_byte d @ y"
  shows "c = d \<and> x = y"
proof -
  have p: "\<not> unreserved (CHR ''%'')" by (simp add: unreserved_def)
  have "c = d" if "HEX (byte c div 16) = HEX (byte d div 16)" "HEX (byte c mod 16) = HEX (byte d mod 16)"
  proof -
    have "byte c div 16 = byte d div 16" "byte c mod 16 = byte d mod 16"
      using that HEX_inj [OF nibbles(1) [of c] nibbles(1) [of d]] HEX_inj [OF nibbles(2) [of c] nibbles(2) [of d]] by blast+
    then have "byte c = byte d" by (metis div_mult_mod_eq)
    then show ?thesis by simp
  qed
  then show ?thesis using assms p by (auto simp: encode_byte_def split: if_splits)
qed

lemma segment_inj: "metadata_cache_segment a = metadata_cache_segment b \<Longrightarrow> a = b"
proof (induction a arbitrary: b)
  case Nil
  then show ?case by (cases b) (auto simp: encode_byte_def split: if_splits)
next
  case (Cons c a)
  then show ?case
  proof (cases b)
    case Nil
    then show ?thesis using Cons.prems by (auto simp: encode_byte_def split: if_splits)
  next
    fix d b'
    assume b: "b = d # b'"
    then show ?thesis using encode_byte_inj [of c "metadata_cache_segment a" d "metadata_cache_segment b'"] Cons by auto
  qed
qed

lemma segment_bytes: "x \<in> set (metadata_cache_segment v) \<Longrightarrow> x \<noteq> CHR '':'' \<and> byte x < 128"
proof (induction v)
  case (Cons c v)
  have "x \<in> set (encode_byte c) \<Longrightarrow> x \<noteq> CHR '':'' \<and> byte x < 128"
    using HEX_unreserved [OF nibbles(1) [of c]] HEX_unreserved [OF nibbles(2) [of c]]
    by (cases "unreserved c") (auto simp: encode_byte_def unreserved_def)
  then show ?case using Cons by auto
qed simp

section \<open>Prefixes\<close>

lemma chars_take_prefix: "\<exists>u. s = chars_take n s @ u"
proof (induction n s rule: chars_take.induct)
  case (2 n b s)
  then show ?case by (cases n) auto
qed simp

lemma chars_take_ascii:
  "list_all (\<lambda>c. byte c < 128) p \<Longrightarrow> u \<noteq> [] \<Longrightarrow> byte (hd u) < 128 \<Longrightarrow> chars_take (length p) (p @ u) = p"
proof (induction p)
  case Nil
  then show ?case by (cases u) (auto simp: continuation_def)
qed (simp add: continuation_def)

lemma colon_split: "x \<notin> set a \<Longrightarrow> x \<notin> set b \<Longrightarrow> a @ x # u = b @ x # v \<longleftrightarrow> a = b \<and> u = v"
proof (induction a arbitrary: b)
  case Nil
  then show ?case by (cases b) auto
next
  case (Cons c a)
  then show ?case by (cases b) auto
qed

definition cache_key_of :: "string \<Rightarrow> string \<Rightarrow> string \<Rightarrow> string \<Rightarrow> string" where
  "cache_key_of namespace conn database rest =
     namespace @ '':'' @ metadata_cache_segment conn @ '':'' @ metadata_cache_segment database @ '':'' @ rest"

lemma prefix_of_key:
  assumes "ns \<in> {OBJECT_METADATA_CACHE_PREFIX, OBJECT_DDL_CACHE_PREFIX}" "ns' \<in> {OBJECT_METADATA_CACHE_PREFIX, OBJECT_DDL_CACHE_PREFIX}"
  shows "cache_key_of ns c d rest = (ns' @ '':'' @ metadata_cache_segment conn @ '':'') @ u \<longleftrightarrow>
    ns = ns' \<and> c = conn \<and> u = metadata_cache_segment d @ '':'' @ rest"
proof -
  have "CHR '':'' \<notin> set (metadata_cache_segment v)" for v using segment_bytes by blast
  then show ?thesis
    using assms segment_inj [of c conn]
    by (auto simp: cache_key_of_def OBJECT_METADATA_CACHE_PREFIX_def OBJECT_DDL_CACHE_PREFIX_def colon_split)
qed

lemma deleted_key:
  fixes conn :: string
  assumes "ns \<in> {OBJECT_METADATA_CACHE_PREFIX, OBJECT_DDL_CACHE_PREFIX}" "ns' \<in> {OBJECT_METADATA_CACHE_PREFIX, OBJECT_DDL_CACHE_PREFIX}"
  defines "p \<equiv> ns' @ '':'' @ metadata_cache_segment conn @ '':''"
  shows "cache_key_of ns c d rest = p \<or> chars_take (length p) (cache_key_of ns c d rest) = p \<longleftrightarrow> ns = ns' \<and> c = conn"
proof
  assume "cache_key_of ns c d rest = p \<or> chars_take (length p) (cache_key_of ns c d rest) = p"
  then obtain u where "cache_key_of ns c d rest = p @ u"
    using chars_take_prefix [of "cache_key_of ns c d rest" "length p"] by (metis append_Nil2)
  then show "ns = ns' \<and> c = conn" using prefix_of_key [OF assms(1,2)] unfolding p_def by blast
next
  assume eq: "ns = ns' \<and> c = conn"
  let ?u = "metadata_cache_segment d @ '':'' @ rest"
  have k: "cache_key_of ns c d rest = p @ ?u" using prefix_of_key [OF assms(1,2)] eq unfolding p_def by blast
  have "list_all (\<lambda>c. byte c < 128) p"
    using assms(2) segment_bytes by (auto simp: p_def list_all_iff OBJECT_METADATA_CACHE_PREFIX_def OBJECT_DDL_CACHE_PREFIX_def)
  moreover have "byte (hd ?u) < 128" using segment_bytes [of "hd ?u" d] by (cases "metadata_cache_segment d") auto
  ultimately show "cache_key_of ns c d rest = p \<or> chars_take (length p) (cache_key_of ns c d rest) = p"
    using chars_take_ascii [of p ?u] k by simp
qed

lemma lookup_delete_prefix:
  assumes "hm_wf t"
  shows "map_of (snd (delete_schema_cache_prefix None p t)) k =
      (if k = p \<or> chars_take (length p) k = p then None else map_of t k)"
    "hm_wf (snd (delete_schema_cache_prefix None p t))"
  using assms by (simp_all add: delete_schema_cache_prefix_def map_of_hm_retain hm_wf_retain split: option.split)

section \<open>Properties\<close>

text \<open>
  C15: after every successful write of the metadata cache the budgets hold, whatever was in the table: no
  more rows than allowed, the bytes of all rows and of each connection's rows within their limits, no row
  past its age. What is left are rows that were there or the one written, and when those that have not
  expired are within the budgets, all of them are left.
\<close>

theorem cache_within_budgets:
  assumes "cache_wf t" "save_schema_cache_with_policy policy db_error now cache_key (Inr json) t = (Inr (), t')"
    "expiry = saturating_sub_i64 now (max (max_age_millis policy) 0)"
    "u = prune_expired expiry (hm_insert cache_key (new_row cache_key json now) t)"
  shows "within_total policy t' \<and> total_bytes (owner_rows owner t') \<le> max (max_connection_bytes policy) 0 \<and>
    list_all (\<lambda>(k, r). row_updated_at_ms r > expiry) t' \<and> part_of t' u \<and>
    (over_budget_owner (max (max_connection_bytes policy) 0) u = None \<and> within_total policy u \<longrightarrow> t' = u)"
proof -
  define t3 where "t3 = prune_owners (max (max_connection_bytes policy) 0) u"
  have t': "t' = prune_total policy t3"
    using assms(2-4) by (auto simp: save_schema_cache_with_policy_def prune_schema_cache_def Let_def t3_def split: option.splits)
  have p: "part_of t3 u" "part_of t' t3" "over_budget_owner (max (max_connection_bytes policy) 0) t3 = None" "within_total policy t'"
    using prune_owners_ok prune_total_ok by (simp_all add: t3_def t')
  have "cache_wf (hm_insert cache_key (new_row cache_key json now) t)"
    by (rule cache_wf_insert [OF assms(1)]) (simp add: new_row_def)
  then have wf: "cache_wf u" unfolding assms(4) prune_expired_def by (rule cache_wf_part [OF _ part_of_retain])
  have "total_bytes (owner_rows owner t') \<le> total_bytes (owner_rows owner t3)"
    by (rule owner_bytes_part [OF cache_wf_part [OF wf p(1)] p(2)])
  also have "\<dots> \<le> max (max_connection_bytes policy) 0" by (rule over_budget_None [OF p(3)]) simp
  finally have "total_bytes (owner_rows owner t') \<le> max (max_connection_bytes policy) 0" .
  moreover have u: "part_of t' u" by (rule part_of_trans [OF p(2,1)])
  moreover have "list_all (\<lambda>(k, r). row_updated_at_ms r > expiry) t'"
    using part_of_subset [OF u] by (auto simp: assms(4) prune_expired_def hm_retain_def list_all_iff)
  moreover have "over_budget_owner (max (max_connection_bytes policy) 0) u = None \<and> within_total policy u \<longrightarrow> t' = u"
    using prune_within by (simp add: t' t3_def)
  ultimately show ?thesis using p(4) by blast
qed

definition tiny_policy :: SchemaCachePolicy where
  "tiny_policy = \<lparr>max_total_bytes = 3, max_connection_bytes = 3, max_entries = 1, max_age_millis = 10\<rparr>"

theorem cache_within_budgets_witness:
  "within_total tiny_policy (snd (save_schema_cache_with_policy tiny_policy None 100 ''k'' (Inr ''{}'')
     [(''old'', \<lparr>row_payload = ''[]'', row_updated_at_ms = 95, row_last_accessed_at_ms = 95, row_byte_size = 2, row_owner_id = []\<rparr>)]))"
proof -
  let ?t = "[(''old'', \<lparr>row_payload = ''[]'', row_updated_at_ms = 95, row_last_accessed_at_ms = 95, row_byte_size = 2, row_owner_id = []\<rparr>)]"
  have wf: "cache_wf ?t" by (simp add: cache_wf_def hm_wf_def)
  have "save_schema_cache_with_policy tiny_policy None 100 ''k'' (Inr ''{}'') ?t =
      (Inr (), snd (save_schema_cache_with_policy tiny_policy None 100 ''k'' (Inr ''{}'') ?t))"
    by (simp add: save_schema_cache_with_policy_def)
  from cache_within_budgets [OF wf this refl refl] show ?thesis by blast
qed

text \<open>
  C28: dropping the cached metadata of a connection drops the rows of that connection, in both namespaces
  and for every database, and no row of any other connection, whatever characters the names contain.
\<close>

theorem invalidation_exact:
  assumes "hm_wf t" "ns \<in> {OBJECT_METADATA_CACHE_PREFIX, OBJECT_DDL_CACHE_PREFIX}"
  shows "map_of (invalidate_connection_object_cache (\<lambda>_. None) conn t) (cache_key_of ns c d rest) =
    (if c = conn then None else map_of t (cache_key_of ns c d rest))"
proof -
  let ?p = "\<lambda>ns'. ns' @ '':'' @ metadata_cache_segment conn @ '':''" and ?k = "cache_key_of ns c d rest"
  let ?t = "snd (delete_schema_cache_prefix None (?p OBJECT_METADATA_CACHE_PREFIX) t)"
  have 1: "map_of ?t ?k = (if ns = OBJECT_METADATA_CACHE_PREFIX \<and> c = conn then None else map_of t ?k)" "hm_wf ?t"
    using lookup_delete_prefix(1) [OF assms(1), of "?p OBJECT_METADATA_CACHE_PREFIX" ?k] lookup_delete_prefix(2) [OF assms(1)]
      deleted_key [OF assms(2), where ns' = OBJECT_METADATA_CACHE_PREFIX and conn = conn and c = c and d = d and rest = rest] by simp_all
  have 2: "map_of (snd (delete_schema_cache_prefix None (?p OBJECT_DDL_CACHE_PREFIX) ?t)) ?k =
      (if ns = OBJECT_DDL_CACHE_PREFIX \<and> c = conn then None else map_of ?t ?k)"
    using lookup_delete_prefix(1) [OF 1(2), of "?p OBJECT_DDL_CACHE_PREFIX" ?k]
      deleted_key [OF assms(2), where ns' = OBJECT_DDL_CACHE_PREFIX and conn = conn and c = c and d = d and rest = rest] by simp
  show ?thesis
    unfolding invalidate_connection_object_cache_def fold_simps id_apply comp_apply 2 1(1) using assms(2) by auto
qed

theorem invalidation_exact_witness:
  "map_of (invalidate_connection_object_cache (\<lambda>_. None) ''a'' []) (cache_key_of OBJECT_DDL_CACHE_PREFIX ''a:b'' ''db'' ''t'') = None"
  using invalidation_exact [of "[]" OBJECT_DDL_CACHE_PREFIX "''a''" "''a:b''" "''db''" "''t''"] by simp

text \<open>
  C40: deleting by a prefix compares as many characters as the prefix has bytes. A prefix with a character
  outside ASCII therefore deletes none of the longer keys that start with it.
\<close>

theorem non_ascii_prefix_deletes_nothing:
  assumes "hm_wf t" "chars_count prefix < length prefix" "rest \<noteq> []"
  shows "map_of (snd (delete_schema_cache_prefix None prefix t)) (prefix @ rest) = map_of t (prefix @ rest)"
proof -
  have n: "chars_count (chars_take n s) = n" if "n \<le> chars_count s" for n s
    using that by (induction n s rule: chars_take.induct) (auto simp: chars_count_def split: nat.splits)
  have all: "chars_take n s = s" if "chars_count s \<le> n" for n s
    using that by (induction n s rule: chars_take.induct) (auto simp: chars_count_def split: nat.splits if_splits)
  have "chars_take (length prefix) (prefix @ rest) \<noteq> prefix"
  proof (cases "length prefix \<le> chars_count (prefix @ rest)")
    case True
    with n assms(2) show ?thesis by (metis less_irrefl)
  next
    case False
    with all [of "prefix @ rest" "length prefix"] assms(3) show ?thesis by simp
  qed
  then show ?thesis
    using assms(1,3) by (auto simp: delete_schema_cache_prefix_def map_of_hm_retain split: option.split)
qed

theorem non_ascii_prefix_deletes_nothing_witness:
  "map_of (snd (delete_schema_cache_prefix None [CHR 0xC3, CHR 0xA9]
      [([CHR 0xC3, CHR 0xA9] @ ''t'', \<lparr>row_payload = [], row_updated_at_ms = 1, row_last_accessed_at_ms = 1, row_byte_size = 0, row_owner_id = []\<rparr>)]))
     ([CHR 0xC3, CHR 0xA9] @ ''t'') \<noteq> None"
  using non_ascii_prefix_deletes_nothing [of
      "[([CHR 0xC3, CHR 0xA9] @ ''t'', \<lparr>row_payload = [], row_updated_at_ms = 1, row_last_accessed_at_ms = 1, row_byte_size = 0, row_owner_id = []\<rparr>)]"
      "[CHR 0xC3, CHR 0xA9]" "''t''"]
  by (simp add: hm_wf_def chars_count_def continuation_def)

end
