(* ===== verification/Spec2Isabelle.thy ===== *)
theory Spec2Isabelle
  imports Prelude Mcp_Policy Mcp_Policy_Laws Mcp_Access Mcp_Access_Laws Mcp_Projection
    Mcp_Equivalence Mcp_Never_Wider Write_Unlock Tool_Approval Mcp_Session Transaction_Owner
    Agent_Recovery Running_Queries Running_Queries_Laws Type_Receipts State_Machine State_Machine_Laws
    Two_Phase_Commit Two_Phase_Commit_Laws Two_Phase_Outcomes Csv_Export Csv_Export_Laws Wkb Wkb_Laws
    Json_Values D1_Sql D1_Sql_Laws D1_Client D1_Client_Laws Session_Credentials Task_Supervisor Http_Auth
    Schema_Cache Schema_Cache_Laws
begin

text \<open>
  A verification development for dbx, a database client with an MCP (Model Context Protocol) server
  through which language models reach the user's databases. The sources are the Rust crates under
  \<^verbatim>\<open>src/crates\<close>. The development covers the part of the program that decides what such a caller may do and
  that keeps account of what has been done (authorization, access policies, approvals, write windows,
  sessions, credentials, transactions, cancellation, background tasks, durable receipts, persisted state
  machines, two-phase commit, the schema cache), one driver from its SQL guard to its results
  (Cloudflare D1), and the encodings that results pass through (geometries, JSON numbers, CSV).

  \<^bold>\<open>The parts and how they interact.\<close> The user's MCP policy is stored in the old form
  (\<^verbatim>\<open>McpGlobalPolicy\<close>) and evaluated in the new one (\<^verbatim>\<open>McpAccessPolicy\<close>). A request to the HTTP endpoint
  is admitted by its token, origin and host. A tool call is looked up in the policy, may need a write window or the user's approval, runs in an MCP session, and there possibly
  in a transaction that a task of its own owns. Every statement is registered as a running query so that
  it can be cancelled; a statement that changes a type also claims a durable receipt. Failures of the
  out-of-process drivers come back as typed errors that say what may be concluded from them. Workflows
  over several databases use the two-phase commit coordinator, which keeps a log and a state entry in
  the state store. Passwords that are not saved are kept per owner while the program runs; background
  tasks are kept by a supervisor that a shutdown empties. A query for a D1 database is split and checked
  before it is posted; the names of tables go into its schema queries quoted, and its rows come back with
  integers that a JavaScript front end can read. What the schema queries returned is cached within budgets
  and dropped when the schema may have changed. Geometries are decoded from binary to text, and results are
  exported as CSV that spreadsheets must not evaluate.

  \<^bold>\<open>Theories and sources.\<close> File names are relative to \<^verbatim>\<open>src/crates\<close>.

  \<^item> \<open>Prelude\<close>: the pieces of the Rust standard library that the sources use (trimming, splitting,
    option combinators, hash maps and ordered maps) and the interface \<open>finite_map\<close> that both kinds of map
    implement.
  \<^item> \<open>Mcp_Policy\<close>, \<open>Mcp_Policy_Laws\<close>: the stored policy and its normal form from
    \<^verbatim>\<open>dbx-core/src/persistence/storage.rs\<close>, its evaluation from \<^verbatim>\<open>dbx-core/src/ai/mcp_policy.rs\<close> and the
    scope tests of \<^verbatim>\<open>dbx-mcp/src/server.rs\<close>. The interface \<open>keyed_merge\<close> is the loop that files rules under
    their trimmed keys and merges duplicates; \<open>normal_policy\<close> is what evaluation may assume of a
    normalised policy.
  \<^item> \<open>Mcp_Access\<close>, \<open>Mcp_Access_Laws\<close>: levels, rules, resolution and decision of
    \<^verbatim>\<open>dbx-core/src/ai/mcp_access.rs\<close>. The interface \<open>access_rules\<close> is the rule map a resolver reads.
  \<^item> \<open>Mcp_Projection\<close>, \<open>Mcp_Equivalence\<close>, \<open>Mcp_Never_Wider\<close>: \<^verbatim>\<open>from_v1\<close>, \<^verbatim>\<open>to_v1\<close> and the carry-over of rules,
    from the same file, with the proofs that \<^verbatim>\<open>from_v1\<close> preserves every decision and that \<^verbatim>\<open>to_v1\<close> never
    widens one.
  \<^item> \<open>Write_Unlock\<close>: \<^verbatim>\<open>dbx-core/src/safety/write_unlock.rs\<close>. \<open>Tool_Approval\<close>:
    \<^verbatim>\<open>dbx-core/src/ai/tool_approval.rs\<close> and \<^verbatim>\<open>dbx-mcp/src/approval.rs\<close>. \<open>Mcp_Session\<close>: \<^verbatim>\<open>dbx-mcp/src/session.rs\<close>.
    \<open>Transaction_Owner\<close>: \<^verbatim>\<open>dbx-mcp/src/transaction.rs\<close>.
  \<^item> \<open>Agent_Recovery\<close>: the typed errors of \<^verbatim>\<open>dbx-driver-agent/src/agent_driver.rs\<close> and the decision of
    \<^verbatim>\<open>agent_recovery.rs\<close>.
  \<^item> \<open>Running_Queries\<close>, \<open>Running_Queries_Laws\<close>: \<^verbatim>\<open>dbx-core/src/query/query_cancel.rs\<close>. \<open>Type_Receipts\<close>:
    \<^verbatim>\<open>dbx-core/src/persistence/storage/type_execution_receipts.rs\<close> and the two functions of
    \<^verbatim>\<open>query_cancel.rs\<close> that join receipts and registry.
  \<^item> \<open>State_Machine\<close>, \<open>State_Machine_Laws\<close>: the state store of \<^verbatim>\<open>storage.rs\<close> and the state machine of
    \<^verbatim>\<open>dbx-core/src/persistence/state_persistence.rs\<close>. The interface \<open>kv_backend\<close> is what clients rely on of a
    backend; the local backend implements it.
  \<^item> \<open>Two_Phase_Commit\<close>, \<open>Two_Phase_Commit_Laws\<close>, \<open>Two_Phase_Outcomes\<close>:
    \<^verbatim>\<open>dbx-core/src/query/two_phase_commit.rs\<close>. The interface \<open>coordinator\<close> extends \<open>kv_backend\<close> by codecs that
    read back what they write.
  \<^item> \<open>Http_Auth\<close>: \<^verbatim>\<open>dbx-mcp/src/http_auth.rs\<close>. \<open>Session_Credentials\<close>:
    \<^verbatim>\<open>dbx-core/src/connection/session_credentials.rs\<close>. \<open>Task_Supervisor\<close>:
    \<^verbatim>\<open>dbx-core/src/connection/task_supervisor.rs\<close>.
  \<^item> \<open>Schema_Cache\<close>, \<open>Schema_Cache_Laws\<close>: \<^verbatim>\<open>dbx-core/src/query/object_cache.rs\<close> and the cache table of
    \<^verbatim>\<open>storage.rs\<close>.
  \<^item> \<open>D1_Sql\<close>, \<open>D1_Sql_Laws\<close>: lexer, splitter, guard, limits and trigger metadata of
    \<^verbatim>\<open>dbx-drivers/src/db/cloudflare_d1\<close>. \<open>D1_Client\<close>, \<open>D1_Client_Laws\<close>: the \<^verbatim>\<open>mod.rs\<close> of that directory.
    \<open>Json_Values\<close>: \<^verbatim>\<open>dbx-types/src/json.rs\<close>.
  \<^item> \<open>Wkb\<close>, \<open>Wkb_Laws\<close>: \<^verbatim>\<open>dbx-driver-support/src/wkb.rs\<close>. \<open>Csv_Export\<close>, \<open>Csv_Export_Laws\<close>:
    \<^verbatim>\<open>dbx-formats/src/csv_export.rs\<close>.

  \<^bold>\<open>How state and operations correspond.\<close> A struct is a record, an enum a datatype, an operation one
  definition of the same name, with a suffix where HOL or another component has the name. An operation
  takes its state last and returns it updated, together with its result and, where it calls closures,
  tokens or channels, the list of these calls. A body that holds its lock throughout is one step; a body
  that releases a lock or awaits another task is split there, and what other tasks do in between is an
  argument or another step of the history. Clock readings, new identifiers, answers of database
  servers, outcomes of races between futures and failures of the local database are arguments too.
  Histories are inductive predicates over these steps, so an invariant over them covers every
  interleaving. Text is the list of its UTF-8 bytes. The type words, counts and floats of a geometry are
  words of 32 and 64 bits, floats by their bit patterns. Registration ids and configured durations are 64-bit words; versions of the state store,
  lengths and clock readings are natural numbers.

  \<^bold>\<open>What the lemmas show.\<close> Policies: merging and normalising never loosen a rule, resolution implements
  the composition of default, groups, connection and sub-scope, the two policy forms agree in one direction
  and are ordered in the other, the group paths read off the sidebar are sound and complete, and saved
  rules round-trip. Approvals, windows and sessions: only the owner approves, a window is open only
  for its owner and its time, at most thirty-two sessions exist and idle ones are not handed out.
  Transactions: the status reported agrees with the server or is unknown, and a lost acknowledgement is
  reported as unknown. Failures: a retry happens at most once and only for reads of metadata, and a
  decoded failure proves that a statement stopped only where it does. Queries and receipts: a proof
  of completion belongs to the latest registration, guards of superseded registrations are harmless,
  cancelled tasks keep no interrupt, a scope is cancelled completely, and a receipt that says a statement
  ended was written for that statement. State machines and two-phase commit: a swap replaces what was
  checked in every interleaving, the transition table has no trap, nobody commits before everybody
  has prepared, the recorded outcome is true, recovery respects the logged decision and settles.
  Endpoint, credentials, tasks: a request passes exactly with the current token and an allowed origin and
  host, a password is read only by the owner that wrote it, a rollback removes only its own write, and no
  live task is unaccounted for. Cache: its budgets hold after every write, eviction takes the least
  recently used rows, and invalidation drops the rows of one connection and no others. D1: the splitter
  loses and hides nothing, so a guarded text is posted or none, batches cover their items, and no name
  changes the lexemes of a schema query. Encodings: geometries and CSV tables round-trip, a decoded geometry
  is no larger than its bytes, integers stay exact, and no exported text is a formula.
  Some theorems state defects instead: normalising can drop a database rule, a stale query can remove a
  new write window, a state that is created again is stuck, the state entry of a two-phase commit never
  leaves its initial state, the apostrophe as CSV quote defeats the formula guard, a multi-line takes lines
  of other dimensions, and a cache prefix outside ASCII deletes nothing.

  \<^bold>\<open>Bounds and fuel.\<close> No definition takes fuel. Most loops are structural recursions over a list. The
  others are functions with a termination proof: lexer, geometry parser and quote escaping end as every step
  consumes input, the loops that build batches because they move towards the last item, the two loops that
  prune the cache because each round deletes a row. The bounds in the statements are the program's own:
  thirty-two sessions, four thousand characters of a preview, three commit calls, four attempts of a
  transition, half an hour of grace for receipts, a hundred thousand bytes of a D1 statement, the budgets of
  the cache. The theorem about superseded guards assumes fewer than two to the sixty-fourth
  registrations, beyond which the counter wraps around.

  \<^bold>\<open>Third-party code.\<close> JSON is read and written by \<^verbatim>\<open>serde_json\<close>: codecs are arguments, and the theorems that
  need it assume that a value that was written is read back. Driver connections, character-set policies,
  conversions into the error type of the backend interface and the tokens and channels of \<^verbatim>\<open>tokio\<close>
  are arguments with no assumption. The same holds for the D1 service and the parser of its answers,
  for the parsers of URLs, addresses and authorities behind the HTTP endpoint, for the decimal text of a
  float and for the stream an export is written to. CSV and geometries are read back by readers and writers
  that the laws define: they state the format and model no code.

  \<^bold>\<open>Not modelled.\<close> The transport and the tool catalogue of the MCP server, the conversations with language
  models, the other drivers, tunnels and pools, import, transfer and backup, spreadsheet and archive formats, and the front ends move
  bytes between processes, servers and files. SQL parsing, classification and generation for the
  supported dialects, and with them the risk classification of statements, would be a development of its
  own; the execution-scope tests of the server that classify SQL and BSON text are left out for that
  reason. The Redis, Postgres and S3 backends of the state store and the encryption of payloads call
  servers and cryptographic packages.
\<close>

end
